theory Spec2Isabelle
  imports Main
begin

section \<open>JavaScript values and objects\<close>

text \<open>
  Router.ts handles requests, responses, contexts and options as plain JavaScript
  objects: it reads \<open>normalisedRequest.url\<close> and \<open>options.redirect\<close>, tests values for
  truthiness and builds its result with an object spread. Objects are therefore
  modelled as property lists in insertion order, and values as a datatype with the
  truthiness rule of the language. Function values are references (numbers).
\<close>

datatype val =
    JUndefined
  | JNull
  | JBool bool
  | JNumber int
  | JString string
  | JFunction nat
  | JObject "(string \<times> val) list"

type_synonym obj = "(string \<times> val) list"

text \<open>Truthiness, as used by \<open>path && middlewareOrResponse\<close> and \<open>options.redirect && ...\<close>.\<close>

fun truthy :: "val \<Rightarrow> bool" where
  "truthy JUndefined = False"
| "truthy JNull = False"
| "truthy (JBool b) = b"
| "truthy (JNumber n) = (n \<noteq> 0)"
| "truthy (JString s) = (s \<noteq> [])"
| "truthy (JFunction f) = True"
| "truthy (JObject ps) = True"

text \<open>Property read \<open>ob.k\<close>: a missing property reads as \<open>undefined\<close>.\<close>

definition get_prop :: "obj \<Rightarrow> string \<Rightarrow> val" where
  "get_prop ob k = (case map_of ob k of None \<Rightarrow> JUndefined | Some v \<Rightarrow> v)"

definition has_prop :: "obj \<Rightarrow> string \<Rightarrow> bool" where
  "has_prop ob k = (k \<in> set (map fst ob))"

text \<open>Property write \<open>ob[k] = v\<close>: an existing key keeps its position, a new key goes last.\<close>

fun set_prop :: "string \<Rightarrow> val \<Rightarrow> obj \<Rightarrow> obj" where
  "set_prop k v [] = [(k, v)]"
| "set_prop k v ((k', v') # ps) =
     (if k' = k then (k, v) # ps else (k', v') # set_prop k v ps)"

text \<open>
  Object spread \<open>{...target, ...source}\<close>: every own key of the source, in order, is read
  from the source and written to the target, so a key of the source overrides the
  same key of the target. The lists keep the keys in the order of their creation; the
  order in which an engine enumerates keys that are array indices is not modelled.
\<close>

definition spread :: "obj \<Rightarrow> obj \<Rightarrow> obj" where
  "spread target source =
     foldl (\<lambda>acc k. set_prop k (get_prop source k) acc) target (map fst source)"

section \<open>Exceptions, promises, events\<close>

text \<open>
  A thrown value is either the \<open>TypeError\<close> that \<open>use\<close> constructs or a value thrown by a
  collaborator or a listener. A synchronous call returns \<open>Inr\<close> or raises \<open>Inl\<close>; an
  asynchronous call gives a promise that is resolved or rejected.
\<close>

datatype exn = TypeError string | Thrown string

datatype 'a promise = Resolved 'a | Rejected exn

text \<open>\<open>await p\<close> inside a \<open>try\<close> block: the value, or the rejection raised as an exception.\<close>

fun await :: "'a promise \<Rightarrow> exn + 'a" where
  "await (Resolved v) = Inr v"
| "await (Rejected e) = Inl e"

datatype ExecutionContext = Synchronous | Asynchronous

datatype kind = Before | After | Error

text \<open>
  Event payloads of Router.ts: \<open>{request, context}\<close>, \<open>{request, response, context}\<close> and
  \<open>{request, error, context}\<close>.
\<close>

datatype event =
    BeforeEvent obj obj
  | AfterEvent obj obj obj
  | ErrorEvent obj exn obj

text \<open>
  Listeners are function references; the emitter compares them by identity.
  \<open>DefaultErrorListener\<close> is the imported \<open>defaultErrorListener\<close>.
\<close>

datatype lref = DefaultErrorListener | UserListener nat

text \<open>
  What a run of the router does to the outside is recorded as a history: every call of
  \<open>emitter.emit\<close> and every invocation of a listener by the emitter. The \<open>world\<close> is the
  state that the closures of the caller (middleware, listeners) can read and write.
\<close>

datatype obs = Emitted kind event | Invoked lref event

record 'w state =
  world :: 'w
  trace :: "obs list"

section \<open>Collaborators\<close>

text \<open>
  The functions that Router.ts imports from \<open>./utils\<close> are parameters of the model. Each
  may throw where JavaScript lets it; the chain executors and the listeners may also
  change the world. They do not call back into the router.
\<close>

record 'w collaborators =
  normaliseRequest :: "obj \<Rightarrow> exn + obj"
  normaliseContext :: "ExecutionContext \<Rightarrow> exn + obj"
  createMiddleware :: "val \<Rightarrow> val \<Rightarrow> val \<Rightarrow> nat"
  routeSync :: "obj \<Rightarrow> obj \<Rightarrow> nat list \<Rightarrow> 'w \<Rightarrow> (exn + obj) \<times> 'w"
  routeAsync :: "obj \<Rightarrow> obj \<Rightarrow> nat list \<Rightarrow> 'w \<Rightarrow> obj promise \<times> 'w"
  isRedirect :: "obj \<Rightarrow> exn + bool"
  listener :: "lref \<Rightarrow> event \<Rightarrow> 'w \<Rightarrow> exn option \<times> 'w"

section \<open>The event bus\<close>

text \<open>
  Modelled from the spec: the event bus is the \<open>mitt\<close> package, which is not under src/.
  \<open>on\<close> subscribes a listener after those already subscribed to the kind, \<open>off\<close> removes
  the given listener reference and is a no-op for one that is not subscribed, \<open>emit\<close>
  invokes the listeners of the kind in subscription order. An exception of a listener
  leaves \<open>emit\<close> at once, so the listeners after it are not invoked.
\<close>

type_synonym emitter = "kind \<Rightarrow> lref list"

definition mitt :: emitter where
  "mitt = (\<lambda>t. [])"

definition mitt_on :: "kind \<Rightarrow> lref \<Rightarrow> emitter \<Rightarrow> emitter" where
  "mitt_on t h a = a(t := a t @ [h])"

definition mitt_off :: "kind \<Rightarrow> lref \<Rightarrow> emitter \<Rightarrow> emitter" where
  "mitt_off t h a = a(t := remove1 h (a t))"

fun call_handlers ::
  "(lref \<Rightarrow> event \<Rightarrow> 'w \<Rightarrow> exn option \<times> 'w) \<Rightarrow> lref list \<Rightarrow> event \<Rightarrow> 'w state
     \<Rightarrow> exn option \<times> 'w state" where
  "call_handlers run [] ev s = (None, s)"
| "call_handlers run (h # hs) ev s =
     (case run h ev (world s) of
        (Some e, w') \<Rightarrow> (Some e, \<lparr>world = w', trace = trace s @ [Invoked h ev]\<rparr>)
      | (None, w') \<Rightarrow>
          call_handlers run hs ev \<lparr>world = w', trace = trace s @ [Invoked h ev]\<rparr>)"

definition mitt_emit ::
  "(lref \<Rightarrow> event \<Rightarrow> 'w \<Rightarrow> exn option \<times> 'w) \<Rightarrow> kind \<Rightarrow> event \<Rightarrow> emitter \<Rightarrow> 'w state
     \<Rightarrow> exn option \<times> 'w state" where
  "mitt_emit run t ev a s =
     call_handlers run (a t) ev \<lparr>world = world s, trace = trace s @ [Emitted t ev]\<rparr>"

section \<open>The router\<close>

record router =
  emitter :: emitter
  middleware :: "nat list"

text \<open>The constructor: a fresh emitter with the default error listener subscribed.\<close>

definition Router_new :: router where
  "Router_new = \<lparr>emitter = mitt_on Error DefaultErrorListener mitt, middleware = []\<rparr>"

text \<open>
  The three emitters. Here the request, the context and the response are values: a
  listener is given the event and can change the world, the router goes on with the
  objects as they were. The section on shared objects below gives the objects
  themselves to the listeners and to the chain executors.
\<close>

definition emitBeforeEvent ::
  "'w collaborators \<Rightarrow> router \<Rightarrow> obj \<Rightarrow> obj \<Rightarrow> 'w state \<Rightarrow> exn option \<times> 'w state" where
  "emitBeforeEvent E r request context s =
     mitt_emit (listener E) Before (BeforeEvent request context) (emitter r) s"

definition emitAfterEvent ::
  "'w collaborators \<Rightarrow> router \<Rightarrow> obj \<Rightarrow> obj \<Rightarrow> obj \<Rightarrow> 'w state \<Rightarrow> exn option \<times> 'w state" where
  "emitAfterEvent E r request response context s =
     mitt_emit (listener E) After (AfterEvent request response context) (emitter r) s"

definition emitErrorEvent ::
  "'w collaborators \<Rightarrow> router \<Rightarrow> obj \<Rightarrow> exn \<Rightarrow> obj \<Rightarrow> 'w state \<Rightarrow> exn option \<times> 'w state" where
  "emitErrorEvent E r request error context s =
     mitt_emit (listener E) Error (ErrorEvent request error context) (emitter r) s"

text \<open>\<open>on\<close> and \<open>off\<close> return \<open>this\<close>; the model returns the router after the call.\<close>

definition Router_on :: "kind \<Rightarrow> lref \<Rightarrow> router \<Rightarrow> router" where
  "Router_on type l r =
     (let r1 = r\<lparr>emitter := mitt_on type l (emitter r)\<rparr>
      in if type = Error
         then r1\<lparr>emitter := mitt_off Error DefaultErrorListener (emitter r1)\<rparr>
         else r1)"

definition Router_off :: "kind \<Rightarrow> lref \<Rightarrow> router \<Rightarrow> router" where
  "Router_off type l r = r\<lparr>emitter := mitt_off type l (emitter r)\<rparr>"

text \<open>
  \<open>use\<close>: the three parameters of the implementation signature, an omitted one being
  \<open>undefined\<close>. The result is the exception thrown, if any, and the router after the call.
\<close>

definition Router_use ::
  "'w collaborators \<Rightarrow> val \<Rightarrow> val \<Rightarrow> val \<Rightarrow> router \<Rightarrow> exn option \<times> router" where
  "Router_use E methodOrMiddleware path middlewareOrResponse r =
     (case methodOrMiddleware of
        JFunction f \<Rightarrow> (None, r\<lparr>middleware := middleware r @ [f]\<rparr>)
      | _ \<Rightarrow>
          if truthy path \<and> truthy middlewareOrResponse
          then (None, r\<lparr>middleware := middleware r @
                  [createMiddleware E methodOrMiddleware path middlewareOrResponse]\<rparr>)
          else (Some (TypeError ''Invalid arguments.''), r))"

text \<open>
  The verb wrappers call \<open>this.use\<close> and then return \<open>this\<close>; an exception of \<open>use\<close>
  passes through them.
\<close>

definition Router_all ::
  "'w collaborators \<Rightarrow> val \<Rightarrow> val \<Rightarrow> router \<Rightarrow> exn option \<times> router" where
  "Router_all E path middlewareOrResponse r =
     (case Router_use E (JString ''*'') path middlewareOrResponse r of
        (Some e, r') \<Rightarrow> (Some e, r')
      | (None, r') \<Rightarrow> (None, r'))"

definition Router_options ::
  "'w collaborators \<Rightarrow> val \<Rightarrow> val \<Rightarrow> router \<Rightarrow> exn option \<times> router" where
  "Router_options E path middlewareOrResponse r =
     (case Router_use E (JString ''options'') path middlewareOrResponse r of
        (Some e, r') \<Rightarrow> (Some e, r')
      | (None, r') \<Rightarrow> (None, r'))"

definition Router_head ::
  "'w collaborators \<Rightarrow> val \<Rightarrow> val \<Rightarrow> router \<Rightarrow> exn option \<times> router" where
  "Router_head E path middlewareOrResponse r =
     (case Router_use E (JString ''head'') path middlewareOrResponse r of
        (Some e, r') \<Rightarrow> (Some e, r')
      | (None, r') \<Rightarrow> (None, r'))"

definition Router_get ::
  "'w collaborators \<Rightarrow> val \<Rightarrow> val \<Rightarrow> router \<Rightarrow> exn option \<times> router" where
  "Router_get E path middlewareOrResponse r =
     (case Router_use E (JString ''get'') path middlewareOrResponse r of
        (Some e, r') \<Rightarrow> (Some e, r')
      | (None, r') \<Rightarrow> (None, r'))"

definition Router_post ::
  "'w collaborators \<Rightarrow> val \<Rightarrow> val \<Rightarrow> router \<Rightarrow> exn option \<times> router" where
  "Router_post E path middlewareOrResponse r =
     (case Router_use E (JString ''post'') path middlewareOrResponse r of
        (Some e, r') \<Rightarrow> (Some e, r')
      | (None, r') \<Rightarrow> (None, r'))"

definition Router_put ::
  "'w collaborators \<Rightarrow> val \<Rightarrow> val \<Rightarrow> router \<Rightarrow> exn option \<times> router" where
  "Router_put E path middlewareOrResponse r =
     (case Router_use E (JString ''put'') path middlewareOrResponse r of
        (Some e, r') \<Rightarrow> (Some e, r')
      | (None, r') \<Rightarrow> (None, r'))"

definition Router_patch ::
  "'w collaborators \<Rightarrow> val \<Rightarrow> val \<Rightarrow> router \<Rightarrow> exn option \<times> router" where
  "Router_patch E path middlewareOrResponse r =
     (case Router_use E (JString ''patch'') path middlewareOrResponse r of
        (Some e, r') \<Rightarrow> (Some e, r')
      | (None, r') \<Rightarrow> (None, r'))"

definition Router_delete ::
  "'w collaborators \<Rightarrow> val \<Rightarrow> val \<Rightarrow> router \<Rightarrow> exn option \<times> router" where
  "Router_delete E path middlewareOrResponse r =
     (case Router_use E (JString ''delete'') path middlewareOrResponse r of
        (Some e, r') \<Rightarrow> (Some e, r')
      | (None, r') \<Rightarrow> (None, r'))"

section \<open>The dispatch loop\<close>

text \<open>
  The body of the \<open>do ... while\<close> of \<open>routeSync\<close>: emit \<open>before\<close>, run the chain, emit
  \<open>after\<close>. It gives the response, or the exception that left the body, and the state.
\<close>

definition routeSync_body ::
  "'w collaborators \<Rightarrow> router \<Rightarrow> obj \<Rightarrow> obj \<Rightarrow> 'w state \<Rightarrow> (exn + obj) \<times> 'w state" where
  "routeSync_body E r normalisedRequest normalisedContext s =
     (case emitBeforeEvent E r normalisedRequest normalisedContext s of
        (Some e, s1) \<Rightarrow> (Inl e, s1)
      | (None, s1) \<Rightarrow>
          (case routeSync E normalisedRequest normalisedContext (middleware r) (world s1) of
             (Inl e, w2) \<Rightarrow> (Inl e, \<lparr>world = w2, trace = trace s1\<rparr>)
           | (Inr normalisedResponse, w2) \<Rightarrow>
               (case emitAfterEvent E r normalisedRequest normalisedResponse normalisedContext
                       \<lparr>world = w2, trace = trace s1\<rparr> of
                  (Some e, s3) \<Rightarrow> (Inl e, s3)
                | (None, s3) \<Rightarrow> (Inr normalisedResponse, s3))))"

text \<open>The same body in \<open>routeAsync\<close>, with the chain awaited.\<close>

definition routeAsync_body ::
  "'w collaborators \<Rightarrow> router \<Rightarrow> obj \<Rightarrow> obj \<Rightarrow> 'w state \<Rightarrow> (exn + obj) \<times> 'w state" where
  "routeAsync_body E r normalisedRequest normalisedContext s =
     (case emitBeforeEvent E r normalisedRequest normalisedContext s of
        (Some e, s1) \<Rightarrow> (Inl e, s1)
      | (None, s1) \<Rightarrow>
          (case routeAsync E normalisedRequest normalisedContext (middleware r) (world s1) of
             (p, w2) \<Rightarrow>
               (case await p of
                  Inl e \<Rightarrow> (Inl e, \<lparr>world = w2, trace = trace s1\<rparr>)
                | Inr normalisedResponse \<Rightarrow>
                    (case emitAfterEvent E r normalisedRequest normalisedResponse
                            normalisedContext \<lparr>world = w2, trace = trace s1\<rparr> of
                       (Some e, s3) \<Rightarrow> (Inl e, s3)
                     | (None, s3) \<Rightarrow> (Inr normalisedResponse, s3)))))"

text \<open>
  The loop \<open>do body while (options.redirect && isRedirect(normalisedResponse))\<close>. The
  request, the context and the middleware list are the same in every pass (the source
  builds no redirect request). The loop need not end, so the result is an option:
  \<open>None\<close> is a call that never returns.
\<close>

partial_function (option) routeSync_loop ::
  "'w collaborators \<Rightarrow> router \<Rightarrow> obj \<Rightarrow> obj \<Rightarrow> obj \<Rightarrow> 'w state
     \<Rightarrow> ((exn + obj) \<times> 'w state) option" where
  "routeSync_loop E r options normalisedRequest normalisedContext s =
     (case routeSync_body E r normalisedRequest normalisedContext s of
        (Inl e, s') \<Rightarrow> Some (Inl e, s')
      | (Inr normalisedResponse, s') \<Rightarrow>
          if truthy (get_prop options ''redirect'')
          then (case isRedirect E normalisedResponse of
                  Inl e \<Rightarrow> Some (Inl e, s')
                | Inr b \<Rightarrow>
                    if b then routeSync_loop E r options normalisedRequest normalisedContext s'
                    else Some (Inr normalisedResponse, s'))
          else Some (Inr normalisedResponse, s'))"

partial_function (option) routeAsync_loop ::
  "'w collaborators \<Rightarrow> router \<Rightarrow> obj \<Rightarrow> obj \<Rightarrow> obj \<Rightarrow> 'w state
     \<Rightarrow> ((exn + obj) \<times> 'w state) option" where
  "routeAsync_loop E r options normalisedRequest normalisedContext s =
     (case routeAsync_body E r normalisedRequest normalisedContext s of
        (Inl e, s') \<Rightarrow> Some (Inl e, s')
      | (Inr normalisedResponse, s') \<Rightarrow>
          if truthy (get_prop options ''redirect'')
          then (case isRedirect E normalisedResponse of
                  Inl e \<Rightarrow> Some (Inl e, s')
                | Inr b \<Rightarrow>
                    if b then routeAsync_loop E r options normalisedRequest normalisedContext s'
                    else Some (Inr normalisedResponse, s'))
          else Some (Inr normalisedResponse, s'))"

text \<open>The default of the \<open>options\<close> parameter applies when the argument is omitted.\<close>

definition default_options :: "obj option \<Rightarrow> obj" where
  "default_options options =
     (case options of None \<Rightarrow> [(''redirect'', JString ''follow'')] | Some ob \<Rightarrow> ob)"

text \<open>The object literal \<open>{url: normalisedRequest.url, redirected: false, ...normalisedResponse}\<close>.\<close>

definition route_result :: "obj \<Rightarrow> obj \<Rightarrow> obj" where
  "route_result normalisedRequest normalisedResponse =
     spread [(''url'', get_prop normalisedRequest ''url''), (''redirected'', JBool False)]
       normalisedResponse"

text \<open>
  \<open>routeSync\<close>: normalisation happens before the \<open>try\<close>; the loop and the \<open>return\<close> are
  inside it; the \<open>catch\<close> emits the error event and throws the caught value again. The
  result is what the caller sees (\<open>Inl\<close>: raised), the router and the state after the
  call, or \<open>None\<close> if the call never returns.
\<close>

definition Router_routeSync ::
  "'w collaborators \<Rightarrow> obj \<Rightarrow> obj option \<Rightarrow> router \<Rightarrow> 'w state
     \<Rightarrow> ((exn + obj) \<times> router \<times> 'w state) option" where
  "Router_routeSync E request options r s =
     (case normaliseRequest E request of
        Inl e \<Rightarrow> Some (Inl e, r, s)
      | Inr normalisedRequest \<Rightarrow>
          (case normaliseContext E Synchronous of
             Inl e \<Rightarrow> Some (Inl e, r, s)
           | Inr normalisedContext \<Rightarrow>
               (case routeSync_loop E r (default_options options) normalisedRequest
                       normalisedContext s of
                  None \<Rightarrow> None
                | Some (Inr normalisedResponse, s') \<Rightarrow>
                    Some (Inr (route_result normalisedRequest normalisedResponse), r, s')
                | Some (Inl error, s') \<Rightarrow>
                    (case emitErrorEvent E r normalisedRequest error normalisedContext s' of
                       (Some e', s'') \<Rightarrow> Some (Inl e', r, s'')
                     | (None, s'') \<Rightarrow> Some (Inl error, r, s'')))))"

text \<open>
  \<open>routeAsync\<close> is an \<open>async\<close> function: every exception, also one of normalisation,
  rejects the promise it returns.
\<close>

definition Router_routeAsync ::
  "'w collaborators \<Rightarrow> obj \<Rightarrow> obj option \<Rightarrow> router \<Rightarrow> 'w state
     \<Rightarrow> (obj promise \<times> router \<times> 'w state) option" where
  "Router_routeAsync E request options r s =
     (case normaliseRequest E request of
        Inl e \<Rightarrow> Some (Rejected e, r, s)
      | Inr normalisedRequest \<Rightarrow>
          (case normaliseContext E Asynchronous of
             Inl e \<Rightarrow> Some (Rejected e, r, s)
           | Inr normalisedContext \<Rightarrow>
               (case routeAsync_loop E r (default_options options) normalisedRequest
                       normalisedContext s of
                  None \<Rightarrow> None
                | Some (Inr normalisedResponse, s') \<Rightarrow>
                    Some (Resolved (route_result normalisedRequest normalisedResponse), r, s')
                | Some (Inl error, s') \<Rightarrow>
                    (case emitErrorEvent E r normalisedRequest error normalisedContext s' of
                       (Some e', s'') \<Rightarrow> Some (Rejected e', r, s'')
                     | (None, s'') \<Rightarrow> Some (Rejected error, r, s'')))))"

section \<open>Scripts of calls\<close>

text \<open>
  A caller's script of subscription and registration calls on one router. A call that
  throws leaves the router as \<open>use\<close> left it, and the script goes on (the caller may
  catch the exception); the exceptions are collected in call order.
\<close>

datatype call =
    On kind lref
  | Off kind lref
  | Use val val val
  | All val val
  | Options val val
  | Head val val
  | Get val val
  | Post val val
  | Put val val
  | Patch val val
  | Delete val val

fun apply_call :: "'w collaborators \<Rightarrow> call \<Rightarrow> router \<Rightarrow> exn option \<times> router" where
  "apply_call E (On t l) r = (None, Router_on t l r)"
| "apply_call E (Off t l) r = (None, Router_off t l r)"
| "apply_call E (Use m p h) r = Router_use E m p h r"
| "apply_call E (All p h) r = Router_all E p h r"
| "apply_call E (Options p h) r = Router_options E p h r"
| "apply_call E (Head p h) r = Router_head E p h r"
| "apply_call E (Get p h) r = Router_get E p h r"
| "apply_call E (Post p h) r = Router_post E p h r"
| "apply_call E (Put p h) r = Router_put E p h r"
| "apply_call E (Patch p h) r = Router_patch E p h r"
| "apply_call E (Delete p h) r = Router_delete E p h r"

fun run_calls :: "'w collaborators \<Rightarrow> call list \<Rightarrow> router \<Rightarrow> exn option list \<times> router" where
  "run_calls E [] r = ([], r)"
| "run_calls E (c # cs) r =
     (case apply_call E c r of
        (x, r') \<Rightarrow> (case run_calls E cs r' of (xs, r'') \<Rightarrow> (x # xs, r'')))"

section \<open>Notions used by the properties\<close>

text \<open>\<open>typeof v === 'function'\<close>.\<close>

fun is_function :: "val \<Rightarrow> bool" where
  "is_function (JFunction f) = True"
| "is_function v = False"

text \<open>The number of \<open>emit\<close> calls of one kind in a history.\<close>

fun is_emitted :: "kind \<Rightarrow> obs \<Rightarrow> bool" where
  "is_emitted t (Emitted t' ev) = (t' = t)"
| "is_emitted t (Invoked l ev) = False"

definition emitted_count :: "kind \<Rightarrow> obs list \<Rightarrow> nat" where
  "emitted_count t tr = length (filter (is_emitted t) tr)"

text \<open>The invocations of one listener in a history.\<close>

fun is_invoked :: "lref \<Rightarrow> obs \<Rightarrow> bool" where
  "is_invoked l (Invoked l' ev) = (l' = l)"
| "is_invoked l (Emitted t ev) = False"

definition invocations :: "lref \<Rightarrow> obs list \<Rightarrow> obs list" where
  "invocations l tr = filter (is_invoked l) tr"

text \<open>Whether a call is a registration (\<open>use\<close> or a verb wrapper), and whether it hands
  the given listener reference to the router.\<close>

fun is_registration :: "call \<Rightarrow> bool" where
  "is_registration (On t l) = False"
| "is_registration (Off t l) = False"
| "is_registration c = True"

fun passes_listener :: "lref \<Rightarrow> call \<Rightarrow> bool" where
  "passes_listener l (On t l') = (l' = l)"
| "passes_listener l (Off t l') = (l' = l)"
| "passes_listener l c = False"

fun is_on_error :: "call \<Rightarrow> bool" where
  "is_on_error (On t l) = (t = Error)"
| "is_on_error c = False"

text \<open>
  The spec's reading of a registration: a function is appended as it is, a triple
  appends what the Route Entry Builder makes of it, and a verb wrapper is the triple
  with its fixed method pattern.
\<close>

fun registered :: "'w collaborators \<Rightarrow> call \<Rightarrow> nat list" where
  "registered E (Use (JFunction f) p h) = [f]"
| "registered E (Use m p h) = [createMiddleware E m p h]"
| "registered E (All p h) = [createMiddleware E (JString ''*'') p h]"
| "registered E (Options p h) = [createMiddleware E (JString ''options'') p h]"
| "registered E (Head p h) = [createMiddleware E (JString ''head'') p h]"
| "registered E (Get p h) = [createMiddleware E (JString ''get'') p h]"
| "registered E (Post p h) = [createMiddleware E (JString ''post'') p h]"
| "registered E (Put p h) = [createMiddleware E (JString ''put'') p h]"
| "registered E (Patch p h) = [createMiddleware E (JString ''patch'') p h]"
| "registered E (Delete p h) = [createMiddleware E (JString ''delete'') p h]"
| "registered E (On t l) = []"
| "registered E (Off t l) = []"

text \<open>An event, and a history entry, with the context replaced: two histories that
  agree after the replacement differ in the contexts of their events only.\<close>

fun with_context :: "obj \<Rightarrow> event \<Rightarrow> event" where
  "with_context c (BeforeEvent q c') = BeforeEvent q c"
| "with_context c (AfterEvent q resp c') = AfterEvent q resp c"
| "with_context c (ErrorEvent q e c') = ErrorEvent q e c"

fun obs_with_context :: "obj \<Rightarrow> obs \<Rightarrow> obs" where
  "obs_with_context c (Emitted t ev) = Emitted t (with_context c ev)"
| "obs_with_context c (Invoked l ev) = Invoked l (with_context c ev)"

section \<open>The dispatch state machine of the spec\<close>

text \<open>
  The spec describes one state machine for both entry points (its section 4.3), with
  the execution tag and the chain executor as the only differences: NORMALIZE, then
  DISPATCH (emit \<open>before\<close>, run the chain, emit \<open>after\<close>), then LOOP-DECISION (go on iff
  the redirect option is truthy and the classifier reports a redirect), then DONE, with
  ERROR reached from any point of the loop. These definitions follow the spec's words;
  they are compared below with \<open>routeSync\<close> and \<open>routeAsync\<close> as the source has them.
  \<open>awaited\<close> is a chain executor whose promise is awaited, \<open>settled\<close> the promise that an
  \<open>async\<close> function returns for a result or an exception.
\<close>

definition dispatch_pass ::
  "(obj \<Rightarrow> obj \<Rightarrow> nat list \<Rightarrow> 'w \<Rightarrow> (exn + obj) \<times> 'w) \<Rightarrow> 'w collaborators \<Rightarrow> router
     \<Rightarrow> obj \<Rightarrow> obj \<Rightarrow> 'w state \<Rightarrow> (exn + obj) \<times> 'w state" where
  "dispatch_pass chain E r q c s =
     (case emitBeforeEvent E r q c s of
        (Some e, s1) \<Rightarrow> (Inl e, s1)
      | (None, s1) \<Rightarrow>
          (case chain q c (middleware r) (world s1) of
             (Inl e, w2) \<Rightarrow> (Inl e, \<lparr>world = w2, trace = trace s1\<rparr>)
           | (Inr resp, w2) \<Rightarrow>
               (case emitAfterEvent E r q resp c \<lparr>world = w2, trace = trace s1\<rparr> of
                  (Some e, s3) \<Rightarrow> (Inl e, s3)
                | (None, s3) \<Rightarrow> (Inr resp, s3))))"

partial_function (option) dispatch_loop ::
  "bool \<Rightarrow> (obj \<Rightarrow> exn + bool) \<Rightarrow> ('s \<Rightarrow> (exn + obj) \<times> 's) \<Rightarrow> 's
     \<Rightarrow> ((exn + obj) \<times> 's) option" where
  "dispatch_loop follow classify pass s =
     (case pass s of
        (Inl e, s') \<Rightarrow> Some (Inl e, s')
      | (Inr resp, s') \<Rightarrow>
          if follow
          then (case classify resp of
                  Inl e \<Rightarrow> Some (Inl e, s')
                | Inr redirect \<Rightarrow>
                    if redirect then dispatch_loop follow classify pass s'
                    else Some (Inr resp, s'))
          else Some (Inr resp, s'))"

definition dispatch ::
  "ExecutionContext \<Rightarrow> (obj \<Rightarrow> obj \<Rightarrow> nat list \<Rightarrow> 'w \<Rightarrow> (exn + obj) \<times> 'w)
     \<Rightarrow> 'w collaborators \<Rightarrow> obj \<Rightarrow> obj option \<Rightarrow> router \<Rightarrow> 'w state
     \<Rightarrow> ((exn + obj) \<times> router \<times> 'w state) option" where
  "dispatch tag chain E request options r s =
     (case normaliseRequest E request of
        Inl e \<Rightarrow> Some (Inl e, r, s)
      | Inr q \<Rightarrow>
          (case normaliseContext E tag of
             Inl e \<Rightarrow> Some (Inl e, r, s)
           | Inr c \<Rightarrow>
               (case dispatch_loop (truthy (get_prop (default_options options) ''redirect''))
                       (isRedirect E) (dispatch_pass chain E r q c) s of
                  None \<Rightarrow> None
                | Some (Inr resp, s') \<Rightarrow> Some (Inr (route_result q resp), r, s')
                | Some (Inl e, s') \<Rightarrow>
                    (case emitErrorEvent E r q e c s' of
                       (Some e', s'') \<Rightarrow> Some (Inl e', r, s'')
                     | (None, s'') \<Rightarrow> Some (Inl e, r, s'')))))"

definition awaited ::
  "(obj \<Rightarrow> obj \<Rightarrow> nat list \<Rightarrow> 'w \<Rightarrow> obj promise \<times> 'w)
     \<Rightarrow> obj \<Rightarrow> obj \<Rightarrow> nat list \<Rightarrow> 'w \<Rightarrow> (exn + obj) \<times> 'w" where
  "awaited chain q c ms w = (case chain q c ms w of (p, w') \<Rightarrow> (await p, w'))"

fun settled :: "exn + 'a \<Rightarrow> 'a promise" where
  "settled (Inl e) = Rejected e"
| "settled (Inr v) = Resolved v"

fun settled_call :: "(exn + 'a) \<times> 'b \<Rightarrow> 'a promise \<times> 'b" where
  "settled_call (out, rest) = (settled out, rest)"

text \<open>
  Two histories have the same events when they agree once every context is replaced by
  the empty one: they differ at most in the contexts that their events carry.
\<close>

definition same_events :: "obs list \<Rightarrow> obs list \<Rightarrow> bool" where
  "same_events tr tr' \<longleftrightarrow> map (obs_with_context []) tr = map (obs_with_context []) tr'"

definition same_but_context :: "'w state \<Rightarrow> 'w state \<Rightarrow> bool" where
  "same_but_context s t \<longleftrightarrow> world s = world t \<and> same_events (trace s) (trace t)"

section \<open>Example collaborators\<close>

text \<open>
  A small world for concrete runs: the world is a counter of chain executions. The
  chain answers 404 on an empty middleware list and otherwise the status found in the
  request's \<open>want\<close> field, except that a request with a \<open>moved\<close> field is answered
  302 the first time; a request whose \<open>url\<close> is \<open>/throw\<close> makes it throw, and an
  \<open>own\<close> field of the request is copied into the response as its \<open>url\<close>. The
  classifier reports the statuses 301 and 302. Listener 1 throws on error events,
  every other listener returns. A route entry is numbered by the length of its path.
\<close>

definition example_chain :: "obj \<Rightarrow> obj \<Rightarrow> nat list \<Rightarrow> nat \<Rightarrow> (exn + obj) \<times> nat" where
  "example_chain q c ms w =
     (if get_prop q ''url'' = JString ''/throw'' then (Inl (Thrown ''boom''), Suc w)
      else if ms = [] then (Inr [(''status'', JNumber 404)], Suc w)
      else if has_prop q ''moved'' \<and> w = 0 then (Inr [(''status'', JNumber 302)], Suc w)
      else (Inr ((''status'', get_prop q ''want'') #
                 (if has_prop q ''own'' then [(''url'', get_prop q ''own'')] else [])),
            Suc w))"

fun example_promise :: "(exn + obj) \<times> nat \<Rightarrow> obj promise \<times> nat" where
  "example_promise (Inl e, w) = (Rejected e, w)"
| "example_promise (Inr resp, w) = (Resolved resp, w)"

definition example_listener :: "lref \<Rightarrow> event \<Rightarrow> nat \<Rightarrow> exn option \<times> nat" where
  "example_listener l ev w =
     (case ev of
        ErrorEvent q e c \<Rightarrow>
          if l = UserListener 1 then (Some (Thrown ''listener''), w) else (None, w)
      | _ \<Rightarrow> (None, w))"

definition example_collaborators :: "nat collaborators" where
  "example_collaborators =
     \<lparr>normaliseRequest =
        (\<lambda>q. if has_prop q ''url'' then Inr q else Inl (Thrown ''no url'')),
      normaliseContext = (\<lambda>t. Inr [(''execution'', JBool (t = Synchronous))]),
      createMiddleware =
        (\<lambda>m p h. case p of JString path \<Rightarrow> 100 + length path | _ \<Rightarrow> 100),
      routeSync = example_chain,
      routeAsync = (\<lambda>q c ms w. example_promise (example_chain q c ms w)),
      isRedirect =
        (\<lambda>resp. Inr (get_prop resp ''status'' = JNumber 301 \<or>
                      get_prop resp ''status'' = JNumber 302)),
      listener = example_listener\<rparr>"

definition example_state :: "nat state" where
  "example_state = \<lparr>world = 0, trace = []\<rparr>"

definition no_context_collaborators :: "nat collaborators" where
  "no_context_collaborators =
     example_collaborators\<lparr>normaliseContext := (\<lambda>t. Inl (Thrown ''no context''))\<rparr>"

definition example_router :: router where
  "example_router =
     snd (Router_get example_collaborators (JString ''/x'') (JObject [(''status'', JNumber 200)])
            Router_new)"

text \<open>
  Collaborators whose listeners tell the execution tags apart: every listener throws on
  a \<open>before\<close> event that carries the context of an asynchronous call.
\<close>

definition tag_sensitive_listener :: "lref \<Rightarrow> event \<Rightarrow> nat \<Rightarrow> exn option \<times> nat" where
  "tag_sensitive_listener l ev w =
     (case ev of
        BeforeEvent q c \<Rightarrow>
          if get_prop c ''execution'' = JBool False then (Some (Thrown ''async only''), w)
          else (None, w)
      | _ \<Rightarrow> (None, w))"

definition tag_sensitive_collaborators :: "nat collaborators" where
  "tag_sensitive_collaborators = example_collaborators\<lparr>listener := tag_sensitive_listener\<rparr>"


section \<open>Shared objects\<close>

text \<open>
  The normalised request, the context and the response of a dispatch call are objects,
  and Router.ts hands them out by reference: to the listeners inside the event, to the
  chain executor as arguments. What a listener or a middleware writes into them is what
  Router.ts reads afterwards: the next pass and the \<open>error\<close> event take the request and
  the context as they then are, the classifier and the spread take the response as the
  \<open>after\<close> listeners left it, and \<open>url: normalisedRequest.url\<close> is read when the call
  returns. The definitions of the sections above take the objects as values, which is
  the router for listeners and executors that write to none of them (lemmas
  \<open>Router_routeSync_live_read_only\<close> and \<open>Router_routeAsync_live_read_only\<close> below).
  The definitions of this section, named with the suffix \<open>live\<close>, give the objects to
  the callbacks and take them back: a callback returns, besides its outcome, the
  objects it was handed as it leaves them, also when it throws.

  \<open>beforeListener H l\<close>, \<open>afterListener H l\<close> and \<open>errorListener H l\<close> are the listener
  \<open>l\<close> called with a \<open>before\<close>, an \<open>after\<close> and an \<open>error\<close> event; \<open>chainSync\<close> and
  \<open>chainAsync\<close> are the chain executors running the caller's middleware. They write
  to the request, the context and the response they are handed and to the world, and,
  as before, do not call back into the router. The event object that carries the
  request, the context and the response is made anew by every emit and Router.ts never
  reads it again, so its own fields belong to the world of the listeners. The
  classifier and the normalisers only read.
\<close>

record 'w callbacks =
  beforeListener :: "lref \<Rightarrow> obj \<times> obj \<Rightarrow> 'w \<Rightarrow> exn option \<times> (obj \<times> obj) \<times> 'w"
  afterListener ::
    "lref \<Rightarrow> obj \<times> obj \<times> obj \<Rightarrow> 'w \<Rightarrow> exn option \<times> (obj \<times> obj \<times> obj) \<times> 'w"
  errorListener :: "lref \<Rightarrow> exn \<Rightarrow> obj \<times> obj \<Rightarrow> 'w \<Rightarrow> exn option \<times> (obj \<times> obj) \<times> 'w"
  chainSync :: "obj \<times> obj \<Rightarrow> nat list \<Rightarrow> 'w \<Rightarrow> (exn + obj) \<times> (obj \<times> obj) \<times> 'w"
  chainAsync :: "obj \<times> obj \<Rightarrow> nat list \<Rightarrow> 'w \<Rightarrow> obj promise \<times> (obj \<times> obj) \<times> 'w"

text \<open>
  \<open>emit\<close> with shared objects: \<open>p\<close> are the objects in the event, \<open>ev p\<close> is the event
  made of them. Every listener is handed the objects as the listeners before it left
  them, and the history records the event as it was at each step.
\<close>

fun call_handlers_live ::
  "(lref \<Rightarrow> 'p \<Rightarrow> 'w \<Rightarrow> exn option \<times> 'p \<times> 'w) \<Rightarrow> ('p \<Rightarrow> event) \<Rightarrow> lref list \<Rightarrow> 'p
     \<Rightarrow> 'w state \<Rightarrow> exn option \<times> 'p \<times> 'w state" where
  "call_handlers_live run ev [] p s = (None, p, s)"
| "call_handlers_live run ev (h # hs) p s =
     (case run h p (world s) of
        (Some e, p', w') \<Rightarrow>
          (Some e, p', \<lparr>world = w', trace = trace s @ [Invoked h (ev p)]\<rparr>)
      | (None, p', w') \<Rightarrow>
          call_handlers_live run ev hs p'
            \<lparr>world = w', trace = trace s @ [Invoked h (ev p)]\<rparr>)"

definition mitt_emit_live ::
  "(lref \<Rightarrow> 'p \<Rightarrow> 'w \<Rightarrow> exn option \<times> 'p \<times> 'w) \<Rightarrow> ('p \<Rightarrow> event) \<Rightarrow> kind \<Rightarrow> 'p \<Rightarrow> emitter
     \<Rightarrow> 'w state \<Rightarrow> exn option \<times> 'p \<times> 'w state" where
  "mitt_emit_live run ev t p a s =
     call_handlers_live run ev (a t) p \<lparr>world = world s, trace = trace s @ [Emitted t (ev p)]\<rparr>"

definition emitBeforeEvent_live ::
  "'w callbacks \<Rightarrow> router \<Rightarrow> obj \<Rightarrow> obj \<Rightarrow> 'w state
     \<Rightarrow> exn option \<times> (obj \<times> obj) \<times> 'w state" where
  "emitBeforeEvent_live H r request context s =
     mitt_emit_live (beforeListener H) (\<lambda>(q, c). BeforeEvent q c) Before
       (request, context) (emitter r) s"

definition emitAfterEvent_live ::
  "'w callbacks \<Rightarrow> router \<Rightarrow> obj \<Rightarrow> obj \<Rightarrow> obj \<Rightarrow> 'w state
     \<Rightarrow> exn option \<times> (obj \<times> obj \<times> obj) \<times> 'w state" where
  "emitAfterEvent_live H r request response context s =
     mitt_emit_live (afterListener H) (\<lambda>(q, resp, c). AfterEvent q resp c) After
       (request, response, context) (emitter r) s"

definition emitErrorEvent_live ::
  "'w callbacks \<Rightarrow> router \<Rightarrow> obj \<Rightarrow> exn \<Rightarrow> obj \<Rightarrow> 'w state
     \<Rightarrow> exn option \<times> (obj \<times> obj) \<times> 'w state" where
  "emitErrorEvent_live H r request error context s =
     mitt_emit_live (\<lambda>l. errorListener H l error) (\<lambda>(q, c). ErrorEvent q error c) Error
       (request, context) (emitter r) s"

text \<open>
  The body of the loop with shared objects. It gives the response or the exception, the
  request and the context as the pass left them, and the state.
\<close>

definition routeSync_body_live ::
  "'w callbacks \<Rightarrow> router \<Rightarrow> obj \<Rightarrow> obj \<Rightarrow> 'w state
     \<Rightarrow> (exn + obj) \<times> (obj \<times> obj) \<times> 'w state" where
  "routeSync_body_live H r normalisedRequest normalisedContext s =
     (case emitBeforeEvent_live H r normalisedRequest normalisedContext s of
        (Some e, (q1, c1), s1) \<Rightarrow> (Inl e, (q1, c1), s1)
      | (None, (q1, c1), s1) \<Rightarrow>
          (case chainSync H (q1, c1) (middleware r) (world s1) of
             (Inl e, (q2, c2), w2) \<Rightarrow> (Inl e, (q2, c2), \<lparr>world = w2, trace = trace s1\<rparr>)
           | (Inr normalisedResponse, (q2, c2), w2) \<Rightarrow>
               (case emitAfterEvent_live H r q2 normalisedResponse c2
                       \<lparr>world = w2, trace = trace s1\<rparr> of
                  (Some e, (q3, resp3, c3), s3) \<Rightarrow> (Inl e, (q3, c3), s3)
                | (None, (q3, resp3, c3), s3) \<Rightarrow> (Inr resp3, (q3, c3), s3))))"

definition routeAsync_body_live ::
  "'w callbacks \<Rightarrow> router \<Rightarrow> obj \<Rightarrow> obj \<Rightarrow> 'w state
     \<Rightarrow> (exn + obj) \<times> (obj \<times> obj) \<times> 'w state" where
  "routeAsync_body_live H r normalisedRequest normalisedContext s =
     (case emitBeforeEvent_live H r normalisedRequest normalisedContext s of
        (Some e, (q1, c1), s1) \<Rightarrow> (Inl e, (q1, c1), s1)
      | (None, (q1, c1), s1) \<Rightarrow>
          (case chainAsync H (q1, c1) (middleware r) (world s1) of
             (p, (q2, c2), w2) \<Rightarrow>
               (case await p of
                  Inl e \<Rightarrow> (Inl e, (q2, c2), \<lparr>world = w2, trace = trace s1\<rparr>)
                | Inr normalisedResponse \<Rightarrow>
                    (case emitAfterEvent_live H r q2 normalisedResponse c2
                            \<lparr>world = w2, trace = trace s1\<rparr> of
                       (Some e, (q3, resp3, c3), s3) \<Rightarrow> (Inl e, (q3, c3), s3)
                     | (None, (q3, resp3, c3), s3) \<Rightarrow> (Inr resp3, (q3, c3), s3)))))"

text \<open>The loop: every pass works on the request and the context that the pass before left.\<close>

partial_function (option) routeSync_loop_live ::
  "'w collaborators \<Rightarrow> 'w callbacks \<Rightarrow> router \<Rightarrow> obj \<Rightarrow> obj \<Rightarrow> obj \<Rightarrow> 'w state
     \<Rightarrow> ((exn + obj) \<times> (obj \<times> obj) \<times> 'w state) option" where
  "routeSync_loop_live E H r options normalisedRequest normalisedContext s =
     (case routeSync_body_live H r normalisedRequest normalisedContext s of
        (Inl e, (q', c'), s') \<Rightarrow> Some (Inl e, (q', c'), s')
      | (Inr normalisedResponse, (q', c'), s') \<Rightarrow>
          if truthy (get_prop options ''redirect'')
          then (case isRedirect E normalisedResponse of
                  Inl e \<Rightarrow> Some (Inl e, (q', c'), s')
                | Inr b \<Rightarrow>
                    if b then routeSync_loop_live E H r options q' c' s'
                    else Some (Inr normalisedResponse, (q', c'), s'))
          else Some (Inr normalisedResponse, (q', c'), s'))"

partial_function (option) routeAsync_loop_live ::
  "'w collaborators \<Rightarrow> 'w callbacks \<Rightarrow> router \<Rightarrow> obj \<Rightarrow> obj \<Rightarrow> obj \<Rightarrow> 'w state
     \<Rightarrow> ((exn + obj) \<times> (obj \<times> obj) \<times> 'w state) option" where
  "routeAsync_loop_live E H r options normalisedRequest normalisedContext s =
     (case routeAsync_body_live H r normalisedRequest normalisedContext s of
        (Inl e, (q', c'), s') \<Rightarrow> Some (Inl e, (q', c'), s')
      | (Inr normalisedResponse, (q', c'), s') \<Rightarrow>
          if truthy (get_prop options ''redirect'')
          then (case isRedirect E normalisedResponse of
                  Inl e \<Rightarrow> Some (Inl e, (q', c'), s')
                | Inr b \<Rightarrow>
                    if b then routeAsync_loop_live E H r options q' c' s'
                    else Some (Inr normalisedResponse, (q', c'), s'))
          else Some (Inr normalisedResponse, (q', c'), s'))"

text \<open>
  The entry points. The result literal reads \<open>normalisedRequest.url\<close> from the request as
  it is when the loop has ended, and spreads the response of the last pass.
\<close>

definition Router_routeSync_live ::
  "'w collaborators \<Rightarrow> 'w callbacks \<Rightarrow> obj \<Rightarrow> obj option \<Rightarrow> router \<Rightarrow> 'w state
     \<Rightarrow> ((exn + obj) \<times> router \<times> 'w state) option" where
  "Router_routeSync_live E H request options r s =
     (case normaliseRequest E request of
        Inl e \<Rightarrow> Some (Inl e, r, s)
      | Inr normalisedRequest \<Rightarrow>
          (case normaliseContext E Synchronous of
             Inl e \<Rightarrow> Some (Inl e, r, s)
           | Inr normalisedContext \<Rightarrow>
               (case routeSync_loop_live E H r (default_options options) normalisedRequest
                       normalisedContext s of
                  None \<Rightarrow> None
                | Some (Inr normalisedResponse, (q', c'), s') \<Rightarrow>
                    Some (Inr (route_result q' normalisedResponse), r, s')
                | Some (Inl error, (q', c'), s') \<Rightarrow>
                    (case emitErrorEvent_live H r q' error c' s' of
                       (Some e', p, s'') \<Rightarrow> Some (Inl e', r, s'')
                     | (None, p, s'') \<Rightarrow> Some (Inl error, r, s'')))))"

definition Router_routeAsync_live ::
  "'w collaborators \<Rightarrow> 'w callbacks \<Rightarrow> obj \<Rightarrow> obj option \<Rightarrow> router \<Rightarrow> 'w state
     \<Rightarrow> (obj promise \<times> router \<times> 'w state) option" where
  "Router_routeAsync_live E H request options r s =
     (case normaliseRequest E request of
        Inl e \<Rightarrow> Some (Rejected e, r, s)
      | Inr normalisedRequest \<Rightarrow>
          (case normaliseContext E Asynchronous of
             Inl e \<Rightarrow> Some (Rejected e, r, s)
           | Inr normalisedContext \<Rightarrow>
               (case routeAsync_loop_live E H r (default_options options) normalisedRequest
                       normalisedContext s of
                  None \<Rightarrow> None
                | Some (Inr normalisedResponse, (q', c'), s') \<Rightarrow>
                    Some (Resolved (route_result q' normalisedResponse), r, s')
                | Some (Inl error, (q', c'), s') \<Rightarrow>
                    (case emitErrorEvent_live H r q' error c' s' of
                       (Some e', p, s'') \<Rightarrow> Some (Rejected e', r, s'')
                     | (None, p, s'') \<Rightarrow> Some (Rejected error, r, s'')))))"

text \<open>
  Callbacks that write to none of the objects they are handed: the listeners and the
  chain executors of the collaborators \<open>E\<close>, handing every object back as it was.
\<close>

definition read_only :: "'w collaborators \<Rightarrow> 'w callbacks" where
  "read_only E =
     \<lparr>beforeListener =
        (\<lambda>l (q, c) w. case listener E l (BeforeEvent q c) w of (x, w') \<Rightarrow> (x, (q, c), w')),
      afterListener =
        (\<lambda>l (q, resp, c) w.
           case listener E l (AfterEvent q resp c) w of (x, w') \<Rightarrow> (x, (q, resp, c), w')),
      errorListener =
        (\<lambda>l e (q, c) w. case listener E l (ErrorEvent q e c) w of (x, w') \<Rightarrow> (x, (q, c), w')),
      chainSync = (\<lambda>(q, c) ms w. case routeSync E q c ms w of (out, w') \<Rightarrow> (out, (q, c), w')),
      chainAsync = (\<lambda>(q, c) ms w. case routeAsync E q c ms w of (p, w') \<Rightarrow> (p, (q, c), w'))\<rparr>"

text \<open>
  Callbacks for the examples: the listeners and the chain of the example collaborators,
  except that listener 3 writes \<open>'/hacked'\<close> to \<open>request.url\<close> when it is called with a
  \<open>before\<close> event and listener 4 throws when it is called with an \<open>after\<close> event.
\<close>

definition example_callbacks :: "nat callbacks" where
  "example_callbacks =
     (read_only example_collaborators)
       \<lparr>beforeListener :=
          (\<lambda>l (q, c) w.
             if l = UserListener 3
             then (None, (set_prop ''url'' (JString ''/hacked'') q, c), w)
             else (None, (q, c), w)),
        afterListener :=
          (\<lambda>l (q, resp, c) w.
             if l = UserListener 4 then (Some (Thrown ''after''), (q, resp, c), w)
             else (None, (q, resp, c), w))\<rparr>"

section \<open>Facts about objects and the event bus\<close>

lemma get_prop_set_prop:
  "get_prop (set_prop k v ob) k' = (if k' = k then v else get_prop ob k')"
  by (induction k v ob rule: set_prop.induct) (auto simp add: get_prop_def)

lemma has_prop_set_prop:
  "has_prop (set_prop k v ob) k' = (k' = k \<or> has_prop ob k')"
  by (induction k v ob rule: set_prop.induct) (auto simp add: has_prop_def)

lemma get_prop_foldl_set_prop:
  "get_prop (foldl (\<lambda>acc k. set_prop k (f k) acc) ob ks) k' =
     (if k' \<in> set ks then f k' else get_prop ob k')"
  by (induction ks arbitrary: ob) (auto simp add: get_prop_set_prop)

lemma has_prop_foldl_set_prop:
  "has_prop (foldl (\<lambda>acc k. set_prop k (f k) acc) ob ks) k' =
     (k' \<in> set ks \<or> has_prop ob k')"
  by (induction ks arbitrary: ob) (auto simp add: has_prop_set_prop)

lemma get_prop_spread:
  "get_prop (spread target source) k =
     (if has_prop source k then get_prop source k else get_prop target k)"
  unfolding spread_def has_prop_def by (rule get_prop_foldl_set_prop)

lemma has_prop_spread:
  "has_prop (spread target source) k = (has_prop source k \<or> has_prop target k)"
  unfolding spread_def by (simp add: has_prop_foldl_set_prop) (simp add: has_prop_def)

lemma get_prop_route_result:
  "get_prop (route_result q resp) k =
     (if has_prop resp k then get_prop resp k
      else if k = ''url'' then get_prop q ''url''
      else if k = ''redirected'' then JBool False
      else JUndefined)"
  by (simp add: route_result_def get_prop_spread) (simp add: get_prop_def)

lemma has_prop_route_result:
  "has_prop (route_result q resp) k =
     (k = ''url'' \<or> k = ''redirected'' \<or> has_prop resp k)"
  by (auto simp add: route_result_def has_prop_spread) (auto simp add: has_prop_def)

lemma emitted_count_append [simp]:
  "emitted_count t (xs @ ys) = emitted_count t xs + emitted_count t ys"
  by (simp add: emitted_count_def)

lemma emitted_count_simps [simp]:
  "emitted_count t [] = 0"
  "emitted_count t (Invoked l ev # xs) = emitted_count t xs"
  "emitted_count t (Emitted t' ev # xs) = (if t' = t then 1 else 0) + emitted_count t xs"
  by (simp_all add: emitted_count_def)

lemma invocations_append [simp]:
  "invocations l (xs @ ys) = invocations l xs @ invocations l ys"
  by (simp add: invocations_def)

lemma invocations_simps [simp]:
  "invocations l [] = []"
  "invocations l (Emitted t ev # xs) = invocations l xs"
  "invocations l (Invoked l' ev # xs) =
     (if l' = l then Invoked l' ev # invocations l xs else invocations l xs)"
  by (simp_all add: invocations_def)

lemma call_handlers_emitted:
  "emitted_count t (trace (snd (call_handlers run hs ev s))) = emitted_count t (trace s)"
  by (induction hs arbitrary: s) (auto split: prod.split option.split)

lemma call_handlers_invocations:
  "l \<notin> set hs \<Longrightarrow>
   invocations l (trace (snd (call_handlers run hs ev s))) = invocations l (trace s)"
  by (induction hs arbitrary: s) (auto split: prod.split option.split)


lemma mitt_emit_emitted:
  "emitted_count t' (trace (snd (mitt_emit run t ev a s))) =
     emitted_count t' (trace s) + (if t = t' then 1 else 0)"
  by (simp add: mitt_emit_def call_handlers_emitted)

lemma mitt_emit_invocations:
  "l \<notin> set (a t) \<Longrightarrow>
   invocations l (trace (snd (mitt_emit run t ev a s))) = invocations l (trace s)"
  by (simp add: mitt_emit_def call_handlers_invocations)


lemma mitt_emit_counts:
  "mitt_emit run t ev a s = (x, s1) \<Longrightarrow>
   emitted_count t' (trace s1) = emitted_count t' (trace s) + (if t = t' then 1 else 0)"
  using mitt_emit_emitted [of t' run t ev a s] by simp

lemma mitt_emit_keeps_invocations:
  "mitt_emit run t ev a s = (x, s1) \<Longrightarrow> l \<notin> set (a t) \<Longrightarrow>
   invocations l (trace s1) = invocations l (trace s)"
  using mitt_emit_invocations [of l a t run ev s] by simp

lemma routeSync_body_cases:
  assumes "routeSync_body E r q c s = (out, s')"
  obtains
    (before_throws) e where
      "emitBeforeEvent E r q c s = (Some e, s')" "out = Inl e"
  | (chain_throws) s1 e w2 where
      "emitBeforeEvent E r q c s = (None, s1)"
      "routeSync E q c (middleware r) (world s1) = (Inl e, w2)"
      "out = Inl e" "s' = \<lparr>world = w2, trace = trace s1\<rparr>"
  | (after_throws) s1 resp w2 e where
      "emitBeforeEvent E r q c s = (None, s1)"
      "routeSync E q c (middleware r) (world s1) = (Inr resp, w2)"
      "emitAfterEvent E r q resp c \<lparr>world = w2, trace = trace s1\<rparr> = (Some e, s')"
      "out = Inl e"
  | (completes) s1 resp w2 where
      "emitBeforeEvent E r q c s = (None, s1)"
      "routeSync E q c (middleware r) (world s1) = (Inr resp, w2)"
      "emitAfterEvent E r q resp c \<lparr>world = w2, trace = trace s1\<rparr> = (None, s')"
      "out = Inr resp"
  using assms unfolding routeSync_body_def
  by (simp split: prod.splits option.splits sum.splits)

lemma routeSync_body_emitted:
  assumes "routeSync_body E r q c s = (out, s')"
  shows "emitted_count Before (trace s') = emitted_count Before (trace s) + 1 \<and>
         emitted_count Error (trace s') = emitted_count Error (trace s) \<and>
         emitted_count After (trace s') \<le> emitted_count After (trace s) + 1 \<and>
         (\<not> isl out \<longrightarrow>
            emitted_count After (trace s') = emitted_count After (trace s) + 1)"
  using assms
proof (cases rule: routeSync_body_cases)
  case (before_throws e)
  then show ?thesis
    by (simp add: emitBeforeEvent_def mitt_emit_counts)
next
  case (chain_throws s1 e w2)
  then show ?thesis
    by (simp add: emitBeforeEvent_def mitt_emit_counts)
next
  case (after_throws s1 resp w2 e)
  then show ?thesis
    by (simp add: emitBeforeEvent_def emitAfterEvent_def mitt_emit_counts)
next
  case (completes s1 resp w2)
  then show ?thesis
    by (simp add: emitBeforeEvent_def emitAfterEvent_def mitt_emit_counts)
qed

section \<open>Facts about the dispatch loop\<close>

lemma await_eq_iff [simp]:
  "await p = Inl e \<longleftrightarrow> p = Rejected e"
  "await p = Inr v \<longleftrightarrow> p = Resolved v"
  "Inl e = await p \<longleftrightarrow> p = Rejected e"
  "Inr v = await p \<longleftrightarrow> p = Resolved v"
  by (cases p; auto)+

lemma routeAsync_body_cases:
  assumes "routeAsync_body E r q c s = (out, s')"
  obtains
    (before_throws) e where
      "emitBeforeEvent E r q c s = (Some e, s')" "out = Inl e"
  | (chain_throws) s1 e w2 where
      "emitBeforeEvent E r q c s = (None, s1)"
      "routeAsync E q c (middleware r) (world s1) = (Rejected e, w2)"
      "out = Inl e" "s' = \<lparr>world = w2, trace = trace s1\<rparr>"
  | (after_throws) s1 resp w2 e where
      "emitBeforeEvent E r q c s = (None, s1)"
      "routeAsync E q c (middleware r) (world s1) = (Resolved resp, w2)"
      "emitAfterEvent E r q resp c \<lparr>world = w2, trace = trace s1\<rparr> = (Some e, s')"
      "out = Inl e"
  | (completes) s1 resp w2 where
      "emitBeforeEvent E r q c s = (None, s1)"
      "routeAsync E q c (middleware r) (world s1) = (Resolved resp, w2)"
      "emitAfterEvent E r q resp c \<lparr>world = w2, trace = trace s1\<rparr> = (None, s')"
      "out = Inr resp"
  using assms unfolding routeAsync_body_def
  by (simp split: prod.splits option.splits sum.splits)

lemma routeAsync_body_emitted:
  assumes "routeAsync_body E r q c s = (out, s')"
  shows "emitted_count Before (trace s') = emitted_count Before (trace s) + 1 \<and>
         emitted_count Error (trace s') = emitted_count Error (trace s) \<and>
         emitted_count After (trace s') \<le> emitted_count After (trace s) + 1 \<and>
         (\<not> isl out \<longrightarrow>
            emitted_count After (trace s') = emitted_count After (trace s) + 1)"
  using assms
proof (cases rule: routeAsync_body_cases)
  case (before_throws e)
  then show ?thesis
    by (simp add: emitBeforeEvent_def mitt_emit_counts)
next
  case (chain_throws s1 e w2)
  then show ?thesis
    by (simp add: emitBeforeEvent_def mitt_emit_counts)
next
  case (after_throws s1 resp w2 e)
  then show ?thesis
    by (simp add: emitBeforeEvent_def emitAfterEvent_def mitt_emit_counts)
next
  case (completes s1 resp w2)
  then show ?thesis
    by (simp add: emitBeforeEvent_def emitAfterEvent_def mitt_emit_counts)
qed

lemma routeSync_loop_raise:
  "routeSync_body E r q c s = (Inl e, s') \<Longrightarrow>
   routeSync_loop E r opts q c s = Some (Inl e, s')"
  by (subst routeSync_loop.simps) simp

lemma routeSync_loop_no_follow:
  "\<not> truthy (get_prop opts ''redirect'') \<Longrightarrow>
   routeSync_loop E r opts q c s = Some (routeSync_body E r q c s)"
  by (subst routeSync_loop.simps) (simp split: prod.split sum.split)

lemma routeSync_loop_stop:
  "routeSync_body E r q c s = (Inr resp, s') \<Longrightarrow> isRedirect E resp = Inr False \<Longrightarrow>
   routeSync_loop E r opts q c s = Some (Inr resp, s')"
  by (subst routeSync_loop.simps) simp

lemma routeSync_loop_continue:
  "routeSync_body E r q c s = (Inr resp, s') \<Longrightarrow> truthy (get_prop opts ''redirect'') \<Longrightarrow>
   isRedirect E resp = Inr True \<Longrightarrow>
   routeSync_loop E r opts q c s = routeSync_loop E r opts q c s'"
  by (subst routeSync_loop.simps) simp


lemma routeAsync_loop_raise:
  "routeAsync_body E r q c s = (Inl e, s') \<Longrightarrow>
   routeAsync_loop E r opts q c s = Some (Inl e, s')"
  by (subst routeAsync_loop.simps) simp

lemma routeAsync_loop_no_follow:
  "\<not> truthy (get_prop opts ''redirect'') \<Longrightarrow>
   routeAsync_loop E r opts q c s = Some (routeAsync_body E r q c s)"
  by (subst routeAsync_loop.simps) (simp split: prod.split sum.split)

lemma routeAsync_loop_stop:
  "routeAsync_body E r q c s = (Inr resp, s') \<Longrightarrow> isRedirect E resp = Inr False \<Longrightarrow>
   routeAsync_loop E r opts q c s = Some (Inr resp, s')"
  by (subst routeAsync_loop.simps) simp

lemma routeAsync_loop_continue:
  "routeAsync_body E r q c s = (Inr resp, s') \<Longrightarrow> truthy (get_prop opts ''redirect'') \<Longrightarrow>
   isRedirect E resp = Inr True \<Longrightarrow>
   routeAsync_loop E r opts q c s = routeAsync_loop E r opts q c s'"
  by (subst routeAsync_loop.simps) simp


lemma routeSync_loop_invariant:
  assumes loop: "routeSync_loop E r opts q c s = Some (out, s')"
    and init: "I s"
    and step: "\<And>s1 out1 s2. I s1 \<Longrightarrow> routeSync_body E r q c s1 = (out1, s2) \<Longrightarrow> I s2"
  shows "I s'"
proof -
  have "E = E \<and> r = r \<and> q = q \<and> c = c \<longrightarrow> I s \<longrightarrow> I (snd (out, s'))"
    apply (rule routeSync_loop.raw_induct
        [where P = "\<lambda>E' r' opts' q' c' s0 y.
                      E' = E \<and> r' = r \<and> q' = q \<and> c' = c \<longrightarrow> I s0 \<longrightarrow> I (snd y)",
         OF _ loop])
    subgoal premises prems for loop' E' r' opts' q' c' s0 y
    proof (intro impI, elim conjE)
      assume eqs: "E' = E" "r' = r" "q' = q" "c' = c" and I0: "I s0"
      obtain out1 s1 where b: "routeSync_body E r q c s0 = (out1, s1)"
        by (cases "routeSync_body E r q c s0")
      have I1: "I s1"
        using step I0 b by blast
      have "snd y = s1 \<or> loop' E r opts' q c s1 = Some y"
        using prems(2) [unfolded eqs b] by (auto split: sum.splits if_splits)
      then show "I (snd y)"
        using I1 prems(1) [of E r opts' q c s1 y] by auto
    qed
    done
  with init show ?thesis by simp
qed

lemma routeAsync_loop_invariant:
  assumes loop: "routeAsync_loop E r opts q c s = Some (out, s')"
    and init: "I s"
    and step: "\<And>s1 out1 s2. I s1 \<Longrightarrow> routeAsync_body E r q c s1 = (out1, s2) \<Longrightarrow> I s2"
  shows "I s'"
proof -
  have "E = E \<and> r = r \<and> q = q \<and> c = c \<longrightarrow> I s \<longrightarrow> I (snd (out, s'))"
    apply (rule routeAsync_loop.raw_induct
        [where P = "\<lambda>E' r' opts' q' c' s0 y.
                      E' = E \<and> r' = r \<and> q' = q \<and> c' = c \<longrightarrow> I s0 \<longrightarrow> I (snd y)",
         OF _ loop])
    subgoal premises prems for loop' E' r' opts' q' c' s0 y
    proof (intro impI, elim conjE)
      assume eqs: "E' = E" "r' = r" "q' = q" "c' = c" and I0: "I s0"
      obtain out1 s1 where b: "routeAsync_body E r q c s0 = (out1, s1)"
        by (cases "routeAsync_body E r q c s0")
      have I1: "I s1"
        using step I0 b by blast
      have "snd y = s1 \<or> loop' E r opts' q c s1 = Some y"
        using prems(2) [unfolded eqs b] by (auto split: sum.splits if_splits)
      then show "I (snd y)"
        using I1 prems(1) [of E r opts' q c s1 y] by auto
    qed
    done
  with init show ?thesis by simp
qed






text \<open>Both loops of the source are the loop of the spec's state machine.\<close>

lemma dispatch_loop_step:
  "dispatch_loop follow classify pass s = Some y \<longleftrightarrow>
     (case pass s of
        (Inl e, s') \<Rightarrow> y = (Inl e, s')
      | (Inr resp, s') \<Rightarrow>
          if follow
          then (case classify resp of
                  Inl e \<Rightarrow> y = (Inl e, s')
                | Inr redirect \<Rightarrow>
                    if redirect then dispatch_loop follow classify pass s' = Some y
                    else y = (Inr resp, s'))
          else y = (Inr resp, s'))"
  by (subst dispatch_loop.simps) (auto split: prod.splits sum.splits)

lemma routeSync_loop_step:
  "routeSync_loop E r opts q c s = Some y \<longleftrightarrow>
     (case routeSync_body E r q c s of
        (Inl e, s') \<Rightarrow> y = (Inl e, s')
      | (Inr resp, s') \<Rightarrow>
          if truthy (get_prop opts ''redirect'')
          then (case isRedirect E resp of
                  Inl e \<Rightarrow> y = (Inl e, s')
                | Inr redirect \<Rightarrow>
                    if redirect then routeSync_loop E r opts q c s' = Some y
                    else y = (Inr resp, s'))
          else y = (Inr resp, s'))"
  by (subst routeSync_loop.simps) (auto split: prod.splits sum.splits)

lemma routeSync_loop_le_dispatch:
  assumes "routeSync_loop E r opts q c s = Some y"
  shows "dispatch_loop (truthy (get_prop opts ''redirect'')) (isRedirect E)
           (routeSync_body E r q c) s = Some y"
  apply (rule routeSync_loop.raw_induct
      [where P = "\<lambda>E' r' opts' q' c' s0 y.
         dispatch_loop (truthy (get_prop opts' ''redirect'')) (isRedirect E')
           (routeSync_body E' r' q' c') s0 = Some y", OF _ assms])
  subgoal premises prems for loop' E' r' opts' q' c' s0 y
    using prems(2)
      prems(1) [of E' r' opts' q' c' "snd (routeSync_body E' r' q' c' s0)" y]
    by (subst dispatch_loop_step) (auto split: prod.splits sum.splits if_splits)
  done

lemma dispatch_le_routeSync_loop:
  assumes "dispatch_loop follow classify pass s = Some y"
  shows "follow = truthy (get_prop opts ''redirect'') \<longrightarrow> classify = isRedirect E \<longrightarrow>
         pass = routeSync_body E r q c \<longrightarrow> routeSync_loop E r opts q c s = Some y"
  apply (rule dispatch_loop.raw_induct
      [where P = "\<lambda>follow classify pass s0 y.
         follow = truthy (get_prop opts ''redirect'') \<longrightarrow> classify = isRedirect E \<longrightarrow>
         pass = routeSync_body E r q c \<longrightarrow> routeSync_loop E r opts q c s0 = Some y",
       OF _ assms])
  subgoal premises prems for loop' follow' classify' pass' s0 y
    using prems(2) prems(1)
    by (cases y, subst routeSync_loop_step) (auto split: prod.splits sum.splits if_splits)
  done

lemma routeSync_loop_is_dispatch_loop:
  "routeSync_loop E r opts q c s =
     dispatch_loop (truthy (get_prop opts ''redirect'')) (isRedirect E)
       (routeSync_body E r q c) s"
proof (cases "routeSync_loop E r opts q c s")
  case None
  show ?thesis
  proof (cases "dispatch_loop (truthy (get_prop opts ''redirect'')) (isRedirect E)
       (routeSync_body E r q c) s")
    case None
    with \<open>routeSync_loop E r opts q c s = None\<close> show ?thesis by simp
  next
    case (Some y)
    from dispatch_le_routeSync_loop [OF Some, of opts E r q c]
    show ?thesis using Some by simp
  qed
next
  case (Some y)
  from routeSync_loop_le_dispatch [OF Some] Some show ?thesis by simp
qed

lemma routeAsync_loop_step:
  "routeAsync_loop E r opts q c s = Some y \<longleftrightarrow>
     (case routeAsync_body E r q c s of
        (Inl e, s') \<Rightarrow> y = (Inl e, s')
      | (Inr resp, s') \<Rightarrow>
          if truthy (get_prop opts ''redirect'')
          then (case isRedirect E resp of
                  Inl e \<Rightarrow> y = (Inl e, s')
                | Inr redirect \<Rightarrow>
                    if redirect then routeAsync_loop E r opts q c s' = Some y
                    else y = (Inr resp, s'))
          else y = (Inr resp, s'))"
  by (subst routeAsync_loop.simps) (auto split: prod.splits sum.splits)

lemma routeAsync_loop_le_dispatch:
  assumes "routeAsync_loop E r opts q c s = Some y"
  shows "dispatch_loop (truthy (get_prop opts ''redirect'')) (isRedirect E)
           (routeAsync_body E r q c) s = Some y"
  apply (rule routeAsync_loop.raw_induct
      [where P = "\<lambda>E' r' opts' q' c' s0 y.
         dispatch_loop (truthy (get_prop opts' ''redirect'')) (isRedirect E')
           (routeAsync_body E' r' q' c') s0 = Some y", OF _ assms])
  subgoal premises prems for loop' E' r' opts' q' c' s0 y
    using prems(2)
      prems(1) [of E' r' opts' q' c' "snd (routeAsync_body E' r' q' c' s0)" y]
    by (subst dispatch_loop_step) (auto split: prod.splits sum.splits if_splits)
  done

lemma dispatch_le_routeAsync_loop:
  assumes "dispatch_loop follow classify pass s = Some y"
  shows "follow = truthy (get_prop opts ''redirect'') \<longrightarrow> classify = isRedirect E \<longrightarrow>
         pass = routeAsync_body E r q c \<longrightarrow> routeAsync_loop E r opts q c s = Some y"
  apply (rule dispatch_loop.raw_induct
      [where P = "\<lambda>follow classify pass s0 y.
         follow = truthy (get_prop opts ''redirect'') \<longrightarrow> classify = isRedirect E \<longrightarrow>
         pass = routeAsync_body E r q c \<longrightarrow> routeAsync_loop E r opts q c s0 = Some y",
       OF _ assms])
  subgoal premises prems for loop' follow' classify' pass' s0 y
    using prems(2) prems(1)
    by (cases y, subst routeAsync_loop_step) (auto split: prod.splits sum.splits if_splits)
  done

lemma routeAsync_loop_is_dispatch_loop:
  "routeAsync_loop E r opts q c s =
     dispatch_loop (truthy (get_prop opts ''redirect'')) (isRedirect E)
       (routeAsync_body E r q c) s"
proof (cases "routeAsync_loop E r opts q c s")
  case None
  show ?thesis
  proof (cases "dispatch_loop (truthy (get_prop opts ''redirect'')) (isRedirect E)
       (routeAsync_body E r q c) s")
    case None
    with \<open>routeAsync_loop E r opts q c s = None\<close> show ?thesis by simp
  next
    case (Some y)
    from dispatch_le_routeAsync_loop [OF Some, of opts E r q c]
    show ?thesis using Some by simp
  qed
next
  case (Some y)
  from routeAsync_loop_le_dispatch [OF Some] Some show ?thesis by simp
qed

lemma routeSync_body_is_dispatch_pass:
  "routeSync_body E r q c = dispatch_pass (routeSync E) E r q c"
  by (rule ext) (simp add: routeSync_body_def dispatch_pass_def)

lemma routeAsync_body_is_dispatch_pass:
  "routeAsync_body E r q c = dispatch_pass (awaited (routeAsync E)) E r q c"
  by (rule ext)
    (simp add: routeAsync_body_def dispatch_pass_def awaited_def
      split: prod.splits option.splits sum.splits)

lemma Router_routeSync_is_dispatch:
  "Router_routeSync E request options r s =
     dispatch Synchronous (routeSync E) E request options r s"
  unfolding Router_routeSync_def dispatch_def routeSync_loop_is_dispatch_loop
    routeSync_body_is_dispatch_pass ..

lemma Router_routeAsync_is_dispatch:
  "Router_routeAsync E request options r s =
     map_option settled_call
       (dispatch Asynchronous (awaited (routeAsync E)) E request options r s)"
  unfolding Router_routeAsync_def dispatch_def routeAsync_loop_is_dispatch_loop
    routeAsync_body_is_dispatch_pass
  by (simp split: sum.splits option.splits prod.splits)

lemma dispatch_loop_simulation:
  assumes run: "dispatch_loop f cl p1 s = Some (out, s')"
    and rel: "R s t"
    and pass: "\<And>s t. R s t \<Longrightarrow> fst (p1 s) = fst (p2 t) \<and> R (snd (p1 s)) (snd (p2 t))"
  shows "\<exists>t'. dispatch_loop f cl p2 t = Some (out, t') \<and> R s' t'"
proof -
  have "f = f \<and> cl = cl \<and> p1 = p1 \<longrightarrow>
        (\<forall>t. R s t \<longrightarrow> (\<exists>t'. dispatch_loop f cl p2 t = Some (fst (out, s'), t') \<and>
           R (snd (out, s')) t'))"
    apply (rule dispatch_loop.raw_induct
        [where P = "\<lambda>f' cl' p' s0 y. f' = f \<and> cl' = cl \<and> p' = p1 \<longrightarrow>
           (\<forall>t. R s0 t \<longrightarrow> (\<exists>t'. dispatch_loop f cl p2 t = Some (fst y, t') \<and> R (snd y) t'))",
         OF _ run])
    subgoal premises prems for loop' f' cl' p' s0 y
    proof (intro impI allI, elim conjE)
      fix t
      assume eqs: "f' = f" "cl' = cl" "p' = p1" and r0: "R s0 t"
      obtain o1 s1 where b1: "p1 s0 = (o1, s1)" by (cases "p1 s0")
      obtain o2 t1 where b2: "p2 t = (o2, t1)" by (cases "p2 t")
      from pass [OF r0] b1 b2 have o: "o2 = o1" and r1: "R s1 t1" by simp_all
      note IH = prems(1) [of f cl p1 s1 y, THEN mp, OF _ conjI, OF _ refl conjI,
          OF _ refl refl, THEN spec, THEN mp, OF _ r1]
      show "\<exists>t'. dispatch_loop f cl p2 t = Some (fst y, t') \<and> R (snd y) t'"
        using prems(2) [unfolded eqs b1] IH r1
        by (subst dispatch_loop_step) (auto simp add: b2 o split: sum.splits if_splits)
    qed
    done
  with rel show ?thesis by simp
qed




lemma routeSync_loop_no_error_events:
  assumes "routeSync_loop E r opts q c s = Some (out, s')"
  shows "emitted_count Error (trace s') = emitted_count Error (trace s)"
  by (rule routeSync_loop_invariant
      [OF assms, where I = "\<lambda>x. emitted_count Error (trace x) = emitted_count Error (trace s)"])
    (simp_all add: routeSync_body_emitted)

lemma routeAsync_loop_no_error_events:
  assumes "routeAsync_loop E r opts q c s = Some (out, s')"
  shows "emitted_count Error (trace s') = emitted_count Error (trace s)"
  by (rule routeAsync_loop_invariant
      [OF assms, where I = "\<lambda>x. emitted_count Error (trace x) = emitted_count Error (trace s)"])
    (simp_all add: routeAsync_body_emitted)


lemma Router_routeSync_raises:
  assumes "normaliseRequest E request = Inr q" "normaliseContext E Synchronous = Inr c"
    and "routeSync_loop E r (default_options options) q c s = Some (Inl e, s1)"
    and "emitErrorEvent E r q e c s1 = (x, s2)"
  shows "Router_routeSync E request options r s =
           Some (Inl (case x of None \<Rightarrow> e | Some e' \<Rightarrow> e'), r, s2)"
  using assms by (simp add: Router_routeSync_def split: option.splits)

lemma Router_routeAsync_rejects:
  assumes "normaliseRequest E request = Inr q" "normaliseContext E Asynchronous = Inr c"
    and "routeAsync_loop E r (default_options options) q c s = Some (Inl e, s1)"
    and "emitErrorEvent E r q e c s1 = (x, s2)"
  shows "Router_routeAsync E request options r s =
           Some (Rejected (case x of None \<Rightarrow> e | Some e' \<Rightarrow> e'), r, s2)"
  using assms by (simp add: Router_routeAsync_def split: option.splits)

section \<open>Simulation between the two instances of the machine\<close>

lemma same_but_context_refl [simp]: "same_but_context s s"
  by (simp add: same_but_context_def same_events_def)

lemma same_but_context_sym: "same_but_context s t \<Longrightarrow> same_but_context t s"
  by (simp add: same_but_context_def same_events_def)

lemma call_handlers_simulation:
  assumes "\<And>l w. run l ev' w = run l ev w"
    and "with_context [] ev' = with_context [] ev"
  shows "same_but_context s t \<Longrightarrow>
         fst (call_handlers run hs ev s) = fst (call_handlers run hs ev' t) \<and>
         same_but_context (snd (call_handlers run hs ev s)) (snd (call_handlers run hs ev' t))"
proof (induction hs arbitrary: s t)
  case Nil
  then show ?case by simp
next
  case (Cons h hs)
  obtain x w' where run: "run h ev (world s) = (x, w')"
    by (cases "run h ev (world s)")
  from Cons.prems have w: "world t = world s"
    by (simp add: same_but_context_def)
  have next_rel: "same_but_context \<lparr>world = w', trace = trace s @ [Invoked h ev]\<rparr>
                    \<lparr>world = w', trace = trace t @ [Invoked h ev']\<rparr>"
    using Cons.prems assms(2) by (simp add: same_but_context_def same_events_def)
  show ?case
  proof (cases x)
    case None
    with run w assms(1) Cons.IH [OF next_rel] show ?thesis by simp
  next
    case (Some e)
    with run w assms(1) next_rel show ?thesis by simp
  qed
qed

lemma mitt_emit_simulation:
  assumes "\<And>l w. run l ev' w = run l ev w"
    and "with_context [] ev' = with_context [] ev"
    and "same_but_context s t"
  shows "fst (mitt_emit run k ev a s) = fst (mitt_emit run k ev' a t) \<and>
         same_but_context (snd (mitt_emit run k ev a s)) (snd (mitt_emit run k ev' a t))"
  unfolding mitt_emit_def
  using assms(2,3)
  by (intro call_handlers_simulation [OF assms(1,2)])
    (simp add: same_but_context_def same_events_def)

lemma dispatch_pass_simulation:
  assumes chain: "\<And>w. chainA q cA (middleware r) w = chainS q cS (middleware r) w"
    and listeners: "\<And>l ev w. listener E l (with_context cA ev) w =
                       listener E l (with_context cS ev) w"
    and rel: "same_but_context s t"
  shows "fst (dispatch_pass chainS E r q cS s) = fst (dispatch_pass chainA E r q cA t) \<and>
         same_but_context (snd (dispatch_pass chainS E r q cS s))
           (snd (dispatch_pass chainA E r q cA t))"
proof -
  let ?bS = "emitBeforeEvent E r q cS s" and ?bA = "emitBeforeEvent E r q cA t"
  have before: "fst ?bS = fst ?bA \<and> same_but_context (snd ?bS) (snd ?bA)"
    unfolding emitBeforeEvent_def
    using listeners [of _ "BeforeEvent q []"] rel
    by (intro mitt_emit_simulation) simp_all
  obtain x s1 where bS: "?bS = (x, s1)" by (cases ?bS)
  obtain x' t1 where bA: "?bA = (x', t1)" by (cases ?bA)
  from before bS bA have x: "x' = x" and r1: "same_but_context s1 t1" by simp_all
  show ?thesis
  proof (cases x)
    case (Some e)
    with bS bA x r1 show ?thesis by (simp add: dispatch_pass_def)
  next
    case None
    from r1 have w1: "world t1 = world s1" by (simp add: same_but_context_def)
    obtain o1 w2 where c: "chainS q cS (middleware r) (world s1) = (o1, w2)"
      by (cases "chainS q cS (middleware r) (world s1)")
    have r2: "same_but_context \<lparr>world = w2, trace = trace s1\<rparr> \<lparr>world = w2, trace = trace t1\<rparr>"
      using r1 by (simp add: same_but_context_def)
    show ?thesis
    proof (cases o1)
      case (Inl e)
      with None bS bA x c w1 chain r2 show ?thesis by (simp add: dispatch_pass_def)
    next
      case (Inr resp)
      let ?aS = "emitAfterEvent E r q resp cS \<lparr>world = w2, trace = trace s1\<rparr>"
      let ?aA = "emitAfterEvent E r q resp cA \<lparr>world = w2, trace = trace t1\<rparr>"
      have after: "fst ?aS = fst ?aA \<and> same_but_context (snd ?aS) (snd ?aA)"
        unfolding emitAfterEvent_def
        using listeners [of _ "AfterEvent q resp []"] r2
        by (intro mitt_emit_simulation) simp_all
      obtain y s3 where aS: "?aS = (y, s3)" by (cases ?aS)
      obtain y' t3 where aA: "?aA = (y', t3)" by (cases ?aA)
      from after aS aA have "y' = y" "same_but_context s3 t3" by simp_all
      with None Inr bS bA x c w1 chain aS aA show ?thesis
        by (cases y) (simp_all add: dispatch_pass_def)
    qed
  qed
qed

lemma emitErrorEvent_simulation:
  assumes listeners: "\<And>l ev w. listener E l (with_context cA ev) w =
                       listener E l (with_context cS ev) w"
    and rel: "same_but_context s t"
  shows "fst (emitErrorEvent E r q e cS s) = fst (emitErrorEvent E r q e cA t) \<and>
         same_but_context (snd (emitErrorEvent E r q e cS s))
           (snd (emitErrorEvent E r q e cA t))"
  unfolding emitErrorEvent_def
  using listeners [of _ "ErrorEvent q e []"] rel
  by (intro mitt_emit_simulation) simp_all

lemma dispatch_simulation:
  assumes ctx: "\<And>e. normaliseContext E Synchronous = Inl e \<longleftrightarrow>
                     normaliseContext E Asynchronous = Inl e"
    and chain: "\<And>cS cA q ms w. normaliseContext E Synchronous = Inr cS \<Longrightarrow>
                  normaliseContext E Asynchronous = Inr cA \<Longrightarrow>
                  chainA q cA ms w = chainS q cS ms w"
    and listeners: "\<And>cS cA l ev w. normaliseContext E Synchronous = Inr cS \<Longrightarrow>
                  normaliseContext E Asynchronous = Inr cA \<Longrightarrow>
                  listener E l (with_context cA ev) w = listener E l (with_context cS ev) w"
  shows "(dispatch Synchronous chainS E request options r s = None \<longleftrightarrow>
          dispatch Asynchronous chainA E request options r s = None) \<and>
         (\<forall>out r' s'. dispatch Synchronous chainS E request options r s = Some (out, r', s') \<longrightarrow>
            (\<exists>t'. dispatch Asynchronous chainA E request options r s = Some (out, r', t') \<and>
                  same_but_context s' t'))"
proof (cases "normaliseRequest E request")
  case (Inl e)
  then show ?thesis by (simp add: dispatch_def)
next
  case (Inr q)
  show ?thesis
  proof (cases "normaliseContext E Synchronous")
    case (Inl e)
    with ctx [of e] Inr show ?thesis by (simp add: dispatch_def)
  next
    case cS: (Inr cS)
    obtain cA where cA: "normaliseContext E Asynchronous = Inr cA"
      using ctx cS by (cases "normaliseContext E Asynchronous") auto
    let ?f = "truthy (get_prop (default_options options) ''redirect'')"
    let ?pS = "dispatch_pass chainS E r q cS" and ?pA = "dispatch_pass chainA E r q cA"
    let ?LS = "dispatch_loop ?f (isRedirect E) ?pS s"
    let ?LA = "dispatch_loop ?f (isRedirect E) ?pA s"
    note ls = listeners [OF cS cA]
    have pass: "fst (?pS a) = fst (?pA b) \<and> same_but_context (snd (?pS a)) (snd (?pA b))"
      if "same_but_context a b" for a b
      by (rule dispatch_pass_simulation
          [where chainA = chainA and chainS = chainS and q = q and cA = cA and cS = cS
             and E = E and r = r])
        (simp_all add: chain [OF cS cA] ls that)
    have pass': "fst (?pA b) = fst (?pS a) \<and>
        (\<lambda>x y. same_but_context y x) (snd (?pA b)) (snd (?pS a))"
      if "(\<lambda>x y. same_but_context y x) b a" for a b
      using pass [OF that] by simp
    have forward: "\<exists>t1. ?LA = Some (out, t1) \<and> same_but_context s1 t1"
      if "?LS = Some (out, s1)" for out s1
      by (rule dispatch_loop_simulation [OF that, where R = same_but_context])
        (simp_all add: pass)
    have backward: "\<exists>s1. ?LS = Some (out, s1) \<and> same_but_context s1 t1"
      if "?LA = Some (out, t1)" for out t1
      by (rule dispatch_loop_simulation
          [OF that, where R = "\<lambda>x y. same_but_context y x" and ?p2.0 = ?pS])
        (simp_all add: pass')
    show ?thesis
    proof (cases ?LS)
      case None
      with backward have "?LA = None" by (cases ?LA) auto
      with None Inr cS cA show ?thesis by (simp add: dispatch_def)
    next
      case (Some y)
      obtain out s1 where y: "y = (out, s1)" by (cases y)
      from forward Some y obtain t1 where LA: "?LA = Some (out, t1)"
        and r1: "same_but_context s1 t1" by blast
      show ?thesis
      proof (cases out)
        case (Inr resp)
        with Some y LA r1 \<open>normaliseRequest E request = Inr q\<close> cS cA show ?thesis
          by (simp add: dispatch_def)
      next
        case (Inl e)
        obtain x s2 where eS: "emitErrorEvent E r q e cS s1 = (x, s2)"
          by (cases "emitErrorEvent E r q e cS s1")
        obtain x' t2 where eA: "emitErrorEvent E r q e cA t1 = (x', t2)"
          by (cases "emitErrorEvent E r q e cA t1")
        from emitErrorEvent_simulation [OF ls r1, of r q e] eS eA
        have "x' = x" "same_but_context s2 t2" by simp_all
        with Inl Some y LA \<open>normaliseRequest E request = Inr q\<close> cS cA eS eA show ?thesis
          by (cases x) (simp_all add: dispatch_def)
      qed
    qed
  qed
qed

section \<open>Facts about the entry points and the examples\<close>

lemma Router_routeSync_returns:
  assumes "normaliseRequest E request = Inr q" "normaliseContext E Synchronous = Inr c"
    and "routeSync_loop E r (default_options options) q c s = Some (Inr resp, s1)"
  shows "Router_routeSync E request options r s = Some (Inr (route_result q resp), r, s1)"
  using assms by (simp add: Router_routeSync_def)

lemma Router_routeAsync_resolves:
  assumes "normaliseRequest E request = Inr q" "normaliseContext E Asynchronous = Inr c"
    and "routeAsync_loop E r (default_options options) q c s = Some (Inr resp, s1)"
  shows "Router_routeAsync E request options r s =
           Some (Resolved (route_result q resp), r, s1)"
  using assms by (simp add: Router_routeAsync_def)

lemmas example_defs =
  example_collaborators_def example_chain_def example_listener_def example_router_def
  example_state_def
  Router_new_def Router_get_def Router_use_def Router_on_def Router_off_def
  mitt_def mitt_on_def mitt_off_def mitt_emit_def
  emitBeforeEvent_def emitAfterEvent_def emitErrorEvent_def
  routeSync_body_def routeAsync_body_def get_prop_def has_prop_def

lemma example_sync_pass:
  "routeSync_body example_collaborators example_router
      [(''url'', JString ''/x''), (''want'', JNumber 200)] [(''execution'', JBool True)]
      example_state =
     (Inr [(''status'', JNumber 200)],
      \<lparr>world = 1, trace =
         [Emitted Before (BeforeEvent [(''url'', JString ''/x''), (''want'', JNumber 200)]
            [(''execution'', JBool True)]),
          Emitted After (AfterEvent [(''url'', JString ''/x''), (''want'', JNumber 200)]
            [(''status'', JNumber 200)] [(''execution'', JBool True)])]\<rparr>)"
  by (simp add: example_defs)

lemma example_async_pass:
  "routeAsync_body example_collaborators example_router
      [(''url'', JString ''/x''), (''want'', JNumber 200)] [(''execution'', JBool False)]
      example_state =
     (Inr [(''status'', JNumber 200)],
      \<lparr>world = 1, trace =
         [Emitted Before (BeforeEvent [(''url'', JString ''/x''), (''want'', JNumber 200)]
            [(''execution'', JBool False)]),
          Emitted After (AfterEvent [(''url'', JString ''/x''), (''want'', JNumber 200)]
            [(''status'', JNumber 200)] [(''execution'', JBool False)])]\<rparr>)"
  by (simp add: example_defs)



lemma example_found_pass:
  "routeSync_body example_collaborators example_router
      [(''url'', JString ''/x''), (''want'', JNumber 302)] [(''execution'', JBool True)]
      example_state =
     (Inr [(''status'', JNumber 302)],
      \<lparr>world = 1, trace =
         [Emitted Before (BeforeEvent [(''url'', JString ''/x''), (''want'', JNumber 302)]
            [(''execution'', JBool True)]),
          Emitted After (AfterEvent [(''url'', JString ''/x''), (''want'', JNumber 302)]
            [(''status'', JNumber 302)] [(''execution'', JBool True)])]\<rparr>)"
  by (simp add: example_defs)

lemma example_found_async_pass:
  "routeAsync_body example_collaborators example_router
      [(''url'', JString ''/x''), (''want'', JNumber 302)] [(''execution'', JBool False)]
      example_state =
     (Inr [(''status'', JNumber 302)],
      \<lparr>world = 1, trace =
         [Emitted Before (BeforeEvent [(''url'', JString ''/x''), (''want'', JNumber 302)]
            [(''execution'', JBool False)]),
          Emitted After (AfterEvent [(''url'', JString ''/x''), (''want'', JNumber 302)]
            [(''status'', JNumber 302)] [(''execution'', JBool False)])]\<rparr>)"
  by (simp add: example_defs)

lemma example_collaborators_simps:
  "normaliseRequest example_collaborators ((''url'', v) # q) = Inr ((''url'', v) # q)"
  "normaliseContext example_collaborators Synchronous = Inr [(''execution'', JBool True)]"
  "normaliseContext example_collaborators Asynchronous = Inr [(''execution'', JBool False)]"
  "isRedirect example_collaborators [(''status'', JNumber 302)] = Inr True"
  "isRedirect example_collaborators [(''status'', JNumber 200)] = Inr False"
  by (simp_all add: example_collaborators_def has_prop_def get_prop_def)

lemma get_prop_absent:
  "\<not> has_prop ob k \<Longrightarrow> get_prop ob k = JUndefined"
  by (simp add: has_prop_def get_prop_def map_of_eq_None_iff [THEN iffD2])








lemma example_collaborators_agree:
  "(\<forall>e. normaliseContext example_collaborators Synchronous = Inl e \<longleftrightarrow>
          normaliseContext example_collaborators Asynchronous = Inl e) \<and>
    (\<forall>cS cA. normaliseContext example_collaborators Synchronous = Inr cS \<and>
             normaliseContext example_collaborators Asynchronous = Inr cA \<longrightarrow>
       (\<forall>q ms w. awaited (routeAsync example_collaborators) q cA ms w =
                  routeSync example_collaborators q cS ms w) \<and>
       (\<forall>l ev w. listener example_collaborators l (with_context cA ev) w =
                  listener example_collaborators l (with_context cS ev) w))"
proof -
  have chain: "awaited (\<lambda>q c ms w. example_promise (example_chain q c ms w)) q cA ms w =
      example_chain q cS ms w" for q cA cS ms w
    by (cases "example_chain q cA ms w" rule: example_promise.cases)
      (simp_all add: awaited_def example_chain_def)
  have listeners: "example_listener l (with_context cA ev) w =
      example_listener l (with_context cS ev) w" for l cA cS ev w
    by (cases ev) (simp_all add: example_listener_def)
  show ?thesis
    by (simp add: example_collaborators_def chain listeners)
qed

lemmas tag_sensitive_defs =
  tag_sensitive_collaborators_def tag_sensitive_listener_def example_defs Let_def

lemma tag_sensitive_simps:
  "normaliseRequest tag_sensitive_collaborators ((''url'', v) # q) = Inr ((''url'', v) # q)"
  "normaliseContext tag_sensitive_collaborators Synchronous = Inr [(''execution'', JBool True)]"
  "normaliseContext tag_sensitive_collaborators Asynchronous =
     Inr [(''execution'', JBool False)]"
  "isRedirect tag_sensitive_collaborators [(''status'', JNumber 200)] = Inr False"
  by (simp_all add: tag_sensitive_collaborators_def example_collaborators_simps)

lemma tag_sensitive_sync_pass:
  "routeSync_body tag_sensitive_collaborators (Router_on Before (UserListener 3) example_router)
      [(''url'', JString ''/x''), (''want'', JNumber 200)] [(''execution'', JBool True)] example_state =
     (Inr [(''status'', JNumber 200)],
      \<lparr>world = 1, trace =
              [Emitted Before (BeforeEvent [(''url'', JString ''/x''), (''want'', JNumber 200)]
                 [(''execution'', JBool True)]),
               Invoked (UserListener 3)
                 (BeforeEvent [(''url'', JString ''/x''), (''want'', JNumber 200)]
                    [(''execution'', JBool True)]),
               Emitted After (AfterEvent [(''url'', JString ''/x''), (''want'', JNumber 200)]
                 [(''status'', JNumber 200)] [(''execution'', JBool True)])]\<rparr>)"
  by (simp add: tag_sensitive_defs)

lemma tag_sensitive_async_pass:
  "routeAsync_body tag_sensitive_collaborators (Router_on Before (UserListener 3) example_router)
      [(''url'', JString ''/x''), (''want'', JNumber 200)] [(''execution'', JBool False)] example_state =
     (Inl (Thrown ''async only''),
      \<lparr>world = 0, trace =
              [Emitted Before (BeforeEvent [(''url'', JString ''/x''), (''want'', JNumber 200)]
                 [(''execution'', JBool False)]),
               Invoked (UserListener 3)
                 (BeforeEvent [(''url'', JString ''/x''), (''want'', JNumber 200)]
                    [(''execution'', JBool False)])]\<rparr>)"
  by (simp add: tag_sensitive_defs)

lemma tag_sensitive_error:
  "emitErrorEvent tag_sensitive_collaborators (Router_on Before (UserListener 3) example_router)
      [(''url'', JString ''/x''), (''want'', JNumber 200)] (Thrown ''async only'') [(''execution'', JBool False)]
      \<lparr>world = 0, trace =
              [Emitted Before (BeforeEvent [(''url'', JString ''/x''), (''want'', JNumber 200)]
                 [(''execution'', JBool False)]),
               Invoked (UserListener 3)
                 (BeforeEvent [(''url'', JString ''/x''), (''want'', JNumber 200)]
                    [(''execution'', JBool False)])]\<rparr> =
     (None,
      \<lparr>world = 0, trace =
              [Emitted Before (BeforeEvent [(''url'', JString ''/x''), (''want'', JNumber 200)]
                 [(''execution'', JBool False)]),
               Invoked (UserListener 3)
                 (BeforeEvent [(''url'', JString ''/x''), (''want'', JNumber 200)]
                    [(''execution'', JBool False)]),
               Emitted Error (ErrorEvent [(''url'', JString ''/x''), (''want'', JNumber 200)]
                 (Thrown ''async only'') [(''execution'', JBool False)]),
               Invoked DefaultErrorListener
                 (ErrorEvent [(''url'', JString ''/x''), (''want'', JNumber 200)]
                    (Thrown ''async only'') [(''execution'', JBool False)])]\<rparr>)"
  by (simp add: tag_sensitive_defs)

section \<open>The first pass at the entry points\<close>










section \<open>Facts about scripts of calls\<close>

lemma Router_use_appends:
  "fst (Router_use E m p h r) = None \<Longrightarrow>
   snd (Router_use E m p h r) = r\<lparr>middleware := middleware r @ registered E (Use m p h)\<rparr>"
  by (cases m) (auto simp add: Router_use_def split: if_splits)

lemma Router_use_fails:
  "fst (Router_use E m p h r) \<noteq> None \<Longrightarrow> snd (Router_use E m p h r) = r"
  by (cases m) (auto simp add: Router_use_def split: if_splits)

lemma Router_use_string_appends:
  "fst (Router_use E (JString v) p h r) = None \<Longrightarrow>
   snd (Router_use E (JString v) p h r) =
     r\<lparr>middleware := middleware r @ [createMiddleware E (JString v) p h]\<rparr>"
  by (simp add: Router_use_def split: if_splits)

lemma verb_wrapper_defs:
  "Router_all E p h r = Router_use E (JString ''*'') p h r"
  "Router_options E p h r = Router_use E (JString ''options'') p h r"
  "Router_head E p h r = Router_use E (JString ''head'') p h r"
  "Router_get E p h r = Router_use E (JString ''get'') p h r"
  "Router_post E p h r = Router_use E (JString ''post'') p h r"
  "Router_put E p h r = Router_use E (JString ''put'') p h r"
  "Router_patch E p h r = Router_use E (JString ''patch'') p h r"
  "Router_delete E p h r = Router_use E (JString ''delete'') p h r"
  by (simp_all add: Router_all_def Router_options_def Router_head_def Router_get_def
        Router_post_def Router_put_def Router_patch_def Router_delete_def
      split: prod.split option.split)

lemma apply_call_registers:
  assumes "is_registration c" "fst (apply_call E c r) = None"
  shows "snd (apply_call E c r) = r\<lparr>middleware := middleware r @ registered E c\<rparr>"
    and "length (registered E c) = 1"
proof -
  show "snd (apply_call E c r) = r\<lparr>middleware := middleware r @ registered E c\<rparr>"
    using assms
    by (cases c) (simp_all add: verb_wrapper_defs Router_use_appends Router_use_string_appends)
  show "length (registered E c) = 1"
    using assms(1) by (cases "(E, c)" rule: registered.cases) simp_all
qed

lemma apply_call_fails:
  "fst (apply_call E c r) \<noteq> None \<Longrightarrow> snd (apply_call E c r) = r"
  by (cases c) (simp_all add: verb_wrapper_defs Router_use_fails)

lemma apply_call_middleware_grows:
  "\<exists>ms. middleware (snd (apply_call E c r)) = middleware r @ ms"
proof (cases "fst (apply_call E c r) = None")
  case False
  then show ?thesis by (simp add: apply_call_fails)
next
  case True
  show ?thesis
  proof (cases "is_registration c")
    case True
    with \<open>fst (apply_call E c r) = None\<close> show ?thesis
      by (simp add: apply_call_registers(1))
  next
    case False
    then show ?thesis
      by (cases c) (simp_all add: Router_on_def Router_off_def Let_def)
  qed
qed

lemma run_calls_registers:
  "\<forall>c\<in>set cs. is_registration c \<Longrightarrow> \<forall>x\<in>set (fst (run_calls E cs r)). x = None \<Longrightarrow>
   snd (run_calls E cs r) =
     r\<lparr>middleware := middleware r @ concat (map (registered E) cs)\<rparr>"
proof (induction cs arbitrary: r)
  case Nil
  then show ?case by simp
next
  case (Cons c cs)
  obtain x r1 where a: "apply_call E c r = (x, r1)" by (cases "apply_call E c r")
  obtain xs r2 where b: "run_calls E cs r1 = (xs, r2)" by (cases "run_calls E cs r1")
  from Cons.prems a b have ok: "x = None" "\<forall>y\<in>set xs. y = None" by simp_all
  from Cons.prems(1) have reg: "is_registration c" "\<forall>c\<in>set cs. is_registration c"
    by simp_all
  from apply_call_registers(1) [OF reg(1), of E r] a ok(1)
  have r1: "r1 = r\<lparr>middleware := middleware r @ registered E c\<rparr>" by simp
  from Cons.IH [OF reg(2), of r1] b ok(2)
  have "r2 = r1\<lparr>middleware := middleware r1 @ concat (map (registered E) cs)\<rparr>" by simp
  with r1 a b show ?case by simp
qed

lemma run_calls_middleware_grows:
  "\<exists>ms. middleware (snd (run_calls E cs r)) = middleware r @ ms"
proof (induction cs arbitrary: r)
  case Nil
  then show ?case by simp
next
  case (Cons c cs)
  obtain x r1 where a: "apply_call E c r = (x, r1)" by (cases "apply_call E c r")
  obtain xs r2 where b: "run_calls E cs r1 = (xs, r2)" by (cases "run_calls E cs r1")
  from apply_call_middleware_grows [of E c r] a
  obtain ms1 where "middleware r1 = middleware r @ ms1" by auto
  moreover from Cons.IH [of r1] b
  obtain ms2 where "middleware r2 = middleware r1 @ ms2" by auto
  ultimately show ?case using a b by simp
qed

lemma dispatch_keeps_router:
  "Router_routeSync E request options r s = Some (out, r', s') \<Longrightarrow> r' = r"
  "Router_routeAsync E request options r s = Some (p, r', s') \<Longrightarrow> r' = r"
  by (auto simp add: Router_routeSync_def Router_routeAsync_def
      split: sum.splits option.splits prod.splits)

section \<open>Registration\<close>

lemma Router_use_function:
  "Router_use E (JFunction f) p h r = (None, r\<lparr>middleware := middleware r @ [f]\<rparr>)"
  by (simp add: Router_use_def)

lemma Router_use_triple:
  "\<not> is_function m \<Longrightarrow> truthy p \<Longrightarrow> truthy h \<Longrightarrow>
   Router_use E m p h r =
     (None, r\<lparr>middleware := middleware r @ [createMiddleware E m p h]\<rparr>)"
  by (cases m) (simp_all add: Router_use_def)

lemma Router_use_invalid:
  "\<not> is_function m \<Longrightarrow> \<not> (truthy p \<and> truthy h) \<Longrightarrow>
   Router_use E m p h r = (Some (TypeError ''Invalid arguments.''), r)"
  by (cases m) (auto simp add: Router_use_def)

text \<open>
  C4, as the code has it. \<open>use\<close> looks at the type of its first argument only: a function
  is appended as it is, whatever follows it. A first argument that is not a function is
  registered through \<open>createMiddleware\<close> when the path and the handler are both truthy;
  otherwise \<open>use\<close> throws the \<open>TypeError\<close> and the router is as before. \<open>use\<close> has no
  access to the emitter, so nothing is emitted in any case.
\<close>

theorem use_argument_shapes:
  "Router_use E (JFunction f) p h r = (None, r\<lparr>middleware := middleware r @ [f]\<rparr>) \<and>
   (\<not> is_function m \<and> truthy p \<and> truthy h \<longrightarrow>
      Router_use E m p h r =
        (None, r\<lparr>middleware := middleware r @ [createMiddleware E m p h]\<rparr>)) \<and>
   (\<not> is_function m \<and> \<not> (truthy p \<and> truthy h) \<longrightarrow>
      Router_use E m p h r = (Some (TypeError ''Invalid arguments.''), r))"
  using Router_use_function Router_use_triple Router_use_invalid by blast

theorem use_argument_shapes_witness:
  "Router_use example_collaborators (JString ''get'') (JString ''/x'') (JObject []) Router_new =
     (None, Router_new\<lparr>middleware := [102]\<rparr>) \<and>
   Router_use example_collaborators (JString ''get'') (JString []) (JObject []) Router_new =
     (Some (TypeError ''Invalid arguments.''), Router_new)"
  using use_argument_shapes [of example_collaborators 0 "JString ''/x''" "JObject []" Router_new
          "JString ''get''"]
        use_argument_shapes [of example_collaborators 0 "JString []" "JObject []" Router_new
          "JString ''get''"]
  by (simp add: example_collaborators_def Router_new_def)

text \<open>
  C4 as stated fails: \<open>use(f, '/x')\<close> with a function \<open>f\<close> and no handler does not throw,
  it appends \<open>f\<close>; and \<open>use('get', '', f)\<close>, whose trailing arguments are both present,
  throws because the empty path is falsy.
\<close>

theorem use_bare_function_counterexample:
  "Router_use example_collaborators (JFunction 5) (JString ''/x'') JUndefined Router_new =
     (None, Router_new\<lparr>middleware := [5]\<rparr>) \<and>
   Router_use example_collaborators (JString ''get'') (JString []) (JFunction 5) Router_new =
     (Some (TypeError ''Invalid arguments.''), Router_new)"
  by (simp add: Router_use_def Router_new_def)

text \<open>
  C6: each verb wrapper is \<open>use\<close> with its fixed method pattern: the same exception or
  the same router results, for every path and handler, and so the same dispatch on the
  router that results (shown for \<open>get\<close>, the others being alike).
\<close>

theorem verb_wrappers_are_use:
  "Router_all E p h r = Router_use E (JString ''*'') p h r \<and>
   Router_options E p h r = Router_use E (JString ''options'') p h r \<and>
   Router_head E p h r = Router_use E (JString ''head'') p h r \<and>
   Router_get E p h r = Router_use E (JString ''get'') p h r \<and>
   Router_post E p h r = Router_use E (JString ''post'') p h r \<and>
   Router_put E p h r = Router_use E (JString ''put'') p h r \<and>
   Router_patch E p h r = Router_use E (JString ''patch'') p h r \<and>
   Router_delete E p h r = Router_use E (JString ''delete'') p h r \<and>
   Router_routeSync E q opts (snd (Router_get E p h r)) s =
     Router_routeSync E q opts (snd (Router_use E (JString ''get'') p h r)) s \<and>
   Router_routeAsync E q opts (snd (Router_get E p h r)) s =
     Router_routeAsync E q opts (snd (Router_use E (JString ''get'') p h r)) s"
  by (simp add: Router_all_def Router_options_def Router_head_def Router_get_def
        Router_post_def Router_put_def Router_patch_def Router_delete_def
      split: prod.split option.split)

section \<open>Facts about the router with shared objects\<close>

lemma call_handlers_live_emitted:
  "emitted_count t (trace (snd (snd (call_handlers_live run ev hs p s)))) =
     emitted_count t (trace s)"
  by (induction hs arbitrary: p s) (auto split: prod.split option.split)

lemma mitt_emit_live_counts:
  "mitt_emit_live run ev t p a s = (x, p', s1) \<Longrightarrow>
   emitted_count t' (trace s1) = emitted_count t' (trace s) + (if t = t' then 1 else 0)"
  using call_handlers_live_emitted
    [of t' run ev "a t" p "\<lparr>world = world s, trace = trace s @ [Emitted t (ev p)]\<rparr>"]
  by (simp add: mitt_emit_live_def)

lemma routeSync_loop_live_raise:
  "routeSync_body_live H r q c s = (Inl e, (q', c'), s') \<Longrightarrow>
   routeSync_loop_live E H r opts q c s = Some (Inl e, (q', c'), s')"
  by (subst routeSync_loop_live.simps) simp

lemma routeSync_loop_live_stop:
  "routeSync_body_live H r q c s = (Inr resp, (q', c'), s') \<Longrightarrow>
   \<not> truthy (get_prop opts ''redirect'') \<or> isRedirect E resp = Inr False \<Longrightarrow>
   routeSync_loop_live E H r opts q c s = Some (Inr resp, (q', c'), s')"
  by (subst routeSync_loop_live.simps) auto

lemma routeSync_loop_live_continue:
  "routeSync_body_live H r q c s = (Inr resp, (q', c'), s') \<Longrightarrow>
   truthy (get_prop opts ''redirect'') \<Longrightarrow> isRedirect E resp = Inr True \<Longrightarrow>
   routeSync_loop_live E H r opts q c s = routeSync_loop_live E H r opts q' c' s'"
  by (subst routeSync_loop_live.simps) simp

lemma routeAsync_loop_live_raise:
  "routeAsync_body_live H r q c s = (Inl e, (q', c'), s') \<Longrightarrow>
   routeAsync_loop_live E H r opts q c s = Some (Inl e, (q', c'), s')"
  by (subst routeAsync_loop_live.simps) simp

lemma routeAsync_loop_live_stop:
  "routeAsync_body_live H r q c s = (Inr resp, (q', c'), s') \<Longrightarrow>
   \<not> truthy (get_prop opts ''redirect'') \<or> isRedirect E resp = Inr False \<Longrightarrow>
   routeAsync_loop_live E H r opts q c s = Some (Inr resp, (q', c'), s')"
  by (subst routeAsync_loop_live.simps) auto

lemma routeAsync_loop_live_continue:
  "routeAsync_body_live H r q c s = (Inr resp, (q', c'), s') \<Longrightarrow>
   truthy (get_prop opts ''redirect'') \<Longrightarrow> isRedirect E resp = Inr True \<Longrightarrow>
   routeAsync_loop_live E H r opts q c s = routeAsync_loop_live E H r opts q' c' s'"
  by (subst routeAsync_loop_live.simps) simp

lemma Router_routeSync_live_returns:
  assumes "normaliseRequest E request = Inr q" "normaliseContext E Synchronous = Inr c"
    and "routeSync_loop_live E H r (default_options options) q c s =
         Some (Inr resp, (q', c'), s')"
  shows "Router_routeSync_live E H request options r s =
           Some (Inr (route_result q' resp), r, s')"
  using assms by (simp add: Router_routeSync_live_def)

lemma Router_routeAsync_live_resolves:
  assumes "normaliseRequest E request = Inr q" "normaliseContext E Asynchronous = Inr c"
    and "routeAsync_loop_live E H r (default_options options) q c s =
         Some (Inr resp, (q', c'), s')"
  shows "Router_routeAsync_live E H request options r s =
           Some (Resolved (route_result q' resp), r, s')"
  using assms by (simp add: Router_routeAsync_live_def)

lemma Router_routeSync_live_raises:
  assumes "normaliseRequest E request = Inr q" "normaliseContext E Synchronous = Inr c"
    and "routeSync_loop_live E H r (default_options options) q c s =
         Some (Inl e, (q', c'), s1)"
    and "emitErrorEvent_live H r q' e c' s1 = (x, p, s2)"
  shows "Router_routeSync_live E H request options r s =
           Some (Inl (case x of None \<Rightarrow> e | Some e' \<Rightarrow> e'), r, s2)"
  using assms by (simp add: Router_routeSync_live_def split: option.splits)

lemma Router_routeAsync_live_rejects:
  assumes "normaliseRequest E request = Inr q" "normaliseContext E Asynchronous = Inr c"
    and "routeAsync_loop_live E H r (default_options options) q c s =
         Some (Inl e, (q', c'), s1)"
    and "emitErrorEvent_live H r q' e c' s1 = (x, p, s2)"
  shows "Router_routeAsync_live E H request options r s =
           Some (Rejected (case x of None \<Rightarrow> e | Some e' \<Rightarrow> e'), r, s2)"
  using assms by (simp add: Router_routeAsync_live_def split: option.splits)

lemma routeSync_body_live_completes:
  assumes "emitBeforeEvent_live H r q c s = (None, (q1, c1), s1)"
    and "chainSync H (q1, c1) (middleware r) (world s1) = (Inr resp0, (q2, c2), w2)"
    and "emitAfterEvent_live H r q2 resp0 c2 \<lparr>world = w2, trace = trace s1\<rparr> =
         (None, (q3, resp, c3), s3)"
  shows "routeSync_body_live H r q c s = (Inr resp, (q3, c3), s3)"
    and "emitted_count Before (trace s3) = emitted_count Before (trace s) + 1"
    and "emitted_count After (trace s3) = emitted_count After (trace s) + 1"
    and "emitted_count Error (trace s3) = emitted_count Error (trace s)"
proof -
  show "routeSync_body_live H r q c s = (Inr resp, (q3, c3), s3)"
    using assms by (simp add: routeSync_body_live_def)
  note b = mitt_emit_live_counts [OF assms(1) [unfolded emitBeforeEvent_live_def]]
  note a = mitt_emit_live_counts [OF assms(3) [unfolded emitAfterEvent_live_def]]
  show "emitted_count Before (trace s3) = emitted_count Before (trace s) + 1"
    using b [of Before] a [of Before] by simp
  show "emitted_count After (trace s3) = emitted_count After (trace s) + 1"
    using b [of After] a [of After] by simp
  show "emitted_count Error (trace s3) = emitted_count Error (trace s)"
    using b [of Error] a [of Error] by simp
qed

lemma routeAsync_body_live_completes:
  assumes "emitBeforeEvent_live H r q c s = (None, (q1, c1), s1)"
    and "chainAsync H (q1, c1) (middleware r) (world s1) = (Resolved resp0, (q2, c2), w2)"
    and "emitAfterEvent_live H r q2 resp0 c2 \<lparr>world = w2, trace = trace s1\<rparr> =
         (None, (q3, resp, c3), s3)"
  shows "routeAsync_body_live H r q c s = (Inr resp, (q3, c3), s3)"
    and "emitted_count Before (trace s3) = emitted_count Before (trace s) + 1"
    and "emitted_count After (trace s3) = emitted_count After (trace s) + 1"
    and "emitted_count Error (trace s3) = emitted_count Error (trace s)"
proof -
  show "routeAsync_body_live H r q c s = (Inr resp, (q3, c3), s3)"
    using assms by (simp add: routeAsync_body_live_def)
  note b = mitt_emit_live_counts [OF assms(1) [unfolded emitBeforeEvent_live_def]]
  note a = mitt_emit_live_counts [OF assms(3) [unfolded emitAfterEvent_live_def]]
  show "emitted_count Before (trace s3) = emitted_count Before (trace s) + 1"
    using b [of Before] a [of Before] by simp
  show "emitted_count After (trace s3) = emitted_count After (trace s) + 1"
    using b [of After] a [of After] by simp
  show "emitted_count Error (trace s3) = emitted_count Error (trace s)"
    using b [of Error] a [of Error] by simp
qed

lemma route_result_fields_of:
  "(\<forall>k. has_prop (route_result q resp) k \<longleftrightarrow>
          k = ''url'' \<or> k = ''redirected'' \<or> has_prop resp k) \<and>
   (\<forall>k. has_prop resp k \<longrightarrow> get_prop (route_result q resp) k = get_prop resp k) \<and>
   (\<not> has_prop resp ''url'' \<longrightarrow> get_prop (route_result q resp) ''url'' = get_prop q ''url'') \<and>
   (\<not> has_prop resp ''redirected'' \<longrightarrow>
      get_prop (route_result q resp) ''redirected'' = JBool False)"
  by (simp add: get_prop_route_result has_prop_route_result)

text \<open>
  For callbacks that write to none of their objects, the router with shared objects is
  the router of the sections above.
\<close>

lemma call_handlers_live_read_only:
  assumes "\<And>h p w. run' h p w = (case run h (ev p) w of (x, w') \<Rightarrow> (x, p, w'))"
  shows "call_handlers_live run' ev hs p s =
           (case call_handlers run hs (ev p) s of (x, s') \<Rightarrow> (x, p, s'))"
  by (induction hs arbitrary: s) (simp_all add: assms split: prod.split option.split)

lemma mitt_emit_live_read_only:
  assumes "\<And>h p w. run' h p w = (case run h (ev p) w of (x, w') \<Rightarrow> (x, p, w'))"
  shows "mitt_emit_live run' ev t p a s =
           (case mitt_emit run t (ev p) a s of (x, s') \<Rightarrow> (x, p, s'))"
  unfolding mitt_emit_live_def mitt_emit_def
  by (rule call_handlers_live_read_only) (rule assms)

lemma emit_live_read_only:
  "emitBeforeEvent_live (read_only E) r q c s =
     (case emitBeforeEvent E r q c s of (x, s') \<Rightarrow> (x, (q, c), s'))"
  "emitAfterEvent_live (read_only E) r q resp c s =
     (case emitAfterEvent E r q resp c s of (x, s') \<Rightarrow> (x, (q, resp, c), s'))"
  "emitErrorEvent_live (read_only E) r q e c s =
     (case emitErrorEvent E r q e c s of (x, s') \<Rightarrow> (x, (q, c), s'))"
  unfolding emitBeforeEvent_live_def emitAfterEvent_live_def emitErrorEvent_live_def
    emitBeforeEvent_def emitAfterEvent_def emitErrorEvent_def
  by (subst mitt_emit_live_read_only [where run = "listener E"];
      simp add: read_only_def split: prod.split)+

lemma chain_read_only:
  "chainSync (read_only E) (q, c) ms w =
     (case routeSync E q c ms w of (out, w') \<Rightarrow> (out, (q, c), w'))"
  "chainAsync (read_only E) (q, c) ms w =
     (case routeAsync E q c ms w of (p, w') \<Rightarrow> (p, (q, c), w'))"
  by (simp_all add: read_only_def)

lemma routeSync_body_live_read_only:
  "routeSync_body_live (read_only E) r q c s =
     (case routeSync_body E r q c s of (out, s') \<Rightarrow> (out, (q, c), s'))"
proof -
  obtain x s1 where b: "emitBeforeEvent E r q c s = (x, s1)"
    by (cases "emitBeforeEvent E r q c s")
  obtain out w2 where ch: "routeSync E q c (middleware r) (world s1) = (out, w2)"
    by (cases "routeSync E q c (middleware r) (world s1)")
  show ?thesis
  proof (cases x)
    case (Some e)
    with b show ?thesis
      by (simp add: routeSync_body_live_def routeSync_body_def emit_live_read_only)
  next
    case None
    show ?thesis
    proof (cases out)
      case (Inl e)
      with b None ch show ?thesis
        by (simp add: routeSync_body_live_def routeSync_body_def emit_live_read_only
            chain_read_only)
    next
      case (Inr resp)
      obtain y s3 where a:
        "emitAfterEvent E r q resp c \<lparr>world = w2, trace = trace s1\<rparr> = (y, s3)"
        by (cases "emitAfterEvent E r q resp c \<lparr>world = w2, trace = trace s1\<rparr>")
      with b None ch Inr show ?thesis
        by (cases y)
          (simp_all add: routeSync_body_live_def routeSync_body_def emit_live_read_only
            chain_read_only)
    qed
  qed
qed

lemma routeAsync_body_live_read_only:
  "routeAsync_body_live (read_only E) r q c s =
     (case routeAsync_body E r q c s of (out, s') \<Rightarrow> (out, (q, c), s'))"
proof -
  obtain x s1 where b: "emitBeforeEvent E r q c s = (x, s1)"
    by (cases "emitBeforeEvent E r q c s")
  obtain p w2 where ch: "routeAsync E q c (middleware r) (world s1) = (p, w2)"
    by (cases "routeAsync E q c (middleware r) (world s1)")
  show ?thesis
  proof (cases x)
    case (Some e)
    with b show ?thesis
      by (simp add: routeAsync_body_live_def routeAsync_body_def emit_live_read_only)
  next
    case None
    show ?thesis
    proof (cases p)
      case (Rejected e)
      with b None ch show ?thesis
        by (simp add: routeAsync_body_live_def routeAsync_body_def emit_live_read_only
            chain_read_only)
    next
      case (Resolved resp)
      obtain y s3 where a:
        "emitAfterEvent E r q resp c \<lparr>world = w2, trace = trace s1\<rparr> = (y, s3)"
        by (cases "emitAfterEvent E r q resp c \<lparr>world = w2, trace = trace s1\<rparr>")
      with b None ch Resolved show ?thesis
        by (cases y)
          (simp_all add: routeAsync_body_live_def routeAsync_body_def emit_live_read_only
            chain_read_only)
    qed
  qed
qed

lemma routeSync_loop_live_step:
  "routeSync_loop_live E H r opts q c s = Some y \<longleftrightarrow>
     (case routeSync_body_live H r q c s of
        (Inl e, p, s') \<Rightarrow> y = (Inl e, p, s')
      | (Inr resp, (q', c'), s') \<Rightarrow>
          if truthy (get_prop opts ''redirect'')
          then (case isRedirect E resp of
                  Inl e \<Rightarrow> y = (Inl e, (q', c'), s')
                | Inr redirect \<Rightarrow>
                    if redirect then routeSync_loop_live E H r opts q' c' s' = Some y
                    else y = (Inr resp, (q', c'), s'))
          else y = (Inr resp, (q', c'), s'))"
  by (subst routeSync_loop_live.simps) (auto split: prod.splits sum.splits)

lemma routeAsync_loop_live_step:
  "routeAsync_loop_live E H r opts q c s = Some y \<longleftrightarrow>
     (case routeAsync_body_live H r q c s of
        (Inl e, p, s') \<Rightarrow> y = (Inl e, p, s')
      | (Inr resp, (q', c'), s') \<Rightarrow>
          if truthy (get_prop opts ''redirect'')
          then (case isRedirect E resp of
                  Inl e \<Rightarrow> y = (Inl e, (q', c'), s')
                | Inr redirect \<Rightarrow>
                    if redirect then routeAsync_loop_live E H r opts q' c' s' = Some y
                    else y = (Inr resp, (q', c'), s'))
          else y = (Inr resp, (q', c'), s'))"
  by (subst routeAsync_loop_live.simps) (auto split: prod.splits sum.splits)

lemma routeSync_loop_live_le:
  assumes "routeSync_loop_live E H r opts q c s = Some y"
  shows "H = read_only E \<longrightarrow>
         fst (snd y) = (q, c) \<and> routeSync_loop E r opts q c s = Some (fst y, snd (snd y))"
  apply (rule routeSync_loop_live.raw_induct
      [where P = "\<lambda>E' H' r' opts' q' c' s0 y.
         H' = read_only E' \<longrightarrow>
         fst (snd y) = (q', c') \<and>
         routeSync_loop E' r' opts' q' c' s0 = Some (fst y, snd (snd y))", OF _ assms])
  subgoal premises prems for loop' E' H' r' opts' q' c' s0 y
  proof
    assume H: "H' = read_only E'"
    obtain out s1 where b: "routeSync_body E' r' q' c' s0 = (out, s1)"
      by (cases "routeSync_body E' r' q' c' s0")
    then have bl: "routeSync_body_live H' r' q' c' s0 = (out, (q', c'), s1)"
      by (simp add: H routeSync_body_live_read_only)
    show "fst (snd y) = (q', c') \<and>
        routeSync_loop E' r' opts' q' c' s0 = Some (fst y, snd (snd y))"
      using prems(2) [unfolded bl] prems(1) [of E' H' r' opts' q' c' s1 y] H b
      by (subst routeSync_loop_step) (auto split: sum.splits if_splits)
  qed
  done

lemma routeSync_loop_live_ge:
  assumes "routeSync_loop E r opts q c s = Some y"
  shows "routeSync_loop_live E (read_only E) r opts q c s = Some (fst y, (q, c), snd y)"
  apply (rule routeSync_loop.raw_induct
      [where P = "\<lambda>E' r' opts' q' c' s0 y.
         routeSync_loop_live E' (read_only E') r' opts' q' c' s0 = Some (fst y, (q', c'), snd y)",
       OF _ assms])
  subgoal premises prems for loop' E' r' opts' q' c' s0 y
  proof -
    obtain out s1 where b: "routeSync_body E' r' q' c' s0 = (out, s1)"
      by (cases "routeSync_body E' r' q' c' s0")
    then have bl: "routeSync_body_live (read_only E') r' q' c' s0 = (out, (q', c'), s1)"
      by (simp add: routeSync_body_live_read_only)
    show ?thesis
      using prems(2) [unfolded b] prems(1) [of E' r' opts' q' c' s1 y] bl
      by (subst routeSync_loop_live_step) (auto split: sum.splits if_splits)
  qed
  done

lemma routeSync_loop_live_read_only:
  "routeSync_loop_live E (read_only E) r opts q c s =
     map_option (\<lambda>(out, s'). (out, (q, c), s')) (routeSync_loop E r opts q c s)"
proof (cases "routeSync_loop E r opts q c s")
  case None
  show ?thesis
  proof (cases "routeSync_loop_live E (read_only E) r opts q c s")
    case (Some y)
    from routeSync_loop_live_le [OF Some] None show ?thesis by simp
  qed (simp add: None)
next
  case (Some y)
  from routeSync_loop_live_ge [OF Some] Some show ?thesis
    by (cases y) simp
qed

lemma routeAsync_loop_live_le:
  assumes "routeAsync_loop_live E H r opts q c s = Some y"
  shows "H = read_only E \<longrightarrow>
         fst (snd y) = (q, c) \<and> routeAsync_loop E r opts q c s = Some (fst y, snd (snd y))"
  apply (rule routeAsync_loop_live.raw_induct
      [where P = "\<lambda>E' H' r' opts' q' c' s0 y.
         H' = read_only E' \<longrightarrow>
         fst (snd y) = (q', c') \<and>
         routeAsync_loop E' r' opts' q' c' s0 = Some (fst y, snd (snd y))", OF _ assms])
  subgoal premises prems for loop' E' H' r' opts' q' c' s0 y
  proof
    assume H: "H' = read_only E'"
    obtain out s1 where b: "routeAsync_body E' r' q' c' s0 = (out, s1)"
      by (cases "routeAsync_body E' r' q' c' s0")
    then have bl: "routeAsync_body_live H' r' q' c' s0 = (out, (q', c'), s1)"
      by (simp add: H routeAsync_body_live_read_only)
    show "fst (snd y) = (q', c') \<and>
        routeAsync_loop E' r' opts' q' c' s0 = Some (fst y, snd (snd y))"
      using prems(2) [unfolded bl] prems(1) [of E' H' r' opts' q' c' s1 y] H b
      by (subst routeAsync_loop_step) (auto split: sum.splits if_splits)
  qed
  done

lemma routeAsync_loop_live_ge:
  assumes "routeAsync_loop E r opts q c s = Some y"
  shows "routeAsync_loop_live E (read_only E) r opts q c s = Some (fst y, (q, c), snd y)"
  apply (rule routeAsync_loop.raw_induct
      [where P = "\<lambda>E' r' opts' q' c' s0 y.
         routeAsync_loop_live E' (read_only E') r' opts' q' c' s0 =
           Some (fst y, (q', c'), snd y)",
       OF _ assms])
  subgoal premises prems for loop' E' r' opts' q' c' s0 y
  proof -
    obtain out s1 where b: "routeAsync_body E' r' q' c' s0 = (out, s1)"
      by (cases "routeAsync_body E' r' q' c' s0")
    then have bl: "routeAsync_body_live (read_only E') r' q' c' s0 = (out, (q', c'), s1)"
      by (simp add: routeAsync_body_live_read_only)
    show ?thesis
      using prems(2) [unfolded b] prems(1) [of E' r' opts' q' c' s1 y] bl
      by (subst routeAsync_loop_live_step) (auto split: sum.splits if_splits)
  qed
  done

lemma routeAsync_loop_live_read_only:
  "routeAsync_loop_live E (read_only E) r opts q c s =
     map_option (\<lambda>(out, s'). (out, (q, c), s')) (routeAsync_loop E r opts q c s)"
proof (cases "routeAsync_loop E r opts q c s")
  case None
  show ?thesis
  proof (cases "routeAsync_loop_live E (read_only E) r opts q c s")
    case (Some y)
    from routeAsync_loop_live_le [OF Some] None show ?thesis by simp
  qed (simp add: None)
next
  case (Some y)
  from routeAsync_loop_live_ge [OF Some] Some show ?thesis
    by (cases y) simp
qed

lemma Router_routeSync_live_read_only:
  "Router_routeSync_live E (read_only E) request options r s =
     Router_routeSync E request options r s"
  by (simp add: Router_routeSync_live_def Router_routeSync_def routeSync_loop_live_read_only
      emit_live_read_only split: sum.split option.split prod.split)

lemma Router_routeAsync_live_read_only:
  "Router_routeAsync_live E (read_only E) request options r s =
     Router_routeAsync E request options r s"
  by (simp add: Router_routeAsync_live_def Router_routeAsync_def routeAsync_loop_live_read_only
      emit_live_read_only split: sum.split option.split prod.split)

lemmas example_live_defs =
  example_callbacks_def read_only_def example_collaborators_def example_chain_def
  example_listener_def example_router_def example_state_def
  Router_new_def Router_get_def Router_use_def Router_on_def Router_off_def
  mitt_def mitt_on_def mitt_off_def mitt_emit_live_def
  emitBeforeEvent_live_def emitAfterEvent_live_def emitErrorEvent_live_def
  routeSync_body_live_def routeAsync_body_live_def get_prop_def has_prop_def

lemma example_hacked_before:
  "emitBeforeEvent_live example_callbacks (Router_on Before (UserListener 3) example_router)
      [(''url'', JString ''/x''), (''want'', JNumber 200)] c example_state =
     (None, ([(''url'', JString ''/hacked''), (''want'', JNumber 200)], c),
      \<lparr>world = 0, trace =
         [Emitted Before (BeforeEvent [(''url'', JString ''/x''), (''want'', JNumber 200)] c),
          Invoked (UserListener 3)
            (BeforeEvent [(''url'', JString ''/x''), (''want'', JNumber 200)] c)]\<rparr>)"
  by (simp add: example_live_defs Let_def)

lemma example_hacked_chain:
  "chainSync example_callbacks ([(''url'', JString ''/hacked''), (''want'', JNumber 200)], c)
      (middleware (Router_on Before (UserListener 3) example_router)) 0 =
     (Inr [(''status'', JNumber 200)],
      ([(''url'', JString ''/hacked''), (''want'', JNumber 200)], c), 1)"
  "chainAsync example_callbacks ([(''url'', JString ''/hacked''), (''want'', JNumber 200)], c)
      (middleware (Router_on Before (UserListener 3) example_router)) 0 =
     (Resolved [(''status'', JNumber 200)],
      ([(''url'', JString ''/hacked''), (''want'', JNumber 200)], c), 1)"
  by (simp_all add: example_live_defs Let_def)

lemma example_hacked_after:
  "emitAfterEvent_live example_callbacks (Router_on Before (UserListener 3) example_router)
      [(''url'', JString ''/hacked''), (''want'', JNumber 200)] [(''status'', JNumber 200)] c
      \<lparr>world = w, trace = tr\<rparr> =
     (None,
      ([(''url'', JString ''/hacked''), (''want'', JNumber 200)], [(''status'', JNumber 200)], c),
      \<lparr>world = w, trace = tr @
         [Emitted After (AfterEvent [(''url'', JString ''/hacked''), (''want'', JNumber 200)]
            [(''status'', JNumber 200)] c)]\<rparr>)"
  by (simp add: example_live_defs Let_def)

lemma example_own_url_live_pass:
  "routeSync_body_live example_callbacks example_router
      [(''url'', JString ''/x''), (''want'', JNumber 200), (''own'', JString ''/other'')]
      [(''execution'', JBool True)] example_state =
     (Inr [(''status'', JNumber 200), (''url'', JString ''/other'')],
      ([(''url'', JString ''/x''), (''want'', JNumber 200), (''own'', JString ''/other'')],
       [(''execution'', JBool True)]),
      \<lparr>world = 1, trace =
         [Emitted Before (BeforeEvent
            [(''url'', JString ''/x''), (''want'', JNumber 200), (''own'', JString ''/other'')]
            [(''execution'', JBool True)]),
          Emitted After (AfterEvent
            [(''url'', JString ''/x''), (''want'', JNumber 200), (''own'', JString ''/other'')]
            [(''status'', JNumber 200), (''url'', JString ''/other'')]
            [(''execution'', JBool True)])]\<rparr>)"
  by (simp add: example_live_defs)

lemma example_hacked_pass:
  "routeSync_body_live example_callbacks (Router_on Before (UserListener 3) example_router)
      [(''url'', JString ''/x''), (''want'', JNumber 200)] [(''execution'', JBool True)]
      example_state =
     (Inr [(''status'', JNumber 200)],
      ([(''url'', JString ''/hacked''), (''want'', JNumber 200)], [(''execution'', JBool True)]),
      \<lparr>world = 1, trace =
         [Emitted Before (BeforeEvent [(''url'', JString ''/x''), (''want'', JNumber 200)]
            [(''execution'', JBool True)]),
          Invoked (UserListener 3)
            (BeforeEvent [(''url'', JString ''/x''), (''want'', JNumber 200)]
               [(''execution'', JBool True)]),
          Emitted After (AfterEvent [(''url'', JString ''/hacked''), (''want'', JNumber 200)]
            [(''status'', JNumber 200)] [(''execution'', JBool True)])]\<rparr>)"
  by (simp add: example_live_defs Let_def)

lemma example_after_throws_pass:
  "routeSync_body_live example_callbacks (Router_on After (UserListener 4) example_router)
      [(''url'', JString ''/x''), (''want'', JNumber 200)] [(''execution'', JBool True)]
      example_state =
     (Inl (Thrown ''after''),
      ([(''url'', JString ''/x''), (''want'', JNumber 200)], [(''execution'', JBool True)]),
      \<lparr>world = 1, trace =
         [Emitted Before (BeforeEvent [(''url'', JString ''/x''), (''want'', JNumber 200)]
            [(''execution'', JBool True)]),
          Emitted After (AfterEvent [(''url'', JString ''/x''), (''want'', JNumber 200)]
            [(''status'', JNumber 200)] [(''execution'', JBool True)]),
          Invoked (UserListener 4)
            (AfterEvent [(''url'', JString ''/x''), (''want'', JNumber 200)]
               [(''status'', JNumber 200)] [(''execution'', JBool True)])]\<rparr>)"
  by (simp add: example_live_defs Let_def)

lemma example_after_throws_error:
  "emitErrorEvent_live example_callbacks (Router_on After (UserListener 4) example_router)
      q e c \<lparr>world = w, trace = tr\<rparr> =
     (None, (q, c), \<lparr>world = w, trace = tr @
        [Emitted Error (ErrorEvent q e c), Invoked DefaultErrorListener (ErrorEvent q e c)]\<rparr>)"
  by (simp add: example_live_defs Let_def)

text \<open>
  A listener that writes to the request it is handed changes the result: the \<open>url\<close> of
  the result is read from the request when the call returns.
\<close>

lemma example_hacked_run:
  "Router_routeSync_live example_collaborators example_callbacks
      [(''url'', JString ''/x''), (''want'', JNumber 200)] None
      (Router_on Before (UserListener 3) example_router) example_state =
     Some (Inr [(''url'', JString ''/hacked''), (''redirected'', JBool False),
                (''status'', JNumber 200)],
           Router_on Before (UserListener 3) example_router,
           \<lparr>world = 1, trace =
              [Emitted Before (BeforeEvent [(''url'', JString ''/x''), (''want'', JNumber 200)]
                 [(''execution'', JBool True)]),
               Invoked (UserListener 3)
                 (BeforeEvent [(''url'', JString ''/x''), (''want'', JNumber 200)]
                    [(''execution'', JBool True)]),
               Emitted After (AfterEvent [(''url'', JString ''/hacked''), (''want'', JNumber 200)]
                 [(''status'', JNumber 200)] [(''execution'', JBool True)])]\<rparr>)"
  using Router_routeSync_live_returns [OF example_collaborators_simps(1,2)
      routeSync_loop_live_stop [OF example_hacked_pass disjI2, OF example_collaborators_simps(5)],
      where options = None]
  by (simp add: route_result_def spread_def get_prop_def)

text \<open>
  A listener that throws on the \<open>after\<close> event: the chain has yielded a response that is
  no redirect, and the call raises the listener's exception after an \<open>error\<close> event.
\<close>

lemma example_after_throws_run:
  "Router_routeSync_live example_collaborators example_callbacks
      [(''url'', JString ''/x''), (''want'', JNumber 200)] None
      (Router_on After (UserListener 4) example_router) example_state =
     Some (Inl (Thrown ''after''),
           Router_on After (UserListener 4) example_router,
           \<lparr>world = 1, trace =
              [Emitted Before (BeforeEvent [(''url'', JString ''/x''), (''want'', JNumber 200)]
                 [(''execution'', JBool True)]),
               Emitted After (AfterEvent [(''url'', JString ''/x''), (''want'', JNumber 200)]
                 [(''status'', JNumber 200)] [(''execution'', JBool True)]),
               Invoked (UserListener 4)
                 (AfterEvent [(''url'', JString ''/x''), (''want'', JNumber 200)]
                    [(''status'', JNumber 200)] [(''execution'', JBool True)]),
               Emitted Error (ErrorEvent [(''url'', JString ''/x''), (''want'', JNumber 200)]
                 (Thrown ''after'') [(''execution'', JBool True)]),
               Invoked DefaultErrorListener
                 (ErrorEvent [(''url'', JString ''/x''), (''want'', JNumber 200)]
                    (Thrown ''after'') [(''execution'', JBool True)])]\<rparr>)"
  using Router_routeSync_live_raises [OF example_collaborators_simps(1,2)
      routeSync_loop_live_raise [OF example_after_throws_pass] example_after_throws_error,
      where options = None]
  by simp

section \<open>Dispatch\<close>

text \<open>
  C8: an exception of request normalisation or of context construction leaves the
  dispatch call as it is thrown (\<open>routeSync\<close> raises, \<open>routeAsync\<close> rejects), and the
  state after the call is the state before it: the history has no new entry, so no
  \<open>before\<close>, \<open>after\<close> or \<open>error\<close> event was emitted.
\<close>

theorem normalisation_errors_emit_nothing:
  "(normaliseRequest E q = Inl e \<longrightarrow>
      Router_routeSync E q opts r s = Some (Inl e, r, s) \<and>
      Router_routeAsync E q opts r s = Some (Rejected e, r, s)) \<and>
   (normaliseRequest E q = Inr nq \<and> normaliseContext E Synchronous = Inl e \<longrightarrow>
      Router_routeSync E q opts r s = Some (Inl e, r, s)) \<and>
   (normaliseRequest E q = Inr nq \<and> normaliseContext E Asynchronous = Inl e \<longrightarrow>
      Router_routeAsync E q opts r s = Some (Rejected e, r, s))"
  by (simp add: Router_routeSync_def Router_routeAsync_def)

theorem normalisation_errors_emit_nothing_witness:
  "Router_routeSync example_collaborators [] None Router_new example_state =
     Some (Inl (Thrown ''no url''), Router_new, example_state) \<and>
   Router_routeAsync example_collaborators [] None Router_new example_state =
     Some (Rejected (Thrown ''no url''), Router_new, example_state) \<and>
   Router_routeSync no_context_collaborators [(''url'', JString ''/x'')] None Router_new
       example_state =
     Some (Inl (Thrown ''no context''), Router_new, example_state) \<and>
   Router_routeAsync no_context_collaborators [(''url'', JString ''/x'')] None Router_new
       example_state =
     Some (Rejected (Thrown ''no context''), Router_new, example_state)"
  using normalisation_errors_emit_nothing [of example_collaborators "[]" "Thrown ''no url''"
          None Router_new example_state]
        normalisation_errors_emit_nothing [of no_context_collaborators
          "[(''url'', JString ''/x'')]" "Thrown ''no context''" None Router_new example_state
          "[(''url'', JString ''/x'')]"]
  by (simp add: example_collaborators_def no_context_collaborators_def has_prop_def)

text \<open>
  C1, as the code has it. Take a dispatch call whose request and context are normalised
  and whose first pass through the loop body completes: no \<open>before\<close> listener throws,
  the chain executor yields a response, no \<open>after\<close> listener throws. Let the classifier
  report that the response, as the \<open>after\<close> listeners leave it, is not a redirect. Then
  the call emits one \<open>before\<close> and one \<open>after\<close> event and no \<open>error\<close> event, and it
  returns (\<open>routeSync\<close>) or resolves to (\<open>routeAsync\<close>) an object with these fields:
  \<open>url\<close>, \<open>redirected\<close> and the fields of the response. Every field of the response is
  there with the value it has in the response, a \<open>url\<close> or a \<open>redirected\<close> of the
  response included. When the response has no \<open>url\<close>, the \<open>url\<close> of the result is the
  \<open>url\<close> that the normalised request has at the end of the pass, after the listeners
  and the middleware have worked on it; when the response has no \<open>redirected\<close>, the
  \<open>redirected\<close> of the result is \<open>false\<close>. The statement is about the fields of the
  result and not about the order of its keys.
\<close>

theorem non_redirect_dispatch:
  "(normaliseRequest E request = Inr q \<and> normaliseContext E Synchronous = Inr c \<and>
    emitBeforeEvent_live H r q c s = (None, (q1, c1), s1) \<and>
    chainSync H (q1, c1) (middleware r) (world s1) = (Inr resp0, (q2, c2), w2) \<and>
    emitAfterEvent_live H r q2 resp0 c2 \<lparr>world = w2, trace = trace s1\<rparr> =
      (None, (q3, resp, c3), s3) \<and>
    isRedirect E resp = Inr False \<longrightarrow>
      (\<exists>res. Router_routeSync_live E H request options r s = Some (Inr res, r, s3) \<and>
         (\<forall>k. has_prop res k \<longleftrightarrow> k = ''url'' \<or> k = ''redirected'' \<or> has_prop resp k) \<and>
         (\<forall>k. has_prop resp k \<longrightarrow> get_prop res k = get_prop resp k) \<and>
         (\<not> has_prop resp ''url'' \<longrightarrow> get_prop res ''url'' = get_prop q3 ''url'') \<and>
         (\<not> has_prop resp ''redirected'' \<longrightarrow> get_prop res ''redirected'' = JBool False)) \<and>
      emitted_count Before (trace s3) = emitted_count Before (trace s) + 1 \<and>
      emitted_count After (trace s3) = emitted_count After (trace s) + 1 \<and>
      emitted_count Error (trace s3) = emitted_count Error (trace s)) \<and>
   (normaliseRequest E request = Inr q \<and> normaliseContext E Asynchronous = Inr c \<and>
    emitBeforeEvent_live H r q c s = (None, (q1, c1), s1) \<and>
    chainAsync H (q1, c1) (middleware r) (world s1) = (Resolved resp0, (q2, c2), w2) \<and>
    emitAfterEvent_live H r q2 resp0 c2 \<lparr>world = w2, trace = trace s1\<rparr> =
      (None, (q3, resp, c3), s3) \<and>
    isRedirect E resp = Inr False \<longrightarrow>
      (\<exists>res. Router_routeAsync_live E H request options r s = Some (Resolved res, r, s3) \<and>
         (\<forall>k. has_prop res k \<longleftrightarrow> k = ''url'' \<or> k = ''redirected'' \<or> has_prop resp k) \<and>
         (\<forall>k. has_prop resp k \<longrightarrow> get_prop res k = get_prop resp k) \<and>
         (\<not> has_prop resp ''url'' \<longrightarrow> get_prop res ''url'' = get_prop q3 ''url'') \<and>
         (\<not> has_prop resp ''redirected'' \<longrightarrow> get_prop res ''redirected'' = JBool False)) \<and>
      emitted_count Before (trace s3) = emitted_count Before (trace s) + 1 \<and>
      emitted_count After (trace s3) = emitted_count After (trace s) + 1 \<and>
      emitted_count Error (trace s3) = emitted_count Error (trace s))"
proof (intro conjI impI; elim conjE)
  assume n: "normaliseRequest E request = Inr q" "normaliseContext E Synchronous = Inr c"
    and pass: "emitBeforeEvent_live H r q c s = (None, (q1, c1), s1)"
      "chainSync H (q1, c1) (middleware r) (world s1) = (Inr resp0, (q2, c2), w2)"
      "emitAfterEvent_live H r q2 resp0 c2 \<lparr>world = w2, trace = trace s1\<rparr> =
        (None, (q3, resp, c3), s3)"
    and stop: "isRedirect E resp = Inr False"
  note body = routeSync_body_live_completes [OF pass]
  have "Router_routeSync_live E H request options r s =
      Some (Inr (route_result q3 resp), r, s3)"
    by (rule Router_routeSync_live_returns [OF n routeSync_loop_live_stop [OF body(1)]])
      (simp add: stop)
  with route_result_fields_of [of q3 resp]
  show "\<exists>res. Router_routeSync_live E H request options r s = Some (Inr res, r, s3) \<and>
         (\<forall>k. has_prop res k \<longleftrightarrow> k = ''url'' \<or> k = ''redirected'' \<or> has_prop resp k) \<and>
         (\<forall>k. has_prop resp k \<longrightarrow> get_prop res k = get_prop resp k) \<and>
         (\<not> has_prop resp ''url'' \<longrightarrow> get_prop res ''url'' = get_prop q3 ''url'') \<and>
         (\<not> has_prop resp ''redirected'' \<longrightarrow> get_prop res ''redirected'' = JBool False)"
    by blast
  show "emitted_count Before (trace s3) = emitted_count Before (trace s) + 1"
    "emitted_count After (trace s3) = emitted_count After (trace s) + 1"
    "emitted_count Error (trace s3) = emitted_count Error (trace s)"
    by (rule body(2) body(3) body(4))+
next
  assume n: "normaliseRequest E request = Inr q" "normaliseContext E Asynchronous = Inr c"
    and pass: "emitBeforeEvent_live H r q c s = (None, (q1, c1), s1)"
      "chainAsync H (q1, c1) (middleware r) (world s1) = (Resolved resp0, (q2, c2), w2)"
      "emitAfterEvent_live H r q2 resp0 c2 \<lparr>world = w2, trace = trace s1\<rparr> =
        (None, (q3, resp, c3), s3)"
    and stop: "isRedirect E resp = Inr False"
  note body = routeAsync_body_live_completes [OF pass]
  have "Router_routeAsync_live E H request options r s =
      Some (Resolved (route_result q3 resp), r, s3)"
    by (rule Router_routeAsync_live_resolves [OF n routeAsync_loop_live_stop [OF body(1)]])
      (simp add: stop)
  with route_result_fields_of [of q3 resp]
  show "\<exists>res. Router_routeAsync_live E H request options r s = Some (Resolved res, r, s3) \<and>
         (\<forall>k. has_prop res k \<longleftrightarrow> k = ''url'' \<or> k = ''redirected'' \<or> has_prop resp k) \<and>
         (\<forall>k. has_prop resp k \<longrightarrow> get_prop res k = get_prop resp k) \<and>
         (\<not> has_prop resp ''url'' \<longrightarrow> get_prop res ''url'' = get_prop q3 ''url'') \<and>
         (\<not> has_prop resp ''redirected'' \<longrightarrow> get_prop res ''redirected'' = JBool False)"
    by blast
  show "emitted_count Before (trace s3) = emitted_count Before (trace s) + 1"
    "emitted_count After (trace s3) = emitted_count After (trace s) + 1"
    "emitted_count Error (trace s3) = emitted_count Error (trace s)"
    by (rule body(2) body(3) body(4))+
qed

theorem non_redirect_dispatch_witness:
  "(\<exists>res. Router_routeSync_live example_collaborators example_callbacks
        [(''url'', JString ''/x''), (''want'', JNumber 200)] None
        (Router_on Before (UserListener 3) example_router) example_state =
      Some (Inr res, Router_on Before (UserListener 3) example_router,
        \<lparr>world = 1, trace =
           [Emitted Before (BeforeEvent [(''url'', JString ''/x''), (''want'', JNumber 200)]
              [(''execution'', JBool True)]),
            Invoked (UserListener 3)
              (BeforeEvent [(''url'', JString ''/x''), (''want'', JNumber 200)]
                 [(''execution'', JBool True)]),
            Emitted After (AfterEvent [(''url'', JString ''/hacked''), (''want'', JNumber 200)]
              [(''status'', JNumber 200)] [(''execution'', JBool True)])]\<rparr>) \<and>
      get_prop res ''url'' = JString ''/hacked'' \<and>
      get_prop res ''redirected'' = JBool False \<and>
      get_prop res ''status'' = JNumber 200) \<and>
   (\<exists>res. Router_routeAsync_live example_collaborators example_callbacks
        [(''url'', JString ''/x''), (''want'', JNumber 200)] None
        (Router_on Before (UserListener 3) example_router) example_state =
      Some (Resolved res, Router_on Before (UserListener 3) example_router,
        \<lparr>world = 1, trace =
           [Emitted Before (BeforeEvent [(''url'', JString ''/x''), (''want'', JNumber 200)]
              [(''execution'', JBool False)]),
            Invoked (UserListener 3)
              (BeforeEvent [(''url'', JString ''/x''), (''want'', JNumber 200)]
                 [(''execution'', JBool False)]),
            Emitted After (AfterEvent [(''url'', JString ''/hacked''), (''want'', JNumber 200)]
              [(''status'', JNumber 200)] [(''execution'', JBool False)])]\<rparr>) \<and>
      get_prop res ''url'' = JString ''/hacked'' \<and>
      get_prop res ''redirected'' = JBool False \<and>
      get_prop res ''status'' = JNumber 200)"
  (is "?sync \<and> ?async")
proof -
  let ?E = example_collaborators and ?H = example_callbacks
  let ?R = "Router_on Before (UserListener 3) example_router"
  let ?q = "[(''url'', JString ''/x''), (''want'', JNumber 200)]"
  let ?q' = "[(''url'', JString ''/hacked''), (''want'', JNumber 200)]"
  let ?resp = "[(''status'', JNumber 200)]"
  have fields: "\<not> has_prop ?resp ''url''" "\<not> has_prop ?resp ''redirected''"
    "has_prop ?resp ''status''" "get_prop ?q' ''url'' = JString ''/hacked''"
    "get_prop ?resp ''status'' = JNumber 200"
    by (simp_all add: has_prop_def get_prop_def)
  have ?sync
  proof -
    let ?c = "[(''execution'', JBool True)]"
    let ?s1 = "\<lparr>world = 0::nat, trace =
        [Emitted Before (BeforeEvent ?q ?c), Invoked (UserListener 3) (BeforeEvent ?q ?c)]\<rparr>"
    have "normaliseRequest ?E ?q = Inr ?q \<and> normaliseContext ?E Synchronous = Inr ?c \<and>
        emitBeforeEvent_live ?H ?R ?q ?c example_state = (None, (?q', ?c), ?s1) \<and>
        chainSync ?H (?q', ?c) (middleware ?R) (world ?s1) = (Inr ?resp, (?q', ?c), 1) \<and>
        emitAfterEvent_live ?H ?R ?q' ?resp ?c \<lparr>world = 1, trace = trace ?s1\<rparr> =
          (None, (?q', ?resp, ?c),
           \<lparr>world = 1, trace = trace ?s1 @ [Emitted After (AfterEvent ?q' ?resp ?c)]\<rparr>) \<and>
        isRedirect ?E ?resp = Inr False"
      by (simp add: example_collaborators_simps example_hacked_before example_hacked_chain
          example_hacked_after)
    from non_redirect_dispatch [THEN conjunct1, THEN mp, THEN conjunct1, OF this, of None]
    obtain res where
      "Router_routeSync_live ?E ?H ?q None ?R example_state =
         Some (Inr res, ?R,
           \<lparr>world = 1, trace = trace ?s1 @ [Emitted After (AfterEvent ?q' ?resp ?c)]\<rparr>)"
      "\<forall>k. has_prop ?resp k \<longrightarrow> get_prop res k = get_prop ?resp k"
      "\<not> has_prop ?resp ''url'' \<longrightarrow> get_prop res ''url'' = get_prop ?q' ''url''"
      "\<not> has_prop ?resp ''redirected'' \<longrightarrow> get_prop res ''redirected'' = JBool False"
      by blast
    with fields show ?thesis by auto
  qed
  moreover have ?async
  proof -
    let ?c = "[(''execution'', JBool False)]"
    let ?s1 = "\<lparr>world = 0::nat, trace =
        [Emitted Before (BeforeEvent ?q ?c), Invoked (UserListener 3) (BeforeEvent ?q ?c)]\<rparr>"
    have "normaliseRequest ?E ?q = Inr ?q \<and> normaliseContext ?E Asynchronous = Inr ?c \<and>
        emitBeforeEvent_live ?H ?R ?q ?c example_state = (None, (?q', ?c), ?s1) \<and>
        chainAsync ?H (?q', ?c) (middleware ?R) (world ?s1) = (Resolved ?resp, (?q', ?c), 1) \<and>
        emitAfterEvent_live ?H ?R ?q' ?resp ?c \<lparr>world = 1, trace = trace ?s1\<rparr> =
          (None, (?q', ?resp, ?c),
           \<lparr>world = 1, trace = trace ?s1 @ [Emitted After (AfterEvent ?q' ?resp ?c)]\<rparr>) \<and>
        isRedirect ?E ?resp = Inr False"
      by (simp add: example_collaborators_simps example_hacked_before example_hacked_chain
          example_hacked_after)
    from non_redirect_dispatch [THEN conjunct2, THEN mp, THEN conjunct1, OF this, of None]
    obtain res where
      "Router_routeAsync_live ?E ?H ?q None ?R example_state =
         Some (Resolved res, ?R,
           \<lparr>world = 1, trace = trace ?s1 @ [Emitted After (AfterEvent ?q' ?resp ?c)]\<rparr>)"
      "\<forall>k. has_prop ?resp k \<longrightarrow> get_prop res k = get_prop ?resp k"
      "\<not> has_prop ?resp ''url'' \<longrightarrow> get_prop res ''url'' = get_prop ?q' ''url''"
      "\<not> has_prop ?resp ''redirected'' \<longrightarrow> get_prop res ''redirected'' = JBool False"
      by blast
    with fields show ?thesis by auto
  qed
  ultimately show ?thesis ..
qed

text \<open>
  C1 as stated fails when the response carries a \<open>url\<close> of its own: the spread comes last
  in the object literal, so the response's \<open>url\<close> replaces the URL of the request.
\<close>

theorem response_url_wins_counterexample:
  "Router_routeSync_live example_collaborators example_callbacks
      [(''url'', JString ''/x''), (''want'', JNumber 200), (''own'', JString ''/other'')]
      None example_router example_state =
     Some (Inr [(''url'', JString ''/other''), (''redirected'', JBool False),
                (''status'', JNumber 200)],
           example_router,
           \<lparr>world = 1, trace =
              [Emitted Before (BeforeEvent
                 [(''url'', JString ''/x''), (''want'', JNumber 200),
                  (''own'', JString ''/other'')]
                 [(''execution'', JBool True)]),
               Emitted After (AfterEvent
                 [(''url'', JString ''/x''), (''want'', JNumber 200),
                  (''own'', JString ''/other'')]
                 [(''status'', JNumber 200), (''url'', JString ''/other'')]
                 [(''execution'', JBool True)])]\<rparr>) \<and>
   isRedirect example_collaborators [(''status'', JNumber 200), (''url'', JString ''/other'')] =
     Inr False"
proof -
  have stop: "isRedirect example_collaborators
      [(''status'', JNumber 200), (''url'', JString ''/other'')] = Inr False"
    by (simp add: example_collaborators_def get_prop_def)
  from Router_routeSync_live_returns [OF example_collaborators_simps(1,2)
      routeSync_loop_live_stop [OF example_own_url_live_pass disjI2, OF stop],
      where options = None]
  show ?thesis
    by (simp add: stop route_result_def spread_def get_prop_def)
qed



text \<open>
  C10. An options object without a \<open>redirect\<close> field reads \<open>undefined\<close> there, which is
  falsy: the call makes one pass and returns its response although the classifier
  reports a redirect. With the argument omitted the same pass is followed by another
  one, the default being \<open>{redirect: 'follow'}\<close>.
\<close>

theorem options_without_redirect_field:
  "\<not> has_prop opts ''redirect'' \<longrightarrow>
     get_prop opts ''redirect'' = JUndefined \<and>
     (normaliseRequest E request = Inr q \<and> normaliseContext E Synchronous = Inr c \<and>
      routeSync_body E r q c s = (Inr resp, s1) \<and> isRedirect E resp = Inr True \<longrightarrow>
        Router_routeSync E request (Some opts) r s =
          Some (Inr (route_result q resp), r, s1) \<and>
        emitted_count Before (trace s1) = emitted_count Before (trace s) + 1 \<and>
        emitted_count After (trace s1) = emitted_count After (trace s) + 1 \<and>
        routeSync_loop E r (default_options None) q c s =
          routeSync_loop E r (default_options None) q c s1) \<and>
     (normaliseRequest E request = Inr q \<and> normaliseContext E Asynchronous = Inr c \<and>
      routeAsync_body E r q c s = (Inr resp, s1) \<and> isRedirect E resp = Inr True \<longrightarrow>
        Router_routeAsync E request (Some opts) r s =
          Some (Resolved (route_result q resp), r, s1) \<and>
        emitted_count Before (trace s1) = emitted_count Before (trace s) + 1 \<and>
        emitted_count After (trace s1) = emitted_count After (trace s) + 1 \<and>
        routeAsync_loop E r (default_options None) q c s =
          routeAsync_loop E r (default_options None) q c s1)"
proof (intro impI conjI; (elim conjE)?)
  assume absent: "\<not> has_prop opts ''redirect''"
  then show u: "get_prop opts ''redirect'' = JUndefined"
    by (rule get_prop_absent)
  have follow: "truthy (get_prop (default_options None) ''redirect'')"
    by (simp add: default_options_def get_prop_def)
  {
    assume a: "normaliseRequest E request = Inr q" "normaliseContext E Synchronous = Inr c"
      "routeSync_body E r q c s = (Inr resp, s1)" "isRedirect E resp = Inr True"
    have "routeSync_loop E r (default_options (Some opts)) q c s = Some (Inr resp, s1)"
      using routeSync_loop_no_follow [of opts E r q c s] u a(3)
      by (simp add: default_options_def)
    then show "Router_routeSync E request (Some opts) r s =
        Some (Inr (route_result q resp), r, s1)"
      using a(1,2) by (intro Router_routeSync_returns)
    show "emitted_count Before (trace s1) = emitted_count Before (trace s) + 1"
      "emitted_count After (trace s1) = emitted_count After (trace s) + 1"
      using routeSync_body_emitted [OF a(3)] by simp_all
    show "routeSync_loop E r (default_options None) q c s =
        routeSync_loop E r (default_options None) q c s1"
      using a(3) follow a(4) by (rule routeSync_loop_continue)
  }
  {
    assume a: "normaliseRequest E request = Inr q" "normaliseContext E Asynchronous = Inr c"
      "routeAsync_body E r q c s = (Inr resp, s1)" "isRedirect E resp = Inr True"
    have "routeAsync_loop E r (default_options (Some opts)) q c s = Some (Inr resp, s1)"
      using routeAsync_loop_no_follow [of opts E r q c s] u a(3)
      by (simp add: default_options_def)
    then show "Router_routeAsync E request (Some opts) r s =
        Some (Resolved (route_result q resp), r, s1)"
      using a(1,2) by (intro Router_routeAsync_resolves)
    show "emitted_count Before (trace s1) = emitted_count Before (trace s) + 1"
      "emitted_count After (trace s1) = emitted_count After (trace s) + 1"
      using routeAsync_body_emitted [OF a(3)] by simp_all
    show "routeAsync_loop E r (default_options None) q c s =
        routeAsync_loop E r (default_options None) q c s1"
      using a(3) follow a(4) by (rule routeAsync_loop_continue)
  }
qed

theorem options_without_redirect_field_witness:
  "Router_routeSync example_collaborators [(''url'', JString ''/x''), (''want'', JNumber 302)]
      (Some []) example_router example_state =
     Some (Inr [(''url'', JString ''/x''), (''redirected'', JBool False),
                (''status'', JNumber 302)],
           example_router,
           \<lparr>world = 1, trace =
              [Emitted Before (BeforeEvent [(''url'', JString ''/x''), (''want'', JNumber 302)]
                 [(''execution'', JBool True)]),
               Emitted After (AfterEvent [(''url'', JString ''/x''), (''want'', JNumber 302)]
                 [(''status'', JNumber 302)] [(''execution'', JBool True)])]\<rparr>) \<and>
   Router_routeAsync example_collaborators [(''url'', JString ''/x''), (''want'', JNumber 302)]
      (Some []) example_router example_state =
     Some (Resolved [(''url'', JString ''/x''), (''redirected'', JBool False),
                     (''status'', JNumber 302)],
           example_router,
           \<lparr>world = 1, trace =
              [Emitted Before (BeforeEvent [(''url'', JString ''/x''), (''want'', JNumber 302)]
                 [(''execution'', JBool False)]),
               Emitted After (AfterEvent [(''url'', JString ''/x''), (''want'', JNumber 302)]
                 [(''status'', JNumber 302)] [(''execution'', JBool False)])]\<rparr>)"
  (is "?sync \<and> ?async")
proof -
  let ?q = "[(''url'', JString ''/x''), (''want'', JNumber 302)]"
  have empty: "\<not> has_prop [] ''redirect''"
    by (simp add: has_prop_def)
  note T = options_without_redirect_field [THEN mp, OF empty, THEN conjunct2]
  have res: "route_result ?q [(''status'', JNumber 302)] =
      [(''url'', JString ''/x''), (''redirected'', JBool False), (''status'', JNumber 302)]"
    by (simp add: route_result_def spread_def get_prop_def)
  have ?sync
    using T [THEN conjunct1, THEN mp, THEN conjunct1, OF conjI, OF _ conjI, OF _ _ conjI,
        OF example_collaborators_simps(1) example_collaborators_simps(2) example_found_pass
           example_collaborators_simps(4)]
    unfolding res .
  moreover have ?async
    using T [THEN conjunct2, THEN mp, THEN conjunct1, OF conjI, OF _ conjI, OF _ _ conjI,
        OF example_collaborators_simps(1) example_collaborators_simps(3)
           example_found_async_pass example_collaborators_simps(4)]
    unfolding res .
  ultimately show ?thesis ..
qed




text \<open>
  C9, as the code has it. \<open>routeSync\<close> is the spec's state machine run with the tag
  \<open>Synchronous\<close> and the synchronous chain executor, and \<open>routeAsync\<close> is the same machine
  run with the tag \<open>Asynchronous\<close> and the awaited asynchronous executor, its result
  delivered as a promise. When context construction fails alike for both tags and, on
  the two contexts, the chain executors give the same results and the listeners behave
  the same, the two calls either both never return or both return: \<open>routeAsync\<close> rejects
  with the exception that \<open>routeSync\<close> raises, or resolves to the result that \<open>routeSync\<close>
  returns, and the two histories have the same events and listener invocations, up to
  the context that the events carry.
\<close>

theorem sync_and_async_are_one_machine:
  "Router_routeSync E request options r s =
     dispatch Synchronous (routeSync E) E request options r s \<and>
   Router_routeAsync E request options r s =
     map_option settled_call
       (dispatch Asynchronous (awaited (routeAsync E)) E request options r s) \<and>
   ((\<forall>e. normaliseContext E Synchronous = Inl e \<longleftrightarrow>
          normaliseContext E Asynchronous = Inl e) \<and>
    (\<forall>cS cA. normaliseContext E Synchronous = Inr cS \<and>
             normaliseContext E Asynchronous = Inr cA \<longrightarrow>
       (\<forall>q ms w. awaited (routeAsync E) q cA ms w = routeSync E q cS ms w) \<and>
       (\<forall>l ev w. listener E l (with_context cA ev) w =
                  listener E l (with_context cS ev) w)) \<longrightarrow>
    (Router_routeSync E request options r s = None \<longleftrightarrow>
     Router_routeAsync E request options r s = None) \<and>
    (\<forall>out r' s'. Router_routeSync E request options r s = Some (out, r', s') \<longrightarrow>
       (\<exists>t'. Router_routeAsync E request options r s = Some (settled out, r', t') \<and>
             same_but_context s' t')))"
proof (intro conjI impI)
  show "Router_routeSync E request options r s =
      dispatch Synchronous (routeSync E) E request options r s"
    by (rule Router_routeSync_is_dispatch)
  show "Router_routeAsync E request options r s =
      map_option settled_call
        (dispatch Asynchronous (awaited (routeAsync E)) E request options r s)"
    by (rule Router_routeAsync_is_dispatch)
next
  assume h: "(\<forall>e. normaliseContext E Synchronous = Inl e \<longleftrightarrow>
          normaliseContext E Asynchronous = Inl e) \<and>
    (\<forall>cS cA. normaliseContext E Synchronous = Inr cS \<and>
             normaliseContext E Asynchronous = Inr cA \<longrightarrow>
       (\<forall>q ms w. awaited (routeAsync E) q cA ms w = routeSync E q cS ms w) \<and>
       (\<forall>l ev w. listener E l (with_context cA ev) w =
                  listener E l (with_context cS ev) w))"
  have sim: "(dispatch Synchronous (routeSync E) E request options r s = None \<longleftrightarrow>
          dispatch Asynchronous (awaited (routeAsync E)) E request options r s = None) \<and>
         (\<forall>out r' s'. dispatch Synchronous (routeSync E) E request options r s =
              Some (out, r', s') \<longrightarrow>
            (\<exists>t'. dispatch Asynchronous (awaited (routeAsync E)) E request options r s =
                    Some (out, r', t') \<and>
                  same_but_context s' t'))"
    by (rule dispatch_simulation) (use h in blast)+
  show "Router_routeSync E request options r s = None \<longleftrightarrow>
     Router_routeAsync E request options r s = None"
    using sim by (simp add: Router_routeSync_is_dispatch Router_routeAsync_is_dispatch)
  show "\<forall>out r' s'. Router_routeSync E request options r s = Some (out, r', s') \<longrightarrow>
       (\<exists>t'. Router_routeAsync E request options r s = Some (settled out, r', t') \<and>
             same_but_context s' t')"
    using sim by (auto simp add: Router_routeSync_is_dispatch Router_routeAsync_is_dispatch)
qed

theorem sync_and_async_are_one_machine_witness:
  "Router_routeSync example_collaborators [(''url'', JString ''/x''), (''want'', JNumber 200)]
      None example_router example_state =
     Some (Inr [(''url'', JString ''/x''), (''redirected'', JBool False),
                (''status'', JNumber 200)],
           example_router,
           \<lparr>world = 1, trace =
              [Emitted Before (BeforeEvent [(''url'', JString ''/x''), (''want'', JNumber 200)]
                 [(''execution'', JBool True)]),
               Emitted After (AfterEvent [(''url'', JString ''/x''), (''want'', JNumber 200)]
                 [(''status'', JNumber 200)] [(''execution'', JBool True)])]\<rparr>) \<and>
   (\<exists>t'. Router_routeAsync example_collaborators
        [(''url'', JString ''/x''), (''want'', JNumber 200)] None example_router
        example_state =
      Some (Resolved [(''url'', JString ''/x''), (''redirected'', JBool False),
                      (''status'', JNumber 200)],
            example_router, t') \<and>
      same_but_context
        \<lparr>world = 1, trace =
           [Emitted Before (BeforeEvent [(''url'', JString ''/x''), (''want'', JNumber 200)]
              [(''execution'', JBool True)]),
            Emitted After (AfterEvent [(''url'', JString ''/x''), (''want'', JNumber 200)]
              [(''status'', JNumber 200)] [(''execution'', JBool True)])]\<rparr>
        t')"
  (is "?sync \<and> ?async")
proof -
  let ?q = "[(''url'', JString ''/x''), (''want'', JNumber 200)]"
  have res: "route_result ?q [(''status'', JNumber 200)] =
      [(''url'', JString ''/x''), (''redirected'', JBool False), (''status'', JNumber 200)]"
    by (simp add: route_result_def spread_def get_prop_def)
  have sync: ?sync
    using Router_routeSync_returns [OF example_collaborators_simps(1,2)
        routeSync_loop_stop [OF example_sync_pass example_collaborators_simps(5)]]
    by (simp add: res)
  from sync_and_async_are_one_machine [THEN conjunct2, THEN conjunct2, THEN mp,
      OF example_collaborators_agree, THEN conjunct2, rule_format, OF sync]
  have ?async by simp
  with sync show ?thesis ..
qed

text \<open>
  C9 as stated asks for agreeing chain executors only, and fails when something else
  tells the tags apart: with a \<open>before\<close> listener that throws on the asynchronous context
  the executors agree, \<open>routeSync\<close> returns and \<open>routeAsync\<close> rejects.
\<close>

theorem tag_sensitive_listener_counterexample:
  "routeSync tag_sensitive_collaborators [(''url'', JString ''/x''), (''want'', JNumber 200)]
      [(''execution'', JBool True)] [102] 0 = (Inr [(''status'', JNumber 200)], 1) \<and>
   awaited (routeAsync tag_sensitive_collaborators) [(''url'', JString ''/x''), (''want'', JNumber 200)]
      [(''execution'', JBool False)] [102] 0 = (Inr [(''status'', JNumber 200)], 1) \<and>
   Router_routeSync tag_sensitive_collaborators [(''url'', JString ''/x''), (''want'', JNumber 200)] None
      (Router_on Before (UserListener 3) example_router) example_state =
     Some (Inr [(''url'', JString ''/x''), (''redirected'', JBool False),
                (''status'', JNumber 200)],
           Router_on Before (UserListener 3) example_router,
           \<lparr>world = 1, trace =
              [Emitted Before (BeforeEvent [(''url'', JString ''/x''), (''want'', JNumber 200)]
                 [(''execution'', JBool True)]),
               Invoked (UserListener 3)
                 (BeforeEvent [(''url'', JString ''/x''), (''want'', JNumber 200)]
                    [(''execution'', JBool True)]),
               Emitted After (AfterEvent [(''url'', JString ''/x''), (''want'', JNumber 200)]
                 [(''status'', JNumber 200)] [(''execution'', JBool True)])]\<rparr>) \<and>
   Router_routeAsync tag_sensitive_collaborators [(''url'', JString ''/x''), (''want'', JNumber 200)] None
      (Router_on Before (UserListener 3) example_router) example_state =
     Some (Rejected (Thrown ''async only''),
           Router_on Before (UserListener 3) example_router,
           \<lparr>world = 0, trace =
              [Emitted Before (BeforeEvent [(''url'', JString ''/x''), (''want'', JNumber 200)]
                 [(''execution'', JBool False)]),
               Invoked (UserListener 3)
                 (BeforeEvent [(''url'', JString ''/x''), (''want'', JNumber 200)]
                    [(''execution'', JBool False)]),
               Emitted Error (ErrorEvent [(''url'', JString ''/x''), (''want'', JNumber 200)]
                 (Thrown ''async only'') [(''execution'', JBool False)]),
               Invoked DefaultErrorListener
                 (ErrorEvent [(''url'', JString ''/x''), (''want'', JNumber 200)]
                    (Thrown ''async only'') [(''execution'', JBool False)])]\<rparr>)"
  (is "?chainS \<and> ?chainA \<and> ?sync \<and> ?async")
proof -
  have res: "route_result [(''url'', JString ''/x''), (''want'', JNumber 200)] [(''status'', JNumber 200)] =
      [(''url'', JString ''/x''), (''redirected'', JBool False), (''status'', JNumber 200)]"
    by (simp add: route_result_def spread_def get_prop_def)
  have ?chainS ?chainA
    by (simp_all add: tag_sensitive_collaborators_def example_collaborators_def
          example_chain_def awaited_def get_prop_def has_prop_def)
  moreover have ?sync
    using Router_routeSync_returns [OF tag_sensitive_simps(1,2)
        routeSync_loop_stop [OF tag_sensitive_sync_pass tag_sensitive_simps(4)]]
    by (simp add: res)
  moreover have ?async
    using Router_routeAsync_rejects [OF tag_sensitive_simps(1,3)
        routeAsync_loop_raise [OF tag_sensitive_async_pass] tag_sensitive_error]
    by simp
  ultimately show ?thesis by blast
qed

text \<open>
  C7. A script of registration calls that all succeed leaves the router with its old
  middleware list followed by one entry per call, in call order: the function itself
  for \<open>use(f)\<close>, the route entry built from the triple otherwise; the listeners are as
  before. Each successful registration appends exactly one entry at the end, and a
  call that throws changes nothing. Whatever the script (subscriptions and failing calls
  included), the old list is a prefix of the new one. A dispatch call returns with the
  list as it was.
\<close>

theorem middleware_list_is_append_only:
  "((\<forall>c\<in>set cs. is_registration c) \<and> (\<forall>x\<in>set (fst (run_calls E cs r)). x = None) \<longrightarrow>
      middleware (snd (run_calls E cs r)) = middleware r @ concat (map (registered E) cs) \<and>
      length (concat (map (registered E) cs)) = length cs \<and>
      emitter (snd (run_calls E cs r)) = emitter r) \<and>
   (is_registration c \<and> fst (apply_call E c r) = None \<longrightarrow>
      (\<exists>m. registered E c = [m] \<and>
           middleware (snd (apply_call E c r)) = middleware r @ [m])) \<and>
   (fst (apply_call E c r) \<noteq> None \<longrightarrow> snd (apply_call E c r) = r) \<and>
   (\<exists>ms. middleware (snd (run_calls E cs r)) = middleware r @ ms) \<and>
   (Router_routeSync E request options r s = Some (out, r', s') \<longrightarrow>
      middleware r' = middleware r) \<and>
   (Router_routeAsync E request options r s = Some (p, r', s') \<longrightarrow>
      middleware r' = middleware r)"
proof (intro conjI impI; (elim conjE)?)
  assume a: "\<forall>c\<in>set cs. is_registration c" "\<forall>x\<in>set (fst (run_calls E cs r)). x = None"
  from run_calls_registers [OF a]
  show "middleware (snd (run_calls E cs r)) = middleware r @ concat (map (registered E) cs)"
    "emitter (snd (run_calls E cs r)) = emitter r"
    by simp_all
  show "length (concat (map (registered E) cs)) = length cs"
    using a(1)
  proof (induction cs)
    case Nil
    then show ?case by simp
  next
    case (Cons c cs)
    then have "length (registered E c) = 1"
      by (cases "(E, c)" rule: registered.cases) simp_all
    with Cons show ?case by simp
  qed
next
  assume a: "is_registration c" "fst (apply_call E c r) = None"
  from apply_call_registers [OF a]
  show "\<exists>m. registered E c = [m] \<and> middleware (snd (apply_call E c r)) = middleware r @ [m]"
    by (cases "registered E c") simp_all
next
  assume "fst (apply_call E c r) \<noteq> None"
  then show "snd (apply_call E c r) = r" by (rule apply_call_fails)
next
  show "\<exists>ms. middleware (snd (run_calls E cs r)) = middleware r @ ms"
    by (rule run_calls_middleware_grows)
next
  assume d: "Router_routeSync E request options r s = Some (out, r', s')"
  show "middleware r' = middleware r" using dispatch_keeps_router(1) [OF d] by simp
next
  assume d: "Router_routeAsync E request options r s = Some (p, r', s')"
  show "middleware r' = middleware r" using dispatch_keeps_router(2) [OF d] by simp
qed


theorem middleware_list_is_append_only_witness:
  "run_calls example_collaborators
      [Use (JFunction 7) JUndefined JUndefined, Get (JString ''/x'') (JObject []),
       All (JString ''/yy'') (JFunction 8)] Router_new =
     ([None, None, None], Router_new\<lparr>middleware := [7, 102, 103]\<rparr>) \<and>
   apply_call example_collaborators (Get (JString ''/x'') (JObject [])) Router_new =
     (None, Router_new\<lparr>middleware := [102]\<rparr>) \<and>
   apply_call example_collaborators (Use (JString ''get'') JUndefined JUndefined)
      example_router =
     (Some (TypeError ''Invalid arguments.''), example_router) \<and>
   middleware (fst (snd (the (Router_routeSync example_collaborators
      [(''url'', JString ''/x''), (''want'', JNumber 200)] None example_router
      example_state)))) = [102] \<and>
   middleware (fst (snd (the (Router_routeAsync example_collaborators
      [(''url'', JString ''/x''), (''want'', JNumber 200)] None example_router
      example_state)))) = [102]"
  (is "?script \<and> ?one \<and> ?failed \<and> ?sync \<and> ?async")
proof -
  let ?cs = "[Use (JFunction 7) JUndefined JUndefined, Get (JString ''/x'') (JObject []),
       All (JString ''/yy'') (JFunction 8)]"
  have outcomes: "fst (run_calls example_collaborators ?cs Router_new) = [None, None, None]"
    by (simp add: Router_use_def verb_wrapper_defs)
  have "middleware (snd (run_calls example_collaborators ?cs Router_new)) =
          middleware Router_new @ concat (map (registered example_collaborators) ?cs) \<and>
        length (concat (map (registered example_collaborators) ?cs)) = length ?cs \<and>
        emitter (snd (run_calls example_collaborators ?cs Router_new)) = emitter Router_new"
    by (rule middleware_list_is_append_only [THEN conjunct1, THEN mp], subst outcomes)
      simp
  then have "snd (run_calls example_collaborators ?cs Router_new) =
      Router_new\<lparr>middleware := [7, 102, 103]\<rparr>"
    by (simp add: example_collaborators_def Router_new_def)
  with outcomes have ?script
    by (cases "run_calls example_collaborators ?cs Router_new") simp
  moreover have ?one
  proof -
    have o: "fst (apply_call example_collaborators (Get (JString ''/x'') (JObject []))
        Router_new) = None"
      by (simp add: Router_use_def verb_wrapper_defs)
    from middleware_list_is_append_only [THEN conjunct2, THEN conjunct1, THEN mp,
        of "Get (JString ''/x'') (JObject [])" example_collaborators Router_new]
    have "middleware (snd (apply_call example_collaborators
        (Get (JString ''/x'') (JObject [])) Router_new)) = [102]"
      using o by (simp add: example_collaborators_def Router_new_def)
    then show ?thesis
      by (simp add: Router_use_def verb_wrapper_defs example_collaborators_def Router_new_def)
  qed
  moreover have ?failed
  proof -
    have f: "fst (apply_call example_collaborators
        (Use (JString ''get'') JUndefined JUndefined) example_router) =
        Some (TypeError ''Invalid arguments.'')"
      by (simp add: Router_use_def)
    from middleware_list_is_append_only [THEN conjunct2, THEN conjunct2, THEN conjunct1,
        THEN mp, of example_collaborators "Use (JString ''get'') JUndefined JUndefined"
        example_router]
    have "snd (apply_call example_collaborators
        (Use (JString ''get'') JUndefined JUndefined) example_router) = example_router"
      using f by simp
    with f show ?thesis
      by (cases "apply_call example_collaborators
        (Use (JString ''get'') JUndefined JUndefined) example_router") simp
  qed
  moreover have ?sync
  proof -
    let ?run = "Router_routeSync example_collaborators
      [(''url'', JString ''/x''), (''want'', JNumber 200)] None example_router example_state"
    from Router_routeSync_returns [OF example_collaborators_simps(1,2)
        routeSync_loop_stop [OF example_sync_pass example_collaborators_simps(5)]]
    obtain out s' where run: "?run = Some (out, example_router, s')"
      by blast
    then have "?run = Some (out, fst (snd (the ?run)), s')"
      by simp
    from middleware_list_is_append_only [THEN conjunct2, THEN conjunct2, THEN conjunct2,
        THEN conjunct2, THEN conjunct1, THEN mp, OF this]
    show ?thesis
      by (simp add: example_router_def verb_wrapper_defs Router_use_def
            example_collaborators_def Router_new_def)
  qed
  moreover have ?async
  proof -
    let ?run = "Router_routeAsync example_collaborators
      [(''url'', JString ''/x''), (''want'', JNumber 200)] None example_router example_state"
    from Router_routeAsync_resolves [OF example_collaborators_simps(1,3)
        routeAsync_loop_stop [OF example_async_pass example_collaborators_simps(5)]]
    obtain out s' where run: "?run = Some (out, example_router, s')"
      by blast
    then have "?run = Some (out, fst (snd (the ?run)), s')"
      by simp
    from middleware_list_is_append_only [THEN conjunct2, THEN conjunct2, THEN conjunct2,
        THEN conjunct2, THEN conjunct2, THEN mp, OF this]
    show ?thesis
      by (simp add: example_router_def verb_wrapper_defs Router_use_def
            example_collaborators_def Router_new_def)
  qed
  ultimately show ?thesis by blast
qed

section \<open>The default error listener\<close>

lemma count_list_remove1:
  "count_list (remove1 a xs) b =
     (if a = b then count_list xs b - 1 else count_list xs b)"
  by (induction xs) auto

lemma not_in_remove1_once:
  "count_list xs a \<le> 1 \<Longrightarrow> a \<notin> set (remove1 a xs)"
  using count_list_remove1 [of a xs a] by (simp add: count_list_0_iff [symmetric])

lemma registration_keeps_emitter:
  "is_registration c \<Longrightarrow> emitter (snd (apply_call E c r)) = emitter r"
proof (cases "fst (apply_call E c r) = None")
  case True
  assume "is_registration c"
  from apply_call_registers(1) [OF this True] show ?thesis by simp
next
  case False
  then show ?thesis by (simp add: apply_call_fails)
qed

lemma apply_call_keeps_default_only:
  assumes "\<not> passes_listener DefaultErrorListener c" "\<not> is_on_error c"
    and "emitter r Error = [DefaultErrorListener]"
  shows "emitter (snd (apply_call E c r)) Error = [DefaultErrorListener]"
proof (cases "is_registration c")
  case True
  with assms(3) show ?thesis by (simp add: registration_keeps_emitter)
next
  case False
  with assms show ?thesis
    by (cases c) (auto simp add: Router_on_def Router_off_def mitt_on_def mitt_off_def)
qed

lemma apply_call_keeps_default_once:
  assumes "\<not> passes_listener DefaultErrorListener c"
    and "\<forall>t. t \<noteq> Error \<longrightarrow> DefaultErrorListener \<notin> set (emitter r t)"
    and "count_list (emitter r Error) DefaultErrorListener \<le> 1"
  shows "(\<forall>t. t \<noteq> Error \<longrightarrow> DefaultErrorListener \<notin> set (emitter (snd (apply_call E c r)) t)) \<and>
         count_list (emitter (snd (apply_call E c r)) Error) DefaultErrorListener \<le> 1"
proof (cases "is_registration c")
  case True
  with assms(2,3) show ?thesis by (simp add: registration_keeps_emitter)
next
  case False
  with assms show ?thesis
    by (cases c)
      (auto simp add: Router_on_def Router_off_def mitt_on_def mitt_off_def Let_def
         count_list_remove1 dest: notin_set_remove1)
qed

lemma apply_call_keeps_default_absent:
  assumes "\<not> passes_listener DefaultErrorListener c"
    and "\<forall>t. DefaultErrorListener \<notin> set (emitter r t)"
  shows "\<forall>t. DefaultErrorListener \<notin> set (emitter (snd (apply_call E c r)) t)"
proof (cases "is_registration c")
  case True
  with assms(2) show ?thesis by (simp add: registration_keeps_emitter)
next
  case False
  with assms show ?thesis
    by (cases c)
      (auto simp add: Router_on_def Router_off_def mitt_on_def mitt_off_def Let_def
         dest: notin_set_remove1)
qed

lemma on_error_removes_default:
  assumes "l \<noteq> DefaultErrorListener"
    and "\<forall>t. t \<noteq> Error \<longrightarrow> DefaultErrorListener \<notin> set (emitter r t)"
    and "count_list (emitter r Error) DefaultErrorListener \<le> 1"
  shows "\<forall>t. DefaultErrorListener \<notin> set (emitter (Router_on Error l r) t)"
proof
  fix t
  show "DefaultErrorListener \<notin> set (emitter (Router_on Error l r) t)"
  proof (cases "t = Error")
    case False
    with assms(2) show ?thesis
      by (simp add: Router_on_def mitt_on_def mitt_off_def Let_def)
  next
    case True
    have "count_list (emitter r Error @ [l]) DefaultErrorListener \<le> 1"
      using assms(1,3) by simp
    from not_in_remove1_once [OF this] True show ?thesis
      by (simp add: Router_on_def mitt_on_def mitt_off_def Let_def)
  qed
qed

lemma run_calls_Cons:
  "snd (run_calls E (c # cs) r) = snd (run_calls E cs (snd (apply_call E c r)))"
  by (simp split: prod.splits)

lemma run_calls_append:
  "snd (run_calls E (cs @ cs') r) = snd (run_calls E cs' (snd (run_calls E cs r)))"
proof (induction cs arbitrary: r)
  case Nil
  show ?case by simp
next
  case (Cons c cs)
  have "snd (run_calls E ((c # cs) @ cs') r) =
      snd (run_calls E (cs @ cs') (snd (apply_call E c r)))"
    by (simp only: append_Cons run_calls_Cons)
  also have "\<dots> = snd (run_calls E cs' (snd (run_calls E cs (snd (apply_call E c r)))))"
    by (rule Cons.IH)
  finally show ?case by (simp only: run_calls_Cons)
qed

lemma run_calls_keeps_default_only:
  "\<forall>c\<in>set cs. \<not> passes_listener DefaultErrorListener c \<and> \<not> is_on_error c \<Longrightarrow>
   emitter r Error = [DefaultErrorListener] \<Longrightarrow>
   emitter (snd (run_calls E cs r)) Error = [DefaultErrorListener]"
proof (induction cs arbitrary: r)
  case Nil
  then show ?case by simp
next
  case (Cons c cs)
  from Cons.prems have "emitter (snd (apply_call E c r)) Error = [DefaultErrorListener]"
    by (intro apply_call_keeps_default_only) simp_all
  with Cons.IH [of "snd (apply_call E c r)"] Cons.prems(1) show ?case
    by (simp only: run_calls_Cons) simp
qed

lemma run_calls_keeps_default_once:
  "\<forall>c\<in>set cs. \<not> passes_listener DefaultErrorListener c \<Longrightarrow>
   (\<forall>t. t \<noteq> Error \<longrightarrow> DefaultErrorListener \<notin> set (emitter r t)) \<and>
     count_list (emitter r Error) DefaultErrorListener \<le> 1 \<Longrightarrow>
   (\<forall>t. t \<noteq> Error \<longrightarrow> DefaultErrorListener \<notin> set (emitter (snd (run_calls E cs r)) t)) \<and>
     count_list (emitter (snd (run_calls E cs r)) Error) DefaultErrorListener \<le> 1"
proof (induction cs arbitrary: r)
  case Nil
  then show ?case by simp
next
  case (Cons c cs)
  from Cons.prems have
    "(\<forall>t. t \<noteq> Error \<longrightarrow> DefaultErrorListener \<notin> set (emitter (snd (apply_call E c r)) t)) \<and>
     count_list (emitter (snd (apply_call E c r)) Error) DefaultErrorListener \<le> 1"
    by (intro apply_call_keeps_default_once) simp_all
  with Cons.IH [of "snd (apply_call E c r)"] Cons.prems(1) show ?case
    by (simp only: run_calls_Cons) simp
qed

lemma run_calls_keeps_default_absent:
  "\<forall>c\<in>set cs. \<not> passes_listener DefaultErrorListener c \<Longrightarrow>
   \<forall>t. DefaultErrorListener \<notin> set (emitter r t) \<Longrightarrow>
   \<forall>t. DefaultErrorListener \<notin> set (emitter (snd (run_calls E cs r)) t)"
proof (induction cs arbitrary: r)
  case Nil
  then show ?case by simp
next
  case (Cons c cs)
  from Cons.prems have
    "\<forall>t. DefaultErrorListener \<notin> set (emitter (snd (apply_call E c r)) t)"
    by (intro apply_call_keeps_default_absent) simp_all
  with Cons.IH [of "snd (apply_call E c r)"] Cons.prems(1) show ?case
    by (simp only: run_calls_Cons) simp
qed

lemma Router_new_default_once:
  "emitter Router_new Error = [DefaultErrorListener]"
  "t \<noteq> Error \<Longrightarrow> emitter Router_new t = []"
  by (simp_all add: Router_new_def mitt_on_def mitt_def)

lemma handoff_removes_default:
  assumes "\<forall>c\<in>set cs \<union> set cs'. \<not> passes_listener DefaultErrorListener c"
    and "l \<noteq> DefaultErrorListener"
  shows "\<forall>t. DefaultErrorListener \<notin>
           set (emitter (snd (run_calls E (cs @ On Error l # cs') Router_new)) t)"
proof -
  let ?r1 = "snd (run_calls E cs Router_new)"
  have "(\<forall>t. t \<noteq> Error \<longrightarrow> DefaultErrorListener \<notin> set (emitter ?r1 t)) \<and>
        count_list (emitter ?r1 Error) DefaultErrorListener \<le> 1"
    using assms(1) by (intro run_calls_keeps_default_once) (simp_all add: Router_new_default_once)
  then have "\<forall>t. DefaultErrorListener \<notin> set (emitter (Router_on Error l ?r1) t)"
    using assms(2) by (intro on_error_removes_default) simp_all
  then have "\<forall>t. DefaultErrorListener \<notin>
      set (emitter (snd (run_calls E cs' (Router_on Error l ?r1))) t)"
    using assms(1) by (intro run_calls_keeps_default_absent) simp_all
  moreover have "snd (run_calls E (cs @ On Error l # cs') Router_new) =
      snd (run_calls E cs' (Router_on Error l ?r1))"
    by (simp only: run_calls_append run_calls_Cons apply_call.simps snd_conv)
  ultimately show ?thesis by simp
qed

lemma before_first_on_error:
  assumes "\<forall>c\<in>set cs. \<not> passes_listener DefaultErrorListener c \<and> \<not> is_on_error c"
  shows "emitter (snd (run_calls E cs Router_new)) Error = [DefaultErrorListener]"
    and "t \<noteq> Error \<Longrightarrow>
         DefaultErrorListener \<notin> set (emitter (snd (run_calls E cs Router_new)) t)"
proof -
  show "emitter (snd (run_calls E cs Router_new)) Error = [DefaultErrorListener]"
    using assms by (intro run_calls_keeps_default_only) (simp_all add: Router_new_default_once)
  have "(\<forall>t. t \<noteq> Error \<longrightarrow>
           DefaultErrorListener \<notin> set (emitter (snd (run_calls E cs Router_new)) t)) \<and>
        count_list (emitter (snd (run_calls E cs Router_new)) Error) DefaultErrorListener \<le> 1"
    using assms by (intro run_calls_keeps_default_once) (simp_all add: Router_new_default_once)
  then show "t \<noteq> Error \<Longrightarrow>
      DefaultErrorListener \<notin> set (emitter (snd (run_calls E cs Router_new)) t)"
    by simp
qed

lemma emitErrorEvent_single_listener:
  assumes "emitter r Error = [l]"
  shows "trace (snd (emitErrorEvent E r q e c s)) =
           trace s @ [Emitted Error (ErrorEvent q e c), Invoked l (ErrorEvent q e c)]"
  using assms by (simp add: emitErrorEvent_def mitt_emit_def split: prod.split option.split)

lemma routeSync_body_keeps_invocations:
  assumes "routeSync_body E r q c s = (out, s')"
    and "l \<notin> set (emitter r Before)" "l \<notin> set (emitter r After)"
  shows "invocations l (trace s') = invocations l (trace s)"
  using assms(1)
proof (cases rule: routeSync_body_cases)
  case (before_throws e)
  from mitt_emit_keeps_invocations [OF this(1) [unfolded emitBeforeEvent_def] assms(2)]
  show ?thesis .
next
  case (chain_throws s1 e w2)
  from mitt_emit_keeps_invocations [OF this(1) [unfolded emitBeforeEvent_def] assms(2)]
    chain_throws(4)
  show ?thesis by simp
next
  case (after_throws s1 resp w2 e)
  from mitt_emit_keeps_invocations [OF this(1) [unfolded emitBeforeEvent_def] assms(2)]
    mitt_emit_keeps_invocations [OF after_throws(3) [unfolded emitAfterEvent_def] assms(3)]
  show ?thesis by simp
next
  case (completes s1 resp w2)
  from mitt_emit_keeps_invocations [OF this(1) [unfolded emitBeforeEvent_def] assms(2)]
    mitt_emit_keeps_invocations [OF completes(3) [unfolded emitAfterEvent_def] assms(3)]
  show ?thesis by simp
qed

lemma routeAsync_body_keeps_invocations:
  assumes "routeAsync_body E r q c s = (out, s')"
    and "l \<notin> set (emitter r Before)" "l \<notin> set (emitter r After)"
  shows "invocations l (trace s') = invocations l (trace s)"
  using assms(1)
proof (cases rule: routeAsync_body_cases)
  case (before_throws e)
  from mitt_emit_keeps_invocations [OF this(1) [unfolded emitBeforeEvent_def] assms(2)]
  show ?thesis .
next
  case (chain_throws s1 e w2)
  from mitt_emit_keeps_invocations [OF this(1) [unfolded emitBeforeEvent_def] assms(2)]
    chain_throws(4)
  show ?thesis by simp
next
  case (after_throws s1 resp w2 e)
  from mitt_emit_keeps_invocations [OF this(1) [unfolded emitBeforeEvent_def] assms(2)]
    mitt_emit_keeps_invocations [OF after_throws(3) [unfolded emitAfterEvent_def] assms(3)]
  show ?thesis by simp
next
  case (completes s1 resp w2)
  from mitt_emit_keeps_invocations [OF this(1) [unfolded emitBeforeEvent_def] assms(2)]
    mitt_emit_keeps_invocations [OF completes(3) [unfolded emitAfterEvent_def] assms(3)]
  show ?thesis by simp
qed

lemma routeSync_loop_keeps_invocations:
  assumes "routeSync_loop E r opts q c s = Some (out, s')"
    and "l \<notin> set (emitter r Before)" "l \<notin> set (emitter r After)"
  shows "invocations l (trace s') = invocations l (trace s)"
  by (rule routeSync_loop_invariant
      [OF assms(1), where I = "\<lambda>x. invocations l (trace x) = invocations l (trace s)"])
    (simp_all add: routeSync_body_keeps_invocations [OF _ assms(2,3)])

lemma routeAsync_loop_keeps_invocations:
  assumes "routeAsync_loop E r opts q c s = Some (out, s')"
    and "l \<notin> set (emitter r Before)" "l \<notin> set (emitter r After)"
  shows "invocations l (trace s') = invocations l (trace s)"
  by (rule routeAsync_loop_invariant
      [OF assms(1), where I = "\<lambda>x. invocations l (trace x) = invocations l (trace s)"])
    (simp_all add: routeAsync_body_keeps_invocations [OF _ assms(2,3)])

lemma Router_routeSync_stages:
  assumes "Router_routeSync E request options r s = Some (out, r', s')"
  obtains
    (normalisation) "s' = s"
  | (returns) q c resp where
      "routeSync_loop E r (default_options options) q c s = Some (Inr resp, s')"
  | (raises) q c e s1 where
      "routeSync_loop E r (default_options options) q c s = Some (Inl e, s1)"
      "s' = snd (emitErrorEvent E r q e c s1)"
  using assms unfolding Router_routeSync_def
  by (auto split: sum.splits option.splits prod.splits)

lemma Router_routeAsync_stages:
  assumes "Router_routeAsync E request options r s = Some (p, r', s')"
  obtains
    (normalisation) "s' = s"
  | (returns) q c resp where
      "routeAsync_loop E r (default_options options) q c s = Some (Inr resp, s')"
  | (raises) q c e s1 where
      "routeAsync_loop E r (default_options options) q c s = Some (Inl e, s1)"
      "s' = snd (emitErrorEvent E r q e c s1)"
  using assms unfolding Router_routeAsync_def
  by (auto split: sum.splits option.splits prod.splits)

lemma emitErrorEvent_keeps_invocations:
  "l \<notin> set (emitter r Error) \<Longrightarrow>
   invocations l (trace (snd (emitErrorEvent E r q e c s))) = invocations l (trace s)"
  by (simp add: emitErrorEvent_def mitt_emit_invocations)

lemma emitErrorEvent_emitted:
  "emitted_count Error (trace (snd (emitErrorEvent E r q e c s))) =
     emitted_count Error (trace s) + 1"
  by (simp add: emitErrorEvent_def mitt_emit_emitted)

lemma Router_routeSync_absent_listener:
  assumes "Router_routeSync E request options r s = Some (out, r', s')"
    and "\<forall>t. l \<notin> set (emitter r t)"
  shows "invocations l (trace s') = invocations l (trace s)"
  using assms(1)
proof (cases rule: Router_routeSync_stages)
  case normalisation
  then show ?thesis by simp
next
  case (returns q c resp)
  from routeSync_loop_keeps_invocations [OF this] assms(2) show ?thesis by simp
next
  case (raises q c e s1)
  from routeSync_loop_keeps_invocations [OF raises(1)] assms(2) raises(2)
  show ?thesis by (simp add: emitErrorEvent_keeps_invocations)
qed

lemma Router_routeAsync_absent_listener:
  assumes "Router_routeAsync E request options r s = Some (p, r', s')"
    and "\<forall>t. l \<notin> set (emitter r t)"
  shows "invocations l (trace s') = invocations l (trace s)"
  using assms(1)
proof (cases rule: Router_routeAsync_stages)
  case normalisation
  then show ?thesis by simp
next
  case (returns q c resp)
  from routeAsync_loop_keeps_invocations [OF this] assms(2) show ?thesis by simp
next
  case (raises q c e s1)
  from routeAsync_loop_keeps_invocations [OF raises(1)] assms(2) raises(2)
  show ?thesis by (simp add: emitErrorEvent_keeps_invocations)
qed

lemma Router_routeSync_sole_listener:
  assumes "Router_routeSync E request options r s = Some (out, r', s')"
    and "emitter r Error = [l]" "l \<notin> set (emitter r Before)" "l \<notin> set (emitter r After)"
  shows "length (invocations l (trace s')) + emitted_count Error (trace s) =
         length (invocations l (trace s)) + emitted_count Error (trace s')"
  using assms(1)
proof (cases rule: Router_routeSync_stages)
  case normalisation
  then show ?thesis by simp
next
  case (returns q c resp)
  from routeSync_loop_keeps_invocations [OF this assms(3,4)]
    routeSync_loop_no_error_events [OF returns]
  show ?thesis by simp
next
  case (raises q c e s1)
  from routeSync_loop_keeps_invocations [OF raises(1) assms(3,4)]
    routeSync_loop_no_error_events [OF raises(1)] raises(2)
  show ?thesis
    by (simp add: emitErrorEvent_emitted emitErrorEvent_single_listener [OF assms(2)])
qed

lemma Router_routeAsync_sole_listener:
  assumes "Router_routeAsync E request options r s = Some (p, r', s')"
    and "emitter r Error = [l]" "l \<notin> set (emitter r Before)" "l \<notin> set (emitter r After)"
  shows "length (invocations l (trace s')) + emitted_count Error (trace s) =
         length (invocations l (trace s)) + emitted_count Error (trace s')"
  using assms(1)
proof (cases rule: Router_routeAsync_stages)
  case normalisation
  then show ?thesis by simp
next
  case (returns q c resp)
  from routeAsync_loop_keeps_invocations [OF this assms(3,4)]
    routeAsync_loop_no_error_events [OF returns]
  show ?thesis by simp
next
  case (raises q c e s1)
  from routeAsync_loop_keeps_invocations [OF raises(1) assms(3,4)]
    routeAsync_loop_no_error_events [OF raises(1)] raises(2)
  show ?thesis
    by (simp add: emitErrorEvent_emitted emitErrorEvent_single_listener [OF assms(2)])
qed

lemma example_handoff_routers:
  "snd (run_calls example_collaborators [On Before (UserListener 2)] Router_new) =
     Router_on Before (UserListener 2) Router_new"
  "snd (run_calls example_collaborators
     [On Before (UserListener 2), On Error (UserListener 2), Off Error (UserListener 2)]
     Router_new) =
   Router_off Error (UserListener 2)
     (Router_on Error (UserListener 2) (Router_on Before (UserListener 2) Router_new))"
  by simp_all

lemma example_watched_throw_pass:
  "routeSync_body example_collaborators (Router_on Before (UserListener 2) Router_new)
      [(''url'', JString ''/throw'')] [(''execution'', JBool True)] example_state =
     (Inl (Thrown ''boom''),
      \<lparr>world = 1, trace =
         [Emitted Before (BeforeEvent [(''url'', JString ''/throw'')]
            [(''execution'', JBool True)]),
          Invoked (UserListener 2) (BeforeEvent [(''url'', JString ''/throw'')]
            [(''execution'', JBool True)])]\<rparr>)"
  "routeAsync_body example_collaborators (Router_on Before (UserListener 2) Router_new)
      [(''url'', JString ''/throw'')] [(''execution'', JBool False)] example_state =
     (Inl (Thrown ''boom''),
      \<lparr>world = 1, trace =
         [Emitted Before (BeforeEvent [(''url'', JString ''/throw'')]
            [(''execution'', JBool False)]),
          Invoked (UserListener 2) (BeforeEvent [(''url'', JString ''/throw'')]
            [(''execution'', JBool False)])]\<rparr>)"
  by (simp_all add: example_defs Let_def)

lemma example_handed_over_throw_pass:
  "routeSync_body example_collaborators
      (Router_off Error (UserListener 2)
        (Router_on Error (UserListener 2) (Router_on Before (UserListener 2) Router_new)))
      [(''url'', JString ''/throw'')] [(''execution'', JBool True)] example_state =
     (Inl (Thrown ''boom''),
      \<lparr>world = 1, trace =
         [Emitted Before (BeforeEvent [(''url'', JString ''/throw'')]
            [(''execution'', JBool True)]),
          Invoked (UserListener 2) (BeforeEvent [(''url'', JString ''/throw'')]
            [(''execution'', JBool True)])]\<rparr>)"
  "routeAsync_body example_collaborators
      (Router_off Error (UserListener 2)
        (Router_on Error (UserListener 2) (Router_on Before (UserListener 2) Router_new)))
      [(''url'', JString ''/throw'')] [(''execution'', JBool False)] example_state =
     (Inl (Thrown ''boom''),
      \<lparr>world = 1, trace =
         [Emitted Before (BeforeEvent [(''url'', JString ''/throw'')]
            [(''execution'', JBool False)]),
          Invoked (UserListener 2) (BeforeEvent [(''url'', JString ''/throw'')]
            [(''execution'', JBool False)])]\<rparr>)"
  by (simp_all add: example_defs Let_def)

lemma example_watched_error:
  "emitErrorEvent example_collaborators (Router_on Before (UserListener 2) Router_new)
      [(''url'', JString ''/throw'')] (Thrown ''boom'') c \<lparr>world = 1, trace = tr\<rparr> =
     (None, \<lparr>world = 1, trace = tr @
        [Emitted Error (ErrorEvent [(''url'', JString ''/throw'')] (Thrown ''boom'') c),
         Invoked DefaultErrorListener
           (ErrorEvent [(''url'', JString ''/throw'')] (Thrown ''boom'') c)]\<rparr>)"
  by (simp add: example_defs Let_def)

lemma example_handed_over_error:
  "emitErrorEvent example_collaborators
      (Router_off Error (UserListener 2)
        (Router_on Error (UserListener 2) (Router_on Before (UserListener 2) Router_new)))
      [(''url'', JString ''/throw'')] (Thrown ''boom'') c \<lparr>world = 1, trace = tr\<rparr> =
     (None, \<lparr>world = 1, trace = tr @
        [Emitted Error (ErrorEvent [(''url'', JString ''/throw'')] (Thrown ''boom'') c)]\<rparr>)"
  by (simp add: example_defs Let_def)

lemma example_watched_dispatch:
  "Router_routeSync example_collaborators [(''url'', JString ''/throw'')] None
      (Router_on Before (UserListener 2) Router_new) example_state =
     Some (Inl (Thrown ''boom''), Router_on Before (UserListener 2) Router_new,
       \<lparr>world = 1, trace =
         [Emitted Before (BeforeEvent [(''url'', JString ''/throw'')]
            [(''execution'', JBool True)]),
          Invoked (UserListener 2) (BeforeEvent [(''url'', JString ''/throw'')]
            [(''execution'', JBool True)]),
          Emitted Error (ErrorEvent [(''url'', JString ''/throw'')] (Thrown ''boom'')
            [(''execution'', JBool True)]),
          Invoked DefaultErrorListener (ErrorEvent [(''url'', JString ''/throw'')]
            (Thrown ''boom'') [(''execution'', JBool True)])]\<rparr>)"
  "Router_routeAsync example_collaborators [(''url'', JString ''/throw'')] None
      (Router_on Before (UserListener 2) Router_new) example_state =
     Some (Rejected (Thrown ''boom''), Router_on Before (UserListener 2) Router_new,
       \<lparr>world = 1, trace =
         [Emitted Before (BeforeEvent [(''url'', JString ''/throw'')]
            [(''execution'', JBool False)]),
          Invoked (UserListener 2) (BeforeEvent [(''url'', JString ''/throw'')]
            [(''execution'', JBool False)]),
          Emitted Error (ErrorEvent [(''url'', JString ''/throw'')] (Thrown ''boom'')
            [(''execution'', JBool False)]),
          Invoked DefaultErrorListener (ErrorEvent [(''url'', JString ''/throw'')]
            (Thrown ''boom'') [(''execution'', JBool False)])]\<rparr>)"
  using
    Router_routeSync_raises [OF example_collaborators_simps(1,2)
      routeSync_loop_raise [OF example_watched_throw_pass(1)] example_watched_error,
      where options = None]
    Router_routeAsync_rejects [OF example_collaborators_simps(1,3)
      routeAsync_loop_raise [OF example_watched_throw_pass(2)] example_watched_error,
      where options = None]
  by simp_all

lemma example_handed_over_dispatch:
  "Router_routeSync example_collaborators [(''url'', JString ''/throw'')] None
      (Router_off Error (UserListener 2)
        (Router_on Error (UserListener 2) (Router_on Before (UserListener 2) Router_new)))
      example_state =
     Some (Inl (Thrown ''boom''),
       Router_off Error (UserListener 2)
        (Router_on Error (UserListener 2) (Router_on Before (UserListener 2) Router_new)),
       \<lparr>world = 1, trace =
         [Emitted Before (BeforeEvent [(''url'', JString ''/throw'')]
            [(''execution'', JBool True)]),
          Invoked (UserListener 2) (BeforeEvent [(''url'', JString ''/throw'')]
            [(''execution'', JBool True)]),
          Emitted Error (ErrorEvent [(''url'', JString ''/throw'')] (Thrown ''boom'')
            [(''execution'', JBool True)])]\<rparr>)"
  "Router_routeAsync example_collaborators [(''url'', JString ''/throw'')] None
      (Router_off Error (UserListener 2)
        (Router_on Error (UserListener 2) (Router_on Before (UserListener 2) Router_new)))
      example_state =
     Some (Rejected (Thrown ''boom''),
       Router_off Error (UserListener 2)
        (Router_on Error (UserListener 2) (Router_on Before (UserListener 2) Router_new)),
       \<lparr>world = 1, trace =
         [Emitted Before (BeforeEvent [(''url'', JString ''/throw'')]
            [(''execution'', JBool False)]),
          Invoked (UserListener 2) (BeforeEvent [(''url'', JString ''/throw'')]
            [(''execution'', JBool False)]),
          Emitted Error (ErrorEvent [(''url'', JString ''/throw'')] (Thrown ''boom'')
            [(''execution'', JBool False)])]\<rparr>)"
  using
    Router_routeSync_raises [OF example_collaborators_simps(1,2)
      routeSync_loop_raise [OF example_handed_over_throw_pass(1)] example_handed_over_error,
      where options = None]
    Router_routeAsync_rejects [OF example_collaborators_simps(1,3)
      routeAsync_loop_raise [OF example_handed_over_throw_pass(2)] example_handed_over_error,
      where options = None]
  by simp_all

text \<open>
  C3. Take any script of calls that never passes the router's own default listener as
  an argument. While the script contains no \<open>on('error', ...)\<close>, the default listener
  is the one \<open>error\<close> subscriber: an emitted \<open>error\<close> event is recorded and handed to
  it, and over a dispatch call the invocations of the default listener grow exactly
  with the \<open>error\<close> events emitted. Once the script has called \<open>on('error', l)\<close>, the
  default listener is subscribed to no event, whatever calls follow (an
  \<open>off('error', l)\<close> included): neither an emitted \<open>error\<close> event nor a whole
  dispatch call invokes it again.
\<close>

theorem default_error_listener_handoff:
  "((\<forall>k\<in>set cs. \<not> passes_listener DefaultErrorListener k \<and> \<not> is_on_error k) \<longrightarrow>
      emitter (snd (run_calls E cs Router_new)) Error = [DefaultErrorListener] \<and>
      trace (snd (emitErrorEvent E (snd (run_calls E cs Router_new)) q e c s)) =
        trace s @ [Emitted Error (ErrorEvent q e c),
                   Invoked DefaultErrorListener (ErrorEvent q e c)] \<and>
      (Router_routeSync E request options (snd (run_calls E cs Router_new)) s =
         Some (out, r', s') \<longrightarrow>
       length (invocations DefaultErrorListener (trace s')) + emitted_count Error (trace s) =
       length (invocations DefaultErrorListener (trace s)) + emitted_count Error (trace s')) \<and>
      (Router_routeAsync E request options (snd (run_calls E cs Router_new)) s =
         Some (p, r'', s'') \<longrightarrow>
       length (invocations DefaultErrorListener (trace s'')) + emitted_count Error (trace s) =
       length (invocations DefaultErrorListener (trace s)) +
         emitted_count Error (trace s''))) \<and>
   ((\<forall>k\<in>set cs \<union> set cs'. \<not> passes_listener DefaultErrorListener k) \<and>
    l \<noteq> DefaultErrorListener \<longrightarrow>
      (\<forall>t. DefaultErrorListener \<notin>
         set (emitter (snd (run_calls E (cs @ On Error l # cs') Router_new)) t)) \<and>
      invocations DefaultErrorListener
        (trace (snd (emitErrorEvent E
           (snd (run_calls E (cs @ On Error l # cs') Router_new)) q e c s))) =
        invocations DefaultErrorListener (trace s) \<and>
      (Router_routeSync E request options
         (snd (run_calls E (cs @ On Error l # cs') Router_new)) s = Some (out1, r1, s1) \<longrightarrow>
       invocations DefaultErrorListener (trace s1) =
         invocations DefaultErrorListener (trace s)) \<and>
      (Router_routeAsync E request options
         (snd (run_calls E (cs @ On Error l # cs') Router_new)) s = Some (p2, r2, s2) \<longrightarrow>
       invocations DefaultErrorListener (trace s2) =
         invocations DefaultErrorListener (trace s)))"
proof (intro conjI impI; (elim conjE)?)
  let ?r = "snd (run_calls E cs Router_new)"
  assume a: "\<forall>k\<in>set cs. \<not> passes_listener DefaultErrorListener k \<and> \<not> is_on_error k"
  note only = before_first_on_error(1) [OF a, of E]
  have others: "DefaultErrorListener \<notin> set (emitter ?r Before)"
    "DefaultErrorListener \<notin> set (emitter ?r After)"
    by (rule before_first_on_error(2) [OF a], simp)+
  show "emitter ?r Error = [DefaultErrorListener]" by (rule only)
  show "trace (snd (emitErrorEvent E ?r q e c s)) =
        trace s @ [Emitted Error (ErrorEvent q e c),
                   Invoked DefaultErrorListener (ErrorEvent q e c)]"
    by (rule emitErrorEvent_single_listener [OF only])
  {
    assume d: "Router_routeSync E request options ?r s = Some (out, r', s')"
    show "length (invocations DefaultErrorListener (trace s')) +
        emitted_count Error (trace s) =
        length (invocations DefaultErrorListener (trace s)) + emitted_count Error (trace s')"
      by (rule Router_routeSync_sole_listener [OF d only others])
  }
  {
    assume d: "Router_routeAsync E request options ?r s = Some (p, r'', s'')"
    show "length (invocations DefaultErrorListener (trace s'')) +
        emitted_count Error (trace s) =
        length (invocations DefaultErrorListener (trace s)) + emitted_count Error (trace s'')"
      by (rule Router_routeAsync_sole_listener [OF d only others])
  }
next
  let ?r = "snd (run_calls E (cs @ On Error l # cs') Router_new)"
  assume a: "\<forall>k\<in>set cs \<union> set cs'. \<not> passes_listener DefaultErrorListener k"
    and l: "l \<noteq> DefaultErrorListener"
  note gone = handoff_removes_default [OF a l, of E]
  show "\<forall>t. DefaultErrorListener \<notin> set (emitter ?r t)" by (rule gone)
  show "invocations DefaultErrorListener (trace (snd (emitErrorEvent E ?r q e c s))) =
        invocations DefaultErrorListener (trace s)"
    using gone by (simp add: emitErrorEvent_keeps_invocations)
  {
    assume d: "Router_routeSync E request options ?r s = Some (out1, r1, s1)"
    show "invocations DefaultErrorListener (trace s1) =
         invocations DefaultErrorListener (trace s)"
      by (rule Router_routeSync_absent_listener [OF d gone])
  }
  {
    assume d: "Router_routeAsync E request options ?r s = Some (p2, r2, s2)"
    show "invocations DefaultErrorListener (trace s2) =
         invocations DefaultErrorListener (trace s)"
      by (rule Router_routeAsync_absent_listener [OF d gone])
  }
qed

theorem default_error_listener_handoff_witness:
  "emitter (snd (run_calls example_collaborators [On Before (UserListener 2)] Router_new))
      Error = [DefaultErrorListener] \<and>
   length (invocations DefaultErrorListener (trace (snd (snd (the
     (Router_routeSync example_collaborators [(''url'', JString ''/throw'')] None
        (snd (run_calls example_collaborators [On Before (UserListener 2)] Router_new))
        example_state)))))) = 1 \<and>
   length (invocations DefaultErrorListener (trace (snd (snd (the
     (Router_routeAsync example_collaborators [(''url'', JString ''/throw'')] None
        (snd (run_calls example_collaborators [On Before (UserListener 2)] Router_new))
        example_state)))))) = 1 \<and>
   DefaultErrorListener \<notin> set (emitter (snd (run_calls example_collaborators
     [On Before (UserListener 2), On Error (UserListener 2), Off Error (UserListener 2)]
     Router_new)) Error) \<and>
   emitted_count Error (trace (snd (snd (the
     (Router_routeSync example_collaborators [(''url'', JString ''/throw'')] None
        (snd (run_calls example_collaborators
          [On Before (UserListener 2), On Error (UserListener 2), Off Error (UserListener 2)]
          Router_new))
        example_state))))) = 1 \<and>
   invocations DefaultErrorListener (trace (snd (snd (the
     (Router_routeSync example_collaborators [(''url'', JString ''/throw'')] None
        (snd (run_calls example_collaborators
          [On Before (UserListener 2), On Error (UserListener 2), Off Error (UserListener 2)]
          Router_new))
        example_state))))) = [] \<and>
   invocations DefaultErrorListener (trace (snd (snd (the
     (Router_routeAsync example_collaborators [(''url'', JString ''/throw'')] None
        (snd (run_calls example_collaborators
          [On Before (UserListener 2), On Error (UserListener 2), Off Error (UserListener 2)]
          Router_new))
        example_state))))) = []"
  (is "?only \<and> ?sync0 \<and> ?async0 \<and> ?gone \<and> ?emitted \<and> ?sync1 \<and> ?async1")
proof -
  let ?E = example_collaborators
  let ?q = "[(''url'', JString ''/throw'')]"
  let ?cs = "[On Before (UserListener 2)]"
  let ?cs' = "[Off Error (UserListener 2)]"
  let ?r0 = "snd (run_calls ?E ?cs Router_new)"
  let ?r1 = "snd (run_calls ?E (?cs @ On Error (UserListener 2) # ?cs') Router_new)"
  have h0: "\<forall>k\<in>set ?cs. \<not> passes_listener DefaultErrorListener k \<and> \<not> is_on_error k"
    by simp
  have h1: "(\<forall>k\<in>set ?cs \<union> set ?cs'. \<not> passes_listener DefaultErrorListener k) \<and>
      UserListener 2 \<noteq> DefaultErrorListener"
    by simp
  note before = default_error_listener_handoff [THEN conjunct1, THEN mp, OF h0]
  note after = default_error_listener_handoff [THEN conjunct2, THEN mp, OF h1]
  obtain out0 s0 where s0: "Router_routeSync ?E ?q None ?r0 example_state =
      Some (out0, Router_on Before (UserListener 2) Router_new, s0)"
    and e0: "emitted_count Error (trace s0) = 1"
    using example_watched_dispatch(1) by (simp add: emitted_count_def)
  obtain p0 t0 where a0: "Router_routeAsync ?E ?q None ?r0 example_state =
      Some (p0, Router_on Before (UserListener 2) Router_new, t0)"
    and f0: "emitted_count Error (trace t0) = 1"
    using example_watched_dispatch(2) by (simp add: emitted_count_def)
  obtain out1 r1 s1 where s1: "Router_routeSync ?E ?q None ?r1 example_state =
      Some (out1, r1, s1)"
    and e1: "emitted_count Error (trace s1) = 1"
    using example_handed_over_dispatch(1) by (simp add: emitted_count_def)
  obtain p1 r2 t1 where a1: "Router_routeAsync ?E ?q None ?r1 example_state =
      Some (p1, r2, t1)"
    using example_handed_over_dispatch(2) by simp
  have ?only
    using before [THEN conjunct1, of ?E] by simp
  moreover have ?sync0
    using before [THEN conjunct2, THEN conjunct2, THEN conjunct1, THEN mp, OF s0] s0 e0
    by (simp add: example_state_def)
  moreover have ?async0
    using before [THEN conjunct2, THEN conjunct2, THEN conjunct2, THEN mp, OF a0] a0 f0
    by (simp add: example_state_def)
  moreover have ?gone
    using after [THEN conjunct1, of ?E] by simp
  moreover have ?emitted
    using s1 e1 by simp
  moreover have ?sync1
    using after [THEN conjunct2, THEN conjunct2, THEN conjunct1, THEN mp, OF s1] s1
    by (simp add: example_state_def)
  moreover have ?async1
    using after [THEN conjunct2, THEN conjunct2, THEN conjunct2, THEN mp, OF a1] a1
    by (simp add: example_state_def)
  ultimately show ?thesis by blast
qed

end
